(* ===== verification/Prelude.thy ===== *)
theory Prelude
  imports Main "HOL-Library.Word"
begin

text \<open>
  Shared vocabulary of the development: the C integer types of the sources as fixed-width
  words, the errno values the drivers return, the result codes of timers and interrupt
  handlers, and the generic list and word lemmas the component theories use.

  Conventions. A C function that returns \<^verbatim>\<open>int\<close> or \<^verbatim>\<open>ssize_t\<close> returns an \<open>int\<close> here: a negative
  errno or a count. A C statistics counter of type \<^verbatim>\<open>int\<close>, \<^verbatim>\<open>unsigned\<close> or \<^verbatim>\<open>u64\<close> is a word of that
  width and \<^verbatim>\<open>++\<close> wraps. Logging (\<^verbatim>\<open>TRACE\<close>, \<^verbatim>\<open>DBG\<close>, \<^verbatim>\<open>INFO\<close>, \<^verbatim>\<open>WARNING\<close>, \<^verbatim>\<open>pr_info\<close> and so on)
  has no effect on the modelled state and is left out everywhere.
\<close>

unbundle bit_operations_syntax

section \<open>Types\<close>

type_synonym u8 = "8 word"
type_synonym u32 = "32 word"
type_synonym u64 = "64 word"

text \<open>Return values of an hrtimer callback.\<close>

datatype hrtimer_restart = HRTIMER_NORESTART | HRTIMER_RESTART

section \<open>Errno values of the Linux ABI\<close>

definition EIO :: int where "EIO = 5"
definition ENXIO :: int where "ENXIO = 6"
definition EAGAIN :: int where "EAGAIN = 11"
definition ENOMEM :: int where "ENOMEM = 12"
definition EFAULT :: int where "EFAULT = 14"
definition ENODEV :: int where "ENODEV = 19"
definition EINVAL :: int where "EINVAL = 22"
definition ERANGE :: int where "ERANGE = 34"
definition ERESTARTSYS :: int where "ERESTARTSYS = 512"

definition INT_MAX :: int where "INT_MAX = 2147483647"

named_theorems errno_defs \<open>the numeric values of the errno constants\<close>

lemmas errno_values [errno_defs] =
  EIO_def ENXIO_def EAGAIN_def ENOMEM_def EFAULT_def ENODEV_def EINVAL_def ERANGE_def
  ERESTARTSYS_def

section \<open>Bits of a byte\<close>

text \<open>\<open>(b >> i) & 1\<close> as a C \<^verbatim>\<open>int\<close>: the value that is written to a GPIO line.\<close>

definition bit_level :: "u8 \<Rightarrow> nat \<Rightarrow> int" where
  "bit_level b i = uint (drop_bit i b AND 1)"

lemma bit_level_of_bool: "bit_level b i = of_bool (bit b i)"
proof -
  have "drop_bit i b AND 1 = of_bool (bit b i)"
    by (simp add: and_one_eq mod_2_eq_odd bit_iff_odd_drop_bit)
  then show ?thesis
    by (simp add: bit_level_def)
qed

text \<open>The number of one bits.\<close>

definition popcount :: "u8 \<Rightarrow> nat" where
  "popcount b = length (filter (bit b) [0..<8])"

text \<open>The eight data bits of a byte in transmission order, least significant bit first.\<close>

definition data_levels :: "u8 \<Rightarrow> int list" where
  "data_levels b = map (bit_level b) [0..<8]"

lemma length_data_levels [simp]: "length (data_levels b) = 8"
  by (simp add: data_levels_def)

lemma upt_0_8: "[0..<8] = [0, 1, 2, 3, 4, 5, 6, 7::nat]"
  by (simp add: upt_rec)

lemma less_8_cases: "i < (8::nat) \<longleftrightarrow> i \<in> {0, 1, 2, 3, 4, 5, 6, 7}"
  by auto

lemma byte_eq_iff: "(a :: u8) = b \<longleftrightarrow> (\<forall>i \<in> {0, 1, 2, 3, 4, 5, 6, 7}. bit a i = bit b i)"
proof -
  have "a = b \<longleftrightarrow> (\<forall>i < 8. bit a i = bit b i)"
    by (auto intro: bit_word_eqI)
  then show ?thesis
    unfolding less_8_cases by blast
qed

section \<open>The last elements of a list\<close>

text \<open>\<open>lastn n xs\<close> is what a bounded buffer of \<open>n\<close> elements that overwrites its oldest
  element holds after \<open>xs\<close> has been stored into it.\<close>

definition lastn :: "nat \<Rightarrow> 'a list \<Rightarrow> 'a list" where
  "lastn n xs = drop (length xs - n) xs"

lemma lastn_short [simp]: "length xs \<le> n \<Longrightarrow> lastn n xs = xs"
  by (simp add: lastn_def)

lemma length_lastn [simp]: "length (lastn n xs) = min n (length xs)"
  by (auto simp: lastn_def)

lemma lastn_lastn_append: "lastn n (lastn n xs @ ys) = lastn n (xs @ ys)"
proof (cases "length xs \<le> n")
  case True
  then show ?thesis by simp
next
  case False
  then have "length xs - n + (length ys + n - n) = length xs + length ys - n"
    by simp
  with False show ?thesis
    by (simp add: lastn_def add.commute)
qed

lemma lastn_snoc_full: "length xs = n \<Longrightarrow> 0 < n \<Longrightarrow> lastn n (xs @ [x]) = tl xs @ [x]"
  by (simp add: lastn_def drop_Suc)

section \<open>Actions of a handler on the outside world\<close>

text \<open>Handlers and callbacks return what they do to pins, wait queues, timers, interrupts and work
  items, in order.\<close>

datatype kact =
    Gpio_set_value int int
  | Wake_up string
  | Start_timer string int
  | Forward_timer string int
  | Irq_on int
  | Irq_off int
  | Schedule_work string
  | Udelay u32
  | Tty_flip_char u8
  | Tty_flip_push

text \<open>The levels written to the line \<open>p\<close>, in order.\<close>

fun line_levels :: "int \<Rightarrow> kact list \<Rightarrow> int list" where
  "line_levels p [] = []"
| "line_levels p (Gpio_set_value q v # as) =
     (if q = p then v # line_levels p as else line_levels p as)"
| "line_levels p (_ # as) = line_levels p as"

lemma line_levels_append: "line_levels p (as @ bs) = line_levels p as @ line_levels p bs"
  by (induction p as rule: line_levels.induct) auto

section \<open>Kernel time\<close>

text \<open>The time conversions of \<^verbatim>\<open>linux/ktime.h\<close> that the drivers call.\<close>

record ktime_api =
  ms_to_ktime :: "u32 \<Rightarrow> int"
  ktime_divns :: "int \<Rightarrow> int \<Rightarrow> int"
  ktime_set :: "int \<Rightarrow> int \<Rightarrow> int"

text \<open>The conversions of \<^verbatim>\<open>linux/ktime.h\<close> on their documented domain: times are nanoseconds.\<close>

definition ktime_ns :: ktime_api where
  "ktime_ns = \<lparr>ms_to_ktime = (\<lambda>ms. uint ms * 1000000), ktime_divns = (\<lambda>t n. t div n),
     ktime_set = (\<lambda>s n. s * 1000000000 + n)\<rparr>"

section \<open>Ring indices\<close>

text \<open>The number of occupied slots of a ring of \<open>n\<close> slots whose next free slot is \<open>h\<close> and whose
  oldest element is in slot \<open>t\<close>.\<close>

definition ring_dist :: "nat \<Rightarrow> nat \<Rightarrow> nat \<Rightarrow> nat" where
  "ring_dist n h t = (h + n - t) mod n"

lemma Suc_mod_if: "a < n \<Longrightarrow> Suc a mod n = (if Suc a = n then 0 else Suc a)"
  by auto

lemma ring_dist_less: "0 < n \<Longrightarrow> ring_dist n h t < n"
  by (simp add: ring_dist_def)

lemma ring_dist_alt:
  assumes "h < n" and "t < n"
  shows "ring_dist n h t = (if t \<le> h then h - t else h + n - t)"
proof (cases "t \<le> h")
  case True
  then have "h + n - t = (h - t) + n" by simp
  then have "ring_dist n h t = (h - t) mod n"
    by (simp only: ring_dist_def mod_add_self2)
  with True assms show ?thesis by simp
qed (use assms in \<open>simp add: ring_dist_def\<close>)

lemma ring_dist_0_iff: "h < n \<Longrightarrow> t < n \<Longrightarrow> ring_dist n h t = 0 \<longleftrightarrow> h = t"
  by (auto simp: ring_dist_alt)

lemma ring_dist_full_iff:
  "h < n \<Longrightarrow> t < n \<Longrightarrow> ring_dist n h t = n - Suc 0 \<longleftrightarrow> Suc h mod n = t"
  by (auto simp: ring_dist_alt Suc_mod_if split: if_splits)

lemma ring_dist_Suc_head:
  "h < n \<Longrightarrow> t < n \<Longrightarrow> ring_dist n h t < n - 1 \<Longrightarrow>
    ring_dist n (Suc h mod n) t = Suc (ring_dist n h t)"
  by (cases "Suc h = n") (auto simp: ring_dist_alt split: if_splits)

lemma ring_dist_Suc_tail:
  "h < n \<Longrightarrow> t < n \<Longrightarrow> h \<noteq> t \<Longrightarrow> ring_dist n h t = Suc (ring_dist n h (Suc t mod n))"
  by (cases "Suc t = n") (auto simp: ring_dist_alt split: if_splits)

lemma ring_dist_slot: "h < n \<Longrightarrow> t < n \<Longrightarrow> (t + ring_dist n h t) mod n = h"
  by (auto simp: ring_dist_alt)

lemma ring_dist_other_slot:
  assumes "h < n" and "t < n" and "i < ring_dist n h t"
  shows "h \<noteq> (t + i) mod n"
proof (cases "t + i < n")
  case True
  with assms show ?thesis by (simp add: ring_dist_alt split: if_splits)
next
  case False
  moreover have "i < n"
    using assms ring_dist_less [of n h t] by simp
  ultimately have "(t + i) mod n = t + i - n"
    using assms(2) by (simp add: mod_if)
  with assms False show ?thesis by (simp add: ring_dist_alt split: if_splits)
qed

lemma upt_Suc_map: "[0..<Suc n] = 0 # map Suc [0..<n]"
  by (simp add: map_Suc_upt upt_conv_Cons)

section \<open>Decimal output\<close>

text \<open>\<^verbatim>\<open>%u\<close> and \<^verbatim>\<open>%d\<close> of the printf family.\<close>

fun dec :: "nat \<Rightarrow> string" where
  "dec n = (if n < 10 then [char_of (48 + n)] else dec (n div 10) @ [char_of (48 + n mod 10)])"

definition dec_int :: "int \<Rightarrow> string" where
  "dec_int i = (if i < 0 then CHR ''-'' # dec (nat (- i)) else dec (nat i))"

definition newline :: string where "newline = [CHR 0x0A]"

declare dec.simps [simp del]

text \<open>The value of a string of decimal digits, which \<^verbatim>\<open>strtol\<close> and the \<^verbatim>\<open>kstrto\<close> family compute.\<close>

definition dec_value :: "string \<Rightarrow> nat" where
  "dec_value s = fold (\<lambda>c v. 10 * v + (of_char c - 48)) s 0"

lemma dec_value_dec: "dec_value (dec n) = n"
proof (induction n rule: dec.induct)
  case (1 n)
  have digit: "(of_char (char_of (48 + d :: nat)) :: nat) - 48 = d" if "d < 10" for d
    using that by simp
  show ?case
  proof (cases "n < 10")
    case True
    then show ?thesis by (simp add: dec.simps [of n] dec_value_def digit)
  next
    case False
    then have "dec n = dec (n div 10) @ [char_of (48 + n mod 10)]"
      by (simp add: dec.simps [of n])
    moreover have "dec_value (dec (n div 10)) = n div 10"
      using 1 False by simp
    ultimately show ?thesis
      by (simp add: dec_value_def digit)
  qed
qed

section \<open>Unicode text\<close>

text \<open>A text of the Qt programs is a list of code units; this is an ASCII literal as one.\<close>

definition chars :: "string \<Rightarrow> nat list" where
  "chars = map of_char"

section \<open>Word arithmetic\<close>

lemma unat_plus_one_mod:
  fixes w :: u32
  assumes "unat w < m" and "m < 2 ^ 32"
  shows "unat ((w + 1) mod of_nat m) = (unat w + 1) mod m"
proof -
  have "unat (w + 1) = unat w + 1"
    using assms by (simp add: unat_word_ariths)
  moreover have "unat (of_nat m :: u32) = m"
    using assms by (simp add: unat_of_nat)
  ultimately show ?thesis
    by (simp add: unat_mod)
qed

end
