(* ===== verification/Byte_Fifo.thy ===== *)
theory Byte_Fifo
  imports Prelude
begin

text \<open>
  Queue interfaces.

  \<^item> \<open>bounded_fifo\<close> is the contract of a bounded queue with a one-element \<open>put\<close> that refuses when
    full and a one-element \<open>get\<close> that refuses when empty. The ring buffer of \<^verbatim>\<open>tx_ring.c\<close> is
    proved to satisfy it in theory \<open>Tx_Ring\<close>.
  \<^item> \<open>kfifo_api\<close> is the part of the kernel's \<^verbatim>\<open>linux/kfifo.h\<close> that the drivers of this repository
    call, as a record of functions: the kernel's code is not part of the repository, so every
    definition that uses a kfifo takes this record as an argument.
  \<^item> \<open>kfifo\<close> states the documented behaviour of these functions relative to an abstraction of the
    fifo to the list of its bytes, oldest first. The driver theorems assume \<open>kfifo\<close> and nothing
    else about the implementation.
  \<^item> Every \<open>bounded_fifo\<close> gives a \<open>kfifo\<close> (\<open>kfifo_of\<close>).
\<close>

section \<open>Bounded queues\<close>

datatype 'a fifo_op = Put 'a | Get

text \<open>Running a sequence of queue operations: the accepted elements, the elements obtained, and
  the final queue.\<close>

fun fifo_run :: "('q \<Rightarrow> 'a \<Rightarrow> bool \<times> 'q) \<Rightarrow> ('q \<Rightarrow> 'a option \<times> 'q) \<Rightarrow> 'q \<Rightarrow> 'a fifo_op list \<Rightarrow>
    'a list \<times> 'a list \<times> 'q" where
  "fifo_run put get q [] = ([], [], q)"
| "fifo_run put get q (Put x # ops) =
     (let (ok, q1) = put q x; (acc, got, q2) = fifo_run put get q1 ops
      in (if ok then x # acc else acc, got, q2))"
| "fifo_run put get q (Get # ops) =
     (let (r, q1) = get q; (acc, got, q2) = fifo_run put get q1 ops
      in (acc, (case r of None \<Rightarrow> got | Some x \<Rightarrow> x # got), q2))"

text \<open>Storing a list of elements until the queue refuses one; fetching up to \<open>n\<close> elements.\<close>

fun put_list :: "('q \<Rightarrow> 'a \<Rightarrow> bool \<times> 'q) \<Rightarrow> 'q \<Rightarrow> 'a list \<Rightarrow> 'q \<times> nat" where
  "put_list put q [] = (q, 0)"
| "put_list put q (x # xs) =
     (let (ok, q1) = put q x
      in if ok then (let (q2, n) = put_list put q1 xs in (q2, Suc n)) else (q1, 0))"

fun get_list :: "('q \<Rightarrow> 'a option \<times> 'q) \<Rightarrow> 'q \<Rightarrow> nat \<Rightarrow> 'q \<times> 'a list" where
  "get_list get q 0 = (q, [])"
| "get_list get q (Suc n) =
     (case get q of
        (None, q1) \<Rightarrow> (q1, [])
      | (Some x, q1) \<Rightarrow> (let (q2, xs) = get_list get q1 n in (q2, x # xs)))"

locale bounded_fifo =
  fixes put :: "'q \<Rightarrow> 'a \<Rightarrow> bool \<times> 'q"
    and get :: "'q \<Rightarrow> 'a option \<times> 'q"
    and contents :: "'q \<Rightarrow> 'a list"
    and valid :: "'q \<Rightarrow> bool"
    and cap :: nat
  assumes bounded: "valid q \<Longrightarrow> length (contents q) \<le> cap"
    and put_room: "valid q \<Longrightarrow> length (contents q) < cap \<Longrightarrow>
      \<exists>q'. put q x = (True, q') \<and> valid q' \<and> contents q' = contents q @ [x]"
    and put_full: "valid q \<Longrightarrow> length (contents q) = cap \<Longrightarrow> put q x = (False, q)"
    and get_empty: "valid q \<Longrightarrow> contents q = [] \<Longrightarrow> get q = (None, q)"
    and get_cons: "valid q \<Longrightarrow> contents q = x # xs \<Longrightarrow>
      \<exists>q'. get q = (Some x, q') \<and> valid q' \<and> contents q' = xs"
begin

lemma put_cases:
  assumes "valid q"
  obtains (stored) q' where "put q x = (True, q')" "valid q'" "contents q' = contents q @ [x]"
      "length (contents q) < cap"
  | (refused) "put q x = (False, q)" "length (contents q) = cap"
proof (cases "length (contents q) = cap")
  case True
  with assms show thesis by (intro refused put_full)
next
  case False
  with bounded [OF assms] have "length (contents q) < cap" by simp
  with put_room [OF assms, of x] show thesis by (auto intro: stored)
qed

lemma get_cases:
  assumes "valid q"
  obtains (empty) "get q = (None, q)" "contents q = []"
  | (item) x q' where "get q = (Some x, q')" "valid q'" "contents q = x # contents q'"
proof (cases "contents q")
  case Nil
  with assms show thesis by (intro empty get_empty)
next
  case (Cons x xs)
  with get_cons [OF assms Cons] show thesis by (auto intro: item)
qed

lemma put_result:
  assumes "valid q" and "put q x = (ok, q')"
  shows "valid q'" and "contents q' = contents q @ (if ok then [x] else [])"
  by (rule put_cases [OF assms(1), of x]; use assms in simp)+

lemma get_result:
  assumes "valid q" and "get q = (y, q')"
  shows "valid q'" and "contents q = (case y of None \<Rightarrow> [] | Some x \<Rightarrow> [x]) @ contents q'"
  by (rule get_cases [OF assms(1)]; use assms in simp)+

text \<open>First in, first out, for every interleaving of operations: what was in the queue followed by
  what was accepted is what came out followed by what is still in the queue.\<close>

lemma fifo_order:
  assumes "valid q" and "fifo_run put get q ops = (acc, got, q')"
  shows "valid q' \<and> contents q @ acc = got @ contents q'"
  using assms
proof (induction ops arbitrary: q acc got q')
  case Nil
  then show ?case by simp
next
  case (Cons op ops)
  show ?case
  proof (cases op)
    case (Put x)
    obtain ok q1 where p: "put q x = (ok, q1)" by fastforce
    obtain acc1 got1 q2 where r: "fifo_run put get q1 ops = (acc1, got1, q2)"
      by (cases "fifo_run put get q1 ops")
    note q1 = put_result [OF Cons.prems(1) p]
    from Cons.prems(2) Put p r have "acc = (if ok then x # acc1 else acc1)" "got = got1" "q' = q2"
      by auto
    with Cons.IH [OF q1(1) r] q1(2) show ?thesis by auto
  next
    case Get
    obtain y q1 where p: "get q = (y, q1)" by fastforce
    obtain acc1 got1 q2 where r: "fifo_run put get q1 ops = (acc1, got1, q2)"
      by (cases "fifo_run put get q1 ops")
    note q1 = get_result [OF Cons.prems(1) p]
    from Cons.prems(2) Get p r have "acc = acc1" "q' = q2"
      "got = (case y of None \<Rightarrow> [] | Some x \<Rightarrow> [x]) @ got1"
      by (auto split: option.splits)
    with Cons.IH [OF q1(1) r] q1(2) show ?thesis by simp
  qed
qed

lemma put_list_spec:
  assumes "valid q"
  shows "\<exists>q'. put_list put q xs = (q', min (length xs) (cap - length (contents q))) \<and> valid q' \<and>
    contents q' = contents q @ take (cap - length (contents q)) xs"
  using assms
proof (induction xs arbitrary: q)
  case Nil
  then show ?case by simp
next
  case (Cons x xs)
  show ?case
  proof (rule put_cases [OF Cons.prems, of x])
    fix q1
    assume q1: "put q x = (True, q1)" "valid q1" "contents q1 = contents q @ [x]"
      "length (contents q) < cap"
    from Cons.IH [OF q1(2)] obtain q2 where
      "put_list put q1 xs = (q2, min (length xs) (cap - length (contents q1)))" "valid q2"
      "contents q2 = contents q1 @ take (cap - length (contents q1)) xs"
      by blast
    with q1 show ?thesis
      by (auto simp: take_Cons' Suc_diff_Suc min_def)
  next
    assume "put q x = (False, q)" "length (contents q) = cap"
    with Cons.prems show ?thesis by simp
  qed
qed

lemma get_list_spec:
  assumes "valid q"
  shows "\<exists>q'. get_list get q n = (q', take n (contents q)) \<and> valid q' \<and>
    contents q' = drop n (contents q)"
  using assms
proof (induction n arbitrary: q)
  case 0
  then show ?case by simp
next
  case (Suc n)
  show ?case
  proof (rule get_cases [OF Suc.prems])
    assume "get q = (None, q)" "contents q = []"
    with Suc.prems show ?thesis by simp
  next
    fix x q1
    assume q1: "get q = (Some x, q1)" "valid q1" "contents q = x # contents q1"
    from Suc.IH [OF q1(2)] obtain q2 where
      "get_list get q1 n = (q2, take n (contents q1))" "valid q2" "contents q2 = drop n (contents q1)"
      by blast
    with q1 show ?thesis by simp
  qed
qed

end

section \<open>The kfifo interface\<close>

text \<open>
  User memory appears in two calls. \<open>kf_from_user f bs n\<close> copies at most \<open>n\<close> bytes from a user
  buffer whose readable part is \<open>bs\<close>; \<open>kf_to_user f n w\<close> copies at most \<open>n\<close> bytes to a user buffer
  whose writable part has \<open>w\<close> bytes. Both return the new fifo, the return code and what was copied.
\<close>

record 'f kfifo_api =
  kf_is_empty :: "'f \<Rightarrow> bool"
  kf_is_full :: "'f \<Rightarrow> bool"
  kf_in :: "'f \<Rightarrow> u8 list \<Rightarrow> 'f \<times> nat"
  kf_out :: "'f \<Rightarrow> nat \<Rightarrow> 'f \<times> u8 list"
  kf_reset :: "'f \<Rightarrow> 'f"
  kf_from_user :: "'f \<Rightarrow> u8 list \<Rightarrow> nat \<Rightarrow> 'f \<times> int \<times> nat"
  kf_to_user :: "'f \<Rightarrow> nat \<Rightarrow> nat \<Rightarrow> 'f \<times> int \<times> u8 list"

text \<open>The overwrite-on-full idiom that the interrupt and timer handlers share.\<close>

definition overwrite_in :: "'f kfifo_api \<Rightarrow> 'f \<Rightarrow> u8 \<Rightarrow> 'f" where
  "overwrite_in K f b =
     (let f1 = (if kf_is_full K f then fst (kf_out K f 1) else f) in fst (kf_in K f1 [b]))"

locale kfifo =
  fixes K :: "'f kfifo_api"
    and contents :: "'f \<Rightarrow> u8 list"
    and valid :: "'f \<Rightarrow> bool"
    and size :: nat
  assumes size_pos: "0 < size"
    and bounded: "valid f \<Longrightarrow> length (contents f) \<le> size"
    and is_empty_iff: "valid f \<Longrightarrow> kf_is_empty K f \<longleftrightarrow> contents f = []"
    and is_full_iff: "valid f \<Longrightarrow> kf_is_full K f \<longleftrightarrow> length (contents f) = size"
    and in_law: "valid f \<Longrightarrow> \<exists>f'. kf_in K f bs = (f', min (length bs) (size - length (contents f))) \<and>
      valid f' \<and> contents f' = contents f @ take (size - length (contents f)) bs"
    and out_law: "valid f \<Longrightarrow> \<exists>f'. kf_out K f n = (f', take n (contents f)) \<and>
      valid f' \<and> contents f' = drop n (contents f)"
    and reset_law: "valid f \<Longrightarrow> valid (kf_reset K f) \<and> contents (kf_reset K f) = []"
    and from_user_law: "valid f \<Longrightarrow> \<exists>f' ret c. kf_from_user K f bs n = (f', ret, c) \<and> valid f' \<and>
      (ret = 0 \<or> ret = - EFAULT) \<and> contents f' = contents f @ take c bs \<and>
      c \<le> min n (size - length (contents f)) \<and>
      (ret = 0 \<longrightarrow> c = min n (size - length (contents f))) \<and>
      (n \<le> length bs \<longrightarrow> ret = 0)"
    and to_user_law: "valid f \<Longrightarrow> \<exists>f' ret out. kf_to_user K f n w = (f', ret, out) \<and> valid f' \<and>
      (ret = 0 \<or> ret = - EFAULT) \<and> out = take (length out) (contents f) \<and>
      contents f' = drop (length out) (contents f) \<and>
      length out \<le> min n (length (contents f)) \<and>
      (ret = 0 \<longrightarrow> length out = min n (length (contents f))) \<and>
      (n \<le> w \<longrightarrow> ret = 0)"
begin

lemma out_one:
  assumes "valid f"
  obtains (empty) f' where "kf_out K f 1 = (f', [])" "valid f'" "contents f = []" "contents f' = []"
  | (byte) b f' where "kf_out K f 1 = (f', [b])" "valid f'" "contents f = b # contents f'"
proof (cases "contents f")
  case Nil
  with out_law [OF assms, of 1] show thesis by (auto intro: empty)
next
  case (Cons b bs)
  with out_law [OF assms, of 1] show thesis by (auto intro: byte)
qed

text \<open>Overwrite-on-full keeps the most recent bytes.\<close>

lemma overwrite_in_spec:
  assumes "valid f"
  shows "valid (overwrite_in K f b) \<and> contents (overwrite_in K f b) = lastn size (contents f @ [b])"
proof (cases "length (contents f) = size")
  case True
  then have full: "kf_is_full K f"
    using assms by (simp add: is_full_iff)
  obtain f1 where f1: "kf_out K f 1 = (f1, take 1 (contents f))" "valid f1"
      "contents f1 = tl (contents f)"
    using out_law [OF assms, of 1] by (auto simp: drop_Suc)
  moreover have "length (contents f1) < size"
    using True size_pos f1(3) by simp
  ultimately show ?thesis
    using in_law [OF f1(2), of "[b]"] True size_pos full
    by (auto simp: overwrite_in_def lastn_snoc_full)
next
  case False
  then have "length (contents f) < size"
    using bounded [OF assms] by simp
  then show ?thesis
    using in_law [OF assms, of "[b]"] assms
    by (auto simp: overwrite_in_def is_full_iff)
qed

lemma overwrite_in_fold:
  assumes "valid f"
  shows "valid (fold (\<lambda>b f. overwrite_in K f b) bs f) \<and>
    contents (fold (\<lambda>b f. overwrite_in K f b) bs f) = lastn size (contents f @ bs)"
  using assms
proof (induction bs arbitrary: f)
  case Nil
  then show ?case by (simp add: bounded)
next
  case (Cons b bs)
  from overwrite_in_spec [OF Cons.prems, of b] Cons.IH [of "overwrite_in K f b"]
  show ?case by (simp add: lastn_lastn_append)
qed

lemma from_user_exact:
  assumes "valid f" and "n \<le> length bs"
  obtains f' where "kf_from_user K f bs n = (f', 0, min n (size - length (contents f)))" "valid f'"
    "contents f' = contents f @ take (min n (size - length (contents f))) bs"
  using from_user_law [OF assms(1), of bs n] assms(2) that by force

lemma to_user_exact:
  assumes "valid f" and "n \<le> w"
  obtains f' where "kf_to_user K f n w = (f', 0, take n (contents f))" "valid f'"
    "contents f' = drop n (contents f)"
proof -
  from to_user_law [OF assms(1), of n w] assms(2) obtain f' out where
    *: "kf_to_user K f n w = (f', 0, out)" "valid f'" "out = take (length out) (contents f)"
      "contents f' = drop (length out) (contents f)" "length out = min n (length (contents f))"
    by auto
  then have "out = take n (contents f)" "contents f' = drop n (contents f)"
    by (auto simp: min_def split: if_splits)
  with *(1,2) show thesis by (intro that) auto
qed

end

section \<open>A kfifo from a bounded queue\<close>

text \<open>The kfifo calls in terms of a one-byte \<open>put\<close> and \<open>get\<close>. A user copy moves the part of the
  buffer that is accessible and reports \<open>-EFAULT\<close> when that is not all of it.\<close>

definition kfifo_of :: "('q \<Rightarrow> u8 \<Rightarrow> bool \<times> 'q) \<Rightarrow> ('q \<Rightarrow> u8 option \<times> 'q) \<Rightarrow> ('q \<Rightarrow> nat) \<Rightarrow> nat \<Rightarrow>
    'q \<Rightarrow> 'q kfifo_api" where
  "kfifo_of put get len cap q0 =
     \<lparr> kf_is_empty = (\<lambda>q. len q = 0),
       kf_is_full = (\<lambda>q. len q = cap),
       kf_in = put_list put,
       kf_out = get_list get,
       kf_reset = (\<lambda>_. q0),
       kf_from_user = (\<lambda>q bs n.
         let m = min n (cap - len q); (q', c) = put_list put q (take m bs)
         in (q', if m \<le> length bs then 0 else - EFAULT, c)),
       kf_to_user = (\<lambda>q n w.
         let m = min n (len q); (q', out) = get_list get q (min m w)
         in (q', if m \<le> w then 0 else - EFAULT, out)) \<rparr>"

locale counted_fifo = bounded_fifo put get contents valid cap
  for put :: "'q \<Rightarrow> u8 \<Rightarrow> bool \<times> 'q" and get contents valid cap +
  fixes len :: "'q \<Rightarrow> nat" and q0 :: 'q
  assumes cap_pos: "0 < cap"
    and len_law: "valid q \<Longrightarrow> len q = length (contents q)"
    and empty_law: "valid q0 \<and> contents q0 = []"
begin

lemma from_user_of:
  assumes q: "valid q"
  shows "\<exists>f' ret c. kf_from_user (kfifo_of put get len cap q0) q bs n = (f', ret, c) \<and> valid f' \<and>
      (ret = 0 \<or> ret = - EFAULT) \<and> contents f' = contents q @ take c bs \<and>
      c \<le> min n (cap - length (contents q)) \<and>
      (ret = 0 \<longrightarrow> c = min n (cap - length (contents q))) \<and> (n \<le> length bs \<longrightarrow> ret = 0)"
proof -
  let ?r = "cap - length (contents q)"
  from put_list_spec [OF q, of "take (min n ?r) bs"] obtain q' where
    "put_list put q (take (min n ?r) bs) = (q', min (min (length bs) (min n ?r)) ?r)" "valid q'"
    "contents q' = contents q @ take ?r (take (min n ?r) bs)"
    by auto
  then show ?thesis
    by (auto simp: kfifo_of_def Let_def len_law [OF q] min_def EFAULT_def split: if_splits)
qed

lemma to_user_of:
  assumes q: "valid q"
  shows "\<exists>f' ret out. kf_to_user (kfifo_of put get len cap q0) q n w = (f', ret, out) \<and> valid f' \<and>
      (ret = 0 \<or> ret = - EFAULT) \<and> out = take (length out) (contents q) \<and>
      contents f' = drop (length out) (contents q) \<and> length out \<le> min n (length (contents q)) \<and>
      (ret = 0 \<longrightarrow> length out = min n (length (contents q))) \<and> (n \<le> w \<longrightarrow> ret = 0)"
proof -
  let ?m = "min (min n (length (contents q))) w"
  from get_list_spec [OF q, of ?m] obtain q' where
    "get_list get q ?m = (q', take ?m (contents q))" "valid q'" "contents q' = drop ?m (contents q)"
    by blast
  then show ?thesis
    by (auto simp: kfifo_of_def Let_def len_law [OF q] EFAULT_def)
qed

lemma kfifo_of_kfifo: "kfifo (kfifo_of put get len cap q0) contents valid cap"
proof
  fix q bs n w
  assume q: "valid q"
  show "length (contents q) \<le> cap" using q by (rule bounded)
  show "kf_is_empty (kfifo_of put get len cap q0) q \<longleftrightarrow> contents q = []"
    using q by (simp add: kfifo_of_def len_law)
  show "kf_is_full (kfifo_of put get len cap q0) q \<longleftrightarrow> length (contents q) = cap"
    using q by (simp add: kfifo_of_def len_law)
  show "\<exists>f'. kf_in (kfifo_of put get len cap q0) q bs =
      (f', min (length bs) (cap - length (contents q))) \<and>
      valid f' \<and> contents f' = contents q @ take (cap - length (contents q)) bs"
    using put_list_spec [OF q, of bs] by (simp add: kfifo_of_def)
  show "\<exists>f'. kf_out (kfifo_of put get len cap q0) q n = (f', take n (contents q)) \<and>
      valid f' \<and> contents f' = drop n (contents q)"
    using get_list_spec [OF q, of n] by (simp add: kfifo_of_def)
  show "valid (kf_reset (kfifo_of put get len cap q0) q) \<and>
      contents (kf_reset (kfifo_of put get len cap q0) q) = []"
    by (simp add: kfifo_of_def empty_law)
qed (rule cap_pos, (erule from_user_of | erule to_user_of)+)

end

sublocale counted_fifo \<subseteq> as_kfifo: kfifo "kfifo_of put get len cap q0" contents valid cap
  by (rule kfifo_of_kfifo)

section \<open>A byte list as a bounded queue\<close>

text \<open>The simplest queue that satisfies the contract: at most \<open>n\<close> bytes in a list. It instantiates
  the kernel parameter wherever a concrete run is evaluated.\<close>

definition list_put :: "nat \<Rightarrow> u8 list \<Rightarrow> u8 \<Rightarrow> bool \<times> u8 list" where
  "list_put n q b = (if length q < n then (True, q @ [b]) else (False, q))"

definition list_get :: "u8 list \<Rightarrow> u8 option \<times> u8 list" where
  "list_get q = (case q of [] \<Rightarrow> (None, []) | b # bs \<Rightarrow> (Some b, bs))"

definition list_valid :: "nat \<Rightarrow> u8 list \<Rightarrow> bool" where
  "list_valid n q \<longleftrightarrow> length q \<le> n"

definition list_kfifo :: "nat \<Rightarrow> u8 list kfifo_api" where
  "list_kfifo n = kfifo_of (list_put n) list_get length n []"

lemma counted_fifo_list:
  "0 < n \<Longrightarrow> counted_fifo (list_put n) list_get (\<lambda>q. q) (list_valid n) n length []"
  by unfold_locales (auto simp: list_put_def list_get_def list_valid_def split: list.splits)

lemma kfifo_list: "0 < n \<Longrightarrow> kfifo (list_kfifo n) (\<lambda>q. q) (list_valid n) n"
  unfolding list_kfifo_def by (rule counted_fifo.kfifo_of_kfifo [OF counted_fifo_list])

end
