(* ===== verification/Tx_Ring.thy ===== *)
theory Tx_Ring
  imports Byte_Fifo
begin

text \<open>
  The transmit ring buffer of \<^verbatim>\<open>openwrt/kernel/soft_uart/gpt/tx_ring.c\<close>, which
  \<^verbatim>\<open>gpio_uart_tty_gpiod.c\<close> repeats as a member of its device structure. One slot stays free, so
  the ring of 512 slots is a queue of at most 511 bytes. The spinlock makes each operation atomic;
  the operations are therefore functions from the ring to the ring.
\<close>

section \<open>Definitions\<close>

definition TX_BUF_SIZE :: nat where "TX_BUF_SIZE = 512"

record tx_ring =
  ring_buf :: "u8 list"
  ring_head :: u32
  ring_tail :: u32

definition tx_ring_init :: "tx_ring \<Rightarrow> tx_ring" where
  "tx_ring_init r = r\<lparr>ring_head := 0, ring_tail := 0\<rparr>"

definition tx_ring_put :: "tx_ring \<Rightarrow> u8 \<Rightarrow> bool \<times> tx_ring" where
  "tx_ring_put r byte =
     (let next_head = (ring_head r + 1) mod of_nat TX_BUF_SIZE
      in if next_head = ring_tail r then (False, r)
         else (True, r\<lparr>ring_buf := (ring_buf r)[unat (ring_head r) := byte],
                       ring_head := next_head\<rparr>))"

text \<open>\<^verbatim>\<open>tx_ring_get\<close> returns a flag and stores the byte through a pointer: here an option.\<close>

definition tx_ring_get :: "tx_ring \<Rightarrow> u8 option \<times> tx_ring" where
  "tx_ring_get r =
     (if ring_head r = ring_tail r then (None, r)
      else (Some (ring_buf r ! unat (ring_tail r)),
            r\<lparr>ring_tail := (ring_tail r + 1) mod of_nat TX_BUF_SIZE\<rparr>))"

definition tx_ring_count :: "tx_ring \<Rightarrow> u32" where
  "tx_ring_count r = (ring_head r + of_nat TX_BUF_SIZE - ring_tail r) mod of_nat TX_BUF_SIZE"

section \<open>Invariant and abstraction\<close>

definition ring_valid :: "tx_ring \<Rightarrow> bool" where
  "ring_valid r \<longleftrightarrow> length (ring_buf r) = TX_BUF_SIZE \<and>
     unat (ring_head r) < TX_BUF_SIZE \<and> unat (ring_tail r) < TX_BUF_SIZE"

text \<open>The number of occupied slots, and the bytes in them, oldest first.\<close>

definition ring_len :: "tx_ring \<Rightarrow> nat" where
  "ring_len r = ring_dist TX_BUF_SIZE (unat (ring_head r)) (unat (ring_tail r))"

definition ring_bytes :: "tx_ring \<Rightarrow> u8 list" where
  "ring_bytes r =
     map (\<lambda>i. ring_buf r ! ((unat (ring_tail r) + i) mod TX_BUF_SIZE)) [0..<ring_len r]"

definition ring_empty :: tx_ring where
  "ring_empty = tx_ring_init \<lparr>ring_buf = replicate TX_BUF_SIZE 0, ring_head = 0, ring_tail = 0\<rparr>"

lemma length_ring_bytes [simp]: "length (ring_bytes r) = ring_len r"
  by (simp add: ring_bytes_def)

lemma unat_next:
  assumes "unat (w :: u32) < TX_BUF_SIZE"
  shows "unat ((w + 1) mod of_nat TX_BUF_SIZE) = (unat w + 1) mod TX_BUF_SIZE"
  using unat_plus_one_mod [OF assms] by (simp add: TX_BUF_SIZE_def)

lemma ring_len_less: "ring_len r < TX_BUF_SIZE"
  by (simp add: ring_len_def ring_dist_less TX_BUF_SIZE_def)

lemma next_is_tail_iff:
  assumes "ring_valid r"
  shows "(ring_head r + 1) mod of_nat TX_BUF_SIZE = ring_tail r \<longleftrightarrow> ring_len r = TX_BUF_SIZE - 1"
  using assms
  by (simp add: ring_valid_def ring_len_def ring_dist_full_iff unat_next word_unat_eq_iff)

lemma head_is_tail_iff: "ring_valid r \<Longrightarrow> ring_head r = ring_tail r \<longleftrightarrow> ring_len r = 0"
  by (simp add: ring_valid_def ring_len_def ring_dist_0_iff word_unat_eq_iff)

section \<open>The operations on the abstract queue\<close>

lemma tx_ring_put_room:
  assumes v: "ring_valid r" and room: "ring_len r < TX_BUF_SIZE - 1"
  shows "\<exists>r'. tx_ring_put r b = (True, r') \<and> ring_valid r' \<and> ring_bytes r' = ring_bytes r @ [b]"
proof -
  let ?h = "unat (ring_head r)" and ?t = "unat (ring_tail r)"
  define r' where "r' = r\<lparr>ring_buf := (ring_buf r)[?h := b],
    ring_head := (ring_head r + 1) mod of_nat TX_BUF_SIZE\<rparr>"
  have h': "unat (ring_head r') = Suc ?h mod TX_BUF_SIZE"
    using v by (simp add: r'_def unat_next ring_valid_def)
  have v': "ring_valid r'"
    using v h' by (simp add: ring_valid_def r'_def TX_BUF_SIZE_def)
  have len: "ring_len r' = Suc (ring_len r)"
    using v room h' by (simp add: ring_len_def ring_valid_def ring_dist_Suc_head r'_def)
  have "ring_bytes r' = ring_bytes r @ [b]"
    using v unfolding ring_bytes_def len
    by (auto simp: r'_def ring_valid_def ring_len_def ring_dist_slot ring_dist_other_slot)
  moreover have "tx_ring_put r b = (True, r')"
    using room next_is_tail_iff [OF v] by (simp add: tx_ring_put_def r'_def Let_def)
  ultimately show ?thesis using v' by blast
qed

lemma tx_ring_put_full:
  "ring_valid r \<Longrightarrow> ring_len r = TX_BUF_SIZE - 1 \<Longrightarrow> tx_ring_put r b = (False, r)"
  by (simp add: tx_ring_put_def next_is_tail_iff)

lemma tx_ring_get_empty: "ring_valid r \<Longrightarrow> ring_len r = 0 \<Longrightarrow> tx_ring_get r = (None, r)"
  by (simp add: tx_ring_get_def head_is_tail_iff)

lemma tx_ring_get_cons:
  assumes v: "ring_valid r" and ne: "0 < ring_len r"
  shows "\<exists>r'. tx_ring_get r = (Some (hd (ring_bytes r)), r') \<and> ring_valid r' \<and>
    ring_bytes r' = tl (ring_bytes r)"
proof -
  let ?h = "unat (ring_head r)" and ?t = "unat (ring_tail r)"
  define r' where "r' = r\<lparr>ring_tail := (ring_tail r + 1) mod of_nat TX_BUF_SIZE\<rparr>"
  have t': "unat (ring_tail r') = Suc ?t mod TX_BUF_SIZE"
    using v by (simp add: r'_def unat_next ring_valid_def)
  have v': "ring_valid r'"
    using v t' by (simp add: ring_valid_def r'_def TX_BUF_SIZE_def)
  have "?h \<noteq> ?t"
    using v ne by (metis head_is_tail_iff less_irrefl word_unat_eq_iff)
  then have len: "ring_len r = Suc (ring_len r')"
    using v t' by (simp add: ring_len_def ring_valid_def ring_dist_Suc_tail [of ?h _ ?t] r'_def)
  have "ring_bytes r = ring_buf r ! ?t # ring_bytes r'"
    using v t' unfolding ring_bytes_def len upt_Suc_map
    by (simp add: ring_valid_def mod_add_left_eq r'_def)
  moreover have "tx_ring_get r = (Some (ring_buf r ! ?t), r')"
    using ne head_is_tail_iff [OF v] by (simp add: tx_ring_get_def r'_def)
  ultimately show ?thesis using v' by simp
qed

lemma ring_empty_valid: "ring_valid ring_empty \<and> ring_bytes ring_empty = []"
  by (simp add: ring_empty_def tx_ring_init_def ring_valid_def ring_bytes_def ring_len_def
      ring_dist_def TX_BUF_SIZE_def)

lemma tx_ring_count_ring_len:
  assumes "ring_valid r"
  shows "unat (tx_ring_count r) = length (ring_bytes r)"
proof -
  have "unat (ring_head r + of_nat TX_BUF_SIZE) = unat (ring_head r) + TX_BUF_SIZE"
    using assms by (simp add: ring_valid_def TX_BUF_SIZE_def unat_word_ariths)
  then have "unat (ring_head r + of_nat TX_BUF_SIZE - ring_tail r) =
      unat (ring_head r) + TX_BUF_SIZE - unat (ring_tail r)"
    using assms by (subst unat_sub) (simp_all add: ring_valid_def word_le_nat_alt)
  then show ?thesis
    by (simp add: tx_ring_count_def ring_len_def ring_dist_def unat_mod TX_BUF_SIZE_def)
qed

interpretation ring: counted_fifo tx_ring_put tx_ring_get ring_bytes ring_valid "TX_BUF_SIZE - 1"
  ring_len ring_empty
proof unfold_locales
  fix r b
  assume v: "ring_valid r"
  show "length (ring_bytes r) \<le> TX_BUF_SIZE - 1"
    using ring_len_less [of r] by simp
  show "\<exists>r'. tx_ring_put r b = (True, r') \<and> ring_valid r' \<and> ring_bytes r' = ring_bytes r @ [b]"
    if "length (ring_bytes r) < TX_BUF_SIZE - 1"
    using tx_ring_put_room [OF v] that by simp
  show "tx_ring_put r b = (False, r)" if "length (ring_bytes r) = TX_BUF_SIZE - 1"
    using tx_ring_put_full [OF v] that by simp
  show "tx_ring_get r = (None, r)" if "ring_bytes r = []"
    using tx_ring_get_empty [OF v] that by (metis length_ring_bytes list.size(3))
  show "\<exists>r'. tx_ring_get r = (Some x, r') \<and> ring_valid r' \<and> ring_bytes r' = xs"
    if "ring_bytes r = x # xs" for x xs
  proof -
    have "0 < ring_len r"
      using that by (metis length_greater_0_conv length_ring_bytes list.discI)
    from tx_ring_get_cons [OF v this] that show ?thesis by simp
  qed
  show "ring_len r = length (ring_bytes r)" by simp
qed (use ring_empty_valid in \<open>simp_all add: TX_BUF_SIZE_def\<close>)

section \<open>Properties\<close>

text \<open>
  Property C7: the ring buffer is first in, first out under every interleaving of puts and gets: what was
  in the ring followed by the accepted bytes is what was obtained followed by what is still in the
  ring; the ring stays well-formed and \<^verbatim>\<open>tx_ring_count\<close> is the number of bytes in it, at most 511.
\<close>

theorem tx_ring_fifo:
  assumes "ring_valid r" and "fifo_run tx_ring_put tx_ring_get r ops = (acc, got, r')"
  shows "ring_valid r' \<and> ring_bytes r @ acc = got @ ring_bytes r' \<and>
    unat (tx_ring_count r') = length (ring_bytes r') \<and> length (ring_bytes r') \<le> 511"
  using ring.fifo_order [OF assms] tx_ring_count_ring_len [of r'] ring.bounded [of r']
  by (simp add: TX_BUF_SIZE_def)

theorem tx_ring_fifo_witness:
  "\<exists>acc got r'. fifo_run tx_ring_put tx_ring_get ring_empty [Put 7, Put 8, Get] = (acc, got, r') \<and>
     acc = got @ ring_bytes r'"
proof -
  obtain acc got r' where "fifo_run tx_ring_put tx_ring_get ring_empty [Put 7, Put 8, Get] = (acc, got, r')"
    by (metis surj_pair)
  with tx_ring_fifo [OF conjunct1 [OF ring_empty_valid] this] ring_empty_valid show ?thesis by auto
qed

end
