(* ===== verification/Bitbang_Uart.thy ===== *)
theory Bitbang_Uart
  imports Byte_Fifo
begin

text \<open>
  The bit-bang UART of \<^verbatim>\<open>openwrt/kernel/soft_uart/bitbang/uart.c\<close>: a transmit timer and a receive
  timer that shift one character at a time out of and into a kfifo, the interrupt handler that
  starts reception, and the entry points that \<^verbatim>\<open>bitbang-main.c\<close> calls. Characters are 8 data bits,
  even parity and two stop bits (one is checked on reception).

  External code is a parameter: the kfifo functions (\<open>K\<close>), the level of a GPIO line (\<open>gpio\<close>), the
  outcome of a wait, whether a timer is active, and the kernel's time conversions. What a handler
  does to the outside world is the list of actions (\<open>kact\<close>) it returns.
\<close>

section \<open>State\<close>

record bitbang_chr =
  chr_idx :: int
  chr_parity_bit :: u8
  chr_data :: u8

record bitbang_stats =
  tx_counter :: u32
  rx_counter :: u32
  rx_errs_start :: u32
  rx_errs_stop :: u32
  rx_errs_parity :: u32

text \<open>The wait queues, the lock and the timers are kernel objects: waking, starting and forwarding
  are actions. The statistics are reached through a pointer in the source and are part of the
  record here.\<close>

record 'f bitbang_uart =
  ub_period :: int
  ub_half_period :: int
  ub_irq :: int
  ub_tx_fifo :: 'f
  ub_rx_fifo :: 'f
  ub_tx_chr :: bitbang_chr
  ub_rx_chr :: bitbang_chr
  ub_tx_gpio :: int
  ub_rx_gpio :: int
  ub_open_count :: int
  ub_stats :: bitbang_stats

section \<open>Parity\<close>

definition parity_even8 :: "u8 \<Rightarrow> u8" where
  "parity_even8 x0 =
     (let x1 = x0 XOR drop_bit 4 x0;
          x2 = x1 XOR drop_bit 2 x1;
          x3 = x2 XOR drop_bit 1 x2
      in x3 AND 1)"

section \<open>Reading and writing\<close>

text \<open>
  The blocking loops \<^verbatim>\<open>while (empty) { ret = wait_event_interruptible(...); if (ret) return ret; }\<close>.
  Each element of \<open>ws\<close> is the outcome of one wait: its return code and the device as the waiter
  finds it. \<open>None\<close> means that the caller is still blocked after all the given waits.
\<close>

fun rx_wait :: "'f kfifo_api \<Rightarrow> 'f bitbang_uart \<Rightarrow> (int \<times> 'f bitbang_uart) list \<Rightarrow>
    (int \<times> 'f bitbang_uart) option" where
  "rx_wait K d ws =
     (if kf_is_empty K (ub_rx_fifo d)
      then (case ws of
              [] \<Rightarrow> None
            | (ret, d') # ws' \<Rightarrow> if ret \<noteq> 0 then Some (ret, d') else rx_wait K d' ws')
      else Some (0, d))"

fun tx_wait :: "'f kfifo_api \<Rightarrow> 'f bitbang_uart \<Rightarrow> (int \<times> 'f bitbang_uart) list \<Rightarrow>
    (int \<times> 'f bitbang_uart) option" where
  "tx_wait K d ws =
     (if kf_is_full K (ub_tx_fifo d)
      then (case ws of
              [] \<Rightarrow> None
            | (ret, d') # ws' \<Rightarrow> if ret \<noteq> 0 then Some (ret, d') else tx_wait K d' ws')
      else Some (0, d))"

declare rx_wait.simps [simp del] tx_wait.simps [simp del]

text \<open>\<^verbatim>\<open>bitbang_rx\<close>: the return value, the bytes stored in the user buffer (which has room for \<open>w\<close>
  bytes), and the device.\<close>

definition bitbang_rx :: "'f kfifo_api \<Rightarrow> 'f bitbang_uart \<Rightarrow> (int \<times> 'f bitbang_uart) list \<Rightarrow>
    nat \<Rightarrow> nat \<Rightarrow> (int \<times> u8 list \<times> 'f bitbang_uart) option" where
  "bitbang_rx K d ws count w =
     (case rx_wait K d ws of
        None \<Rightarrow> None
      | Some (ret, d) \<Rightarrow>
          if ret \<noteq> 0 then Some (ret, [], d)
          else (case kf_to_user K (ub_rx_fifo d) count w of
                  (f, ret, out) \<Rightarrow>
                    Some (if ret \<noteq> 0 then ret else int (length out), out, d\<lparr>ub_rx_fifo := f\<rparr>)))"

text \<open>\<^verbatim>\<open>bitbang_tx\<close>: \<open>from\<close> is the readable part of the user buffer, \<open>active\<close> what
  \<^verbatim>\<open>hrtimer_active(&d->tx_timer)\<close> answers after the copy. The copy under the lock and the start of
  the timer are separate steps of a caller, so they have names of their own.\<close>

definition tx_copy :: "'f kfifo_api \<Rightarrow> 'f bitbang_uart \<Rightarrow> u8 list \<Rightarrow> nat \<Rightarrow>
    int \<times> nat \<times> 'f bitbang_uart" where
  "tx_copy K d from count =
     (case kf_from_user K (ub_tx_fifo d) from count of
        (f, ret, copied) \<Rightarrow> (ret, copied, d\<lparr>ub_tx_fifo := f\<rparr>))"

definition tx_kick :: "'f bitbang_uart \<Rightarrow> nat \<Rightarrow> bool \<Rightarrow> kact list" where
  "tx_kick d copied active =
     (if copied \<noteq> 0 \<and> \<not> active then [Start_timer ''tx'' (ub_period d)] else [])"

definition bitbang_tx :: "'f kfifo_api \<Rightarrow> 'f bitbang_uart \<Rightarrow> (int \<times> 'f bitbang_uart) list \<Rightarrow>
    u8 list \<Rightarrow> nat \<Rightarrow> bool \<Rightarrow> (int \<times> 'f bitbang_uart \<times> kact list) option" where
  "bitbang_tx K d ws from count active =
     (case tx_wait K d ws of
        None \<Rightarrow> None
      | Some (ret, d) \<Rightarrow>
          if ret \<noteq> 0 then Some (ret, d, [])
          else (case tx_copy K d from count of
                  (ret, copied, d) \<Rightarrow>
                    Some (if ret \<noteq> 0 then ret else int copied, d, tx_kick d copied active)))"

section \<open>Open and close\<close>

text \<open>\<^verbatim>\<open>atomic_fetch_add_unless(v, 1, INT_MAX)\<close> returns the old value.\<close>

definition bitbang_uart_open :: "'f kfifo_api \<Rightarrow> 'f bitbang_uart \<Rightarrow> int \<times> 'f bitbang_uart \<times> kact list"
  where
  "bitbang_uart_open K d =
     (let opened = ub_open_count d;
          d1 = (if opened \<noteq> INT_MAX then d\<lparr>ub_open_count := opened + 1\<rparr> else d)
      in if opened = 0
         then (0, d1\<lparr>ub_rx_fifo := kf_reset K (ub_rx_fifo d1),
                     ub_tx_chr := (ub_tx_chr d1)\<lparr>chr_idx := -1\<rparr>,
                     ub_rx_chr := (ub_rx_chr d1)\<lparr>chr_idx := -1\<rparr>\<rparr>,
               [Irq_on (ub_irq d1)])
         else (0, d1, []))"

definition bitbang_uart_close :: "'f kfifo_api \<Rightarrow> 'f bitbang_uart \<Rightarrow> 'f bitbang_uart \<times> kact list" where
  "bitbang_uart_close K d =
     (let d1 = d\<lparr>ub_open_count := ub_open_count d - 1\<rparr>
      in if ub_open_count d1 = 0
         then (d1\<lparr>ub_rx_fifo := kf_reset K (ub_rx_fifo d1)\<rparr>, [Irq_off (ub_irq d1)])
         else (d1, []))"

definition bitbang_uart_tx_buffer_full :: "'f kfifo_api \<Rightarrow> 'f bitbang_uart \<Rightarrow> bool" where
  "bitbang_uart_tx_buffer_full K d \<longleftrightarrow> kf_is_full K (ub_tx_fifo d)"

definition bitbang_uart_rx_buffer_empty :: "'f kfifo_api \<Rightarrow> 'f bitbang_uart \<Rightarrow> bool" where
  "bitbang_uart_rx_buffer_empty K d \<longleftrightarrow> kf_is_empty K (ub_rx_fifo d)"

section \<open>Interrupt handler and timer callbacks\<close>

text \<open>\<open>dev\<close> is the \<^verbatim>\<open>dev_id\<close> pointer. The handler always answers \<^verbatim>\<open>IRQ_HANDLED\<close>.\<close>

definition rx_irq_handler :: "(int \<Rightarrow> int) \<Rightarrow> 'f bitbang_uart option \<Rightarrow> kact list" where
  "rx_irq_handler gpio dev =
     (case dev of
        None \<Rightarrow> []
      | Some d \<Rightarrow>
          if ub_rx_gpio d = 0 then []
          else if gpio (ub_rx_gpio d) \<noteq> 0 then []
          else if chr_idx (ub_rx_chr d) = -1 then [Start_timer ''rx'' (ub_half_period d)]
          else [])"

definition tx_timer_cb :: "'f kfifo_api \<Rightarrow> 'f bitbang_uart \<Rightarrow>
    hrtimer_restart \<times> 'f bitbang_uart \<times> kact list" where
  "tx_timer_cb K d =
     (let idx = chr_idx (ub_tx_chr d);
          txbit = (\<lambda>v. Gpio_set_value (ub_tx_gpio d) v);
          (ret, idx, d, acts) =
            (if idx > 10 \<or> idx < -1 then (HRTIMER_NORESTART, -1, d, [])
             else if idx = -1 then
               (case kf_out K (ub_tx_fifo d) 1 of
                  (f, [b]) \<Rightarrow>
                    (HRTIMER_RESTART, idx + 1,
                     d\<lparr>ub_tx_fifo := f,
                       ub_tx_chr := (ub_tx_chr d)\<lparr>chr_data := b, chr_parity_bit := parity_even8 b\<rparr>\<rparr>,
                     [txbit 0, Wake_up ''tx_wq''])
                | (f, _) \<Rightarrow> (HRTIMER_NORESTART, idx, d\<lparr>ub_tx_fifo := f\<rparr>, []))
             else if idx = 8 then
               (HRTIMER_RESTART, idx + 1, d, [txbit (uint (chr_parity_bit (ub_tx_chr d)))])
             else if idx = 9 then (HRTIMER_RESTART, idx + 1, d, [txbit 1])
             else if idx = 10 then
               (HRTIMER_RESTART, -1,
                d\<lparr>ub_stats := (ub_stats d)\<lparr>tx_counter := tx_counter (ub_stats d) + 1\<rparr>\<rparr>, [txbit 1])
             else (HRTIMER_RESTART, idx + 1, d, [txbit (bit_level (chr_data (ub_tx_chr d)) (nat idx))]));
          d = d\<lparr>ub_tx_chr := (ub_tx_chr d)\<lparr>chr_idx := idx\<rparr>\<rparr>
      in (ret, d,
          if ret = HRTIMER_RESTART then acts @ [Forward_timer ''tx'' (ub_period d)] else acts))"

text \<open>\<^verbatim>\<open>INSERT_BIT(byte, bit)\<close>.\<close>

definition INSERT_BIT :: "u8 \<Rightarrow> int \<Rightarrow> u8" where
  "INSERT_BIT byte v = drop_bit 1 byte OR push_bit 7 (of_int (v AND 1))"

definition rx_timer_cb :: "'f kfifo_api \<Rightarrow> (int \<Rightarrow> int) \<Rightarrow> 'f bitbang_uart \<Rightarrow>
    hrtimer_restart \<times> 'f bitbang_uart \<times> kact list" where
  "rx_timer_cb K gpio d =
     (let idx = chr_idx (ub_rx_chr d);
          v = gpio (ub_rx_gpio d);
          c = ub_rx_chr d;
          s = ub_stats d;
          (ret, idx, d, acts) =
            (if idx > 9 \<or> idx < -1 then (HRTIMER_NORESTART, -1, d, [])
             else if idx = -1 then
               (if v \<noteq> 0
                then (HRTIMER_NORESTART, idx, d\<lparr>ub_stats := s\<lparr>rx_errs_start := rx_errs_start s + 1\<rparr>\<rparr>, [])
                else (HRTIMER_RESTART, idx + 1, d, []))
             else if idx = 8 then
               (HRTIMER_RESTART, idx + 1, d\<lparr>ub_rx_chr := c\<lparr>chr_parity_bit := of_int (1 AND v)\<rparr>\<rparr>, [])
             else if idx = 9 then
               (let i = parity_even8 (chr_data c)
                in if v \<noteq> 0 \<and> i XOR chr_parity_bit c = 0
                   then (HRTIMER_NORESTART, -1,
                         d\<lparr>ub_rx_fifo := overwrite_in K (ub_rx_fifo d) (chr_data c),
                           ub_stats := s\<lparr>rx_counter := rx_counter s + 1\<rparr>\<rparr>,
                         [Wake_up ''rx_wq''])
                   else
                     (let s1 = (if i XOR chr_parity_bit c \<noteq> 0
                                then s\<lparr>rx_errs_parity := rx_errs_parity s + 1\<rparr> else s);
                          s2 = (if v = 0 then s1\<lparr>rx_errs_stop := rx_errs_stop s1 + 1\<rparr> else s1)
                      in (HRTIMER_NORESTART, -1, d\<lparr>ub_stats := s2\<rparr>, [])))
             else (HRTIMER_RESTART, idx + 1,
                   d\<lparr>ub_rx_chr := c\<lparr>chr_data := INSERT_BIT (chr_data c) v\<rparr>\<rparr>, []));
          d = d\<lparr>ub_rx_chr := (ub_rx_chr d)\<lparr>chr_idx := idx\<rparr>\<rparr>
      in (ret, d,
          if ret = HRTIMER_RESTART then acts @ [Forward_timer ''rx'' (ub_period d)] else acts))"

section \<open>Parity is the parity of the number of one bits\<close>

lemma parity_even8_bit:
  "bit (parity_even8 x) 0 \<longleftrightarrow>
     (bit x 0 \<noteq> bit x 1) \<noteq> ((bit x 2 \<noteq> bit x 3) \<noteq> ((bit x 4 \<noteq> bit x 5) \<noteq> (bit x 6 \<noteq> bit x 7)))"
  by (auto simp: parity_even8_def Let_def bit_simps numeral_eq_Suc)

lemma parity_even8_of_bool: "parity_even8 x = of_bool (bit (parity_even8 x) 0)"
  by (simp add: parity_even8_def Let_def and_one_eq mod_2_eq_odd bit_0)

lemma odd_popcount:
  "odd (popcount x) \<longleftrightarrow>
     (bit x 0 \<noteq> bit x 1) \<noteq> ((bit x 2 \<noteq> bit x 3) \<noteq> ((bit x 4 \<noteq> bit x 5) \<noteq> (bit x 6 \<noteq> bit x 7)))"
  by (simp add: popcount_def upt_0_8)

lemma parity_even8_popcount: "parity_even8 x = of_bool (odd (popcount x))"
  by (subst parity_even8_of_bool) (simp only: parity_even8_bit odd_popcount)

section \<open>Frames\<close>

text \<open>The levels of one character on the line, one per bit period.\<close>

definition frame :: "u8 \<Rightarrow> int list" where
  "frame b = 0 # data_levels b @ [uint (parity_even8 b), 1, 1]"

text \<open>The byte that eight samples assemble.\<close>

definition assemble :: "u8 \<Rightarrow> int list \<Rightarrow> u8" where
  "assemble x vs = fold (\<lambda>v x. INSERT_BIT x v) vs x"

lemma bit_INSERT_BIT: "bit (INSERT_BIT x v) i \<longleftrightarrow> (if i = 7 then odd v else bit x (Suc i))"
proof -
  have "of_int (v AND 1) = (of_bool (odd v) :: u8)"
    by (simp add: and_one_eq mod_2_eq_odd)
  moreover have "\<not> bit x (Suc 7)"
    by (simp add: bit_word.rep_eq)
  ultimately show ?thesis
    by (auto simp: INSERT_BIT_def bit_simps)
qed

lemma odd_bit_level [simp]: "odd (bit_level b i) \<longleftrightarrow> bit b i"
  by (simp add: bit_level_of_bool)

lemma assemble_data_levels: "assemble x (data_levels b) = b"
  by (simp add: byte_eq_iff assemble_def data_levels_def upt_0_8 bit_INSERT_BIT numeral_eq_Suc)

section \<open>Transmission\<close>

text \<open>The transmit timer as the kernel runs it: the callback is called again as long as it asks to be
  restarted. \<open>tx_run K n d\<close> makes at most \<open>n\<close> calls; the result is what appeared on the line, the
  device, and whether the timer is still armed.\<close>

fun tx_run :: "'f kfifo_api \<Rightarrow> nat \<Rightarrow> 'f bitbang_uart \<Rightarrow> int list \<times> 'f bitbang_uart \<times> bool" where
  "tx_run K 0 d = ([], d, True)"
| "tx_run K (Suc n) d =
     (case tx_timer_cb K d of
        (HRTIMER_NORESTART, d', acts) \<Rightarrow> (line_levels (ub_tx_gpio d) acts, d', False)
      | (HRTIMER_RESTART, d', acts) \<Rightarrow>
          (case tx_run K n d' of
             (ls, d'', r) \<Rightarrow> (line_levels (ub_tx_gpio d) acts @ ls, d'', r)))"

text \<open>The device after one character: the byte is gone from the fifo and counted.\<close>

definition tx_sent :: "'f bitbang_uart \<Rightarrow> u8 \<Rightarrow> 'f \<Rightarrow> 'f bitbang_uart" where
  "tx_sent d b f = d\<lparr>ub_tx_fifo := f,
     ub_tx_chr := \<lparr>chr_idx = -1, chr_parity_bit = parity_even8 b, chr_data = b\<rparr>,
     ub_stats := (ub_stats d)\<lparr>tx_counter := tx_counter (ub_stats d) + 1\<rparr>\<rparr>"

lemma tx_cb_start:
  assumes "chr_idx (ub_tx_chr d) = -1" and "kf_out K (ub_tx_fifo d) 1 = (f, [b])"
  shows "tx_timer_cb K d = (HRTIMER_RESTART,
    d\<lparr>ub_tx_fifo := f, ub_tx_chr := \<lparr>chr_idx = 0, chr_parity_bit = parity_even8 b, chr_data = b\<rparr>\<rparr>,
    [Gpio_set_value (ub_tx_gpio d) 0, Wake_up ''tx_wq'', Forward_timer ''tx'' (ub_period d)])"
  using assms by (cases d; cases "ub_tx_chr d") (simp add: tx_timer_cb_def)

lemma tx_cb_empty:
  assumes "chr_idx (ub_tx_chr d) = -1" and "kf_out K (ub_tx_fifo d) 1 = (f, [])"
  shows "tx_timer_cb K d = (HRTIMER_NORESTART, d\<lparr>ub_tx_fifo := f\<rparr>, [])"
  using assms by (cases d; cases "ub_tx_chr d") (simp add: tx_timer_cb_def)

text \<open>The remaining positions of a character, starting with bit \<open>i\<close>.\<close>

definition tx_rest :: "bitbang_chr \<Rightarrow> nat \<Rightarrow> int list" where
  "tx_rest c i = map (bit_level (chr_data c)) [i..<8] @ [uint (chr_parity_bit c), 1, 1]"

lemma tx_cb_data:
  assumes "chr_idx (ub_tx_chr d) = int i" and "i < 8"
  shows "tx_timer_cb K d = (HRTIMER_RESTART,
    d\<lparr>ub_tx_chr := (ub_tx_chr d)\<lparr>chr_idx := int i + 1\<rparr>\<rparr>,
    [Gpio_set_value (ub_tx_gpio d) (bit_level (chr_data (ub_tx_chr d)) i),
     Forward_timer ''tx'' (ub_period d)])"
  using assms by (simp add: tx_timer_cb_def Let_def)

lemma tx_cb_tail:
  "chr_idx (ub_tx_chr d) = 8 \<Longrightarrow> tx_timer_cb K d = (HRTIMER_RESTART,
     d\<lparr>ub_tx_chr := (ub_tx_chr d)\<lparr>chr_idx := 9\<rparr>\<rparr>,
     [Gpio_set_value (ub_tx_gpio d) (uint (chr_parity_bit (ub_tx_chr d))),
      Forward_timer ''tx'' (ub_period d)])"
  "chr_idx (ub_tx_chr d) = 9 \<Longrightarrow> tx_timer_cb K d = (HRTIMER_RESTART,
     d\<lparr>ub_tx_chr := (ub_tx_chr d)\<lparr>chr_idx := 10\<rparr>\<rparr>,
     [Gpio_set_value (ub_tx_gpio d) 1, Forward_timer ''tx'' (ub_period d)])"
  "chr_idx (ub_tx_chr d) = 10 \<Longrightarrow> tx_timer_cb K d = (HRTIMER_RESTART,
     d\<lparr>ub_tx_chr := (ub_tx_chr d)\<lparr>chr_idx := -1\<rparr>,
       ub_stats := (ub_stats d)\<lparr>tx_counter := tx_counter (ub_stats d) + 1\<rparr>\<rparr>,
     [Gpio_set_value (ub_tx_gpio d) 1, Forward_timer ''tx'' (ub_period d)])"
  by (simp_all add: tx_timer_cb_def Let_def)

lemma tx_run_rest:
  assumes "chr_idx (ub_tx_chr d) = int i" and "i \<le> 8"
  shows "tx_run K (11 - i + n) d =
    (case tx_run K n (d\<lparr>ub_tx_chr := (ub_tx_chr d)\<lparr>chr_idx := -1\<rparr>,
         ub_stats := (ub_stats d)\<lparr>tx_counter := tx_counter (ub_stats d) + 1\<rparr>\<rparr>) of
       (ls, d', r) \<Rightarrow> (tx_rest (ub_tx_chr d) i @ ls, d', r))"
  using assms
proof (induction "8 - i" arbitrary: i d)
  case 0
  then have i: "i = 8" by simp
  with 0 have idx: "chr_idx (ub_tx_chr d) = 8" by simp
  show ?case
    by (simp add: i idx tx_cb_tail tx_rest_def numeral_eq_Suc split: prod.splits)
next
  case (Suc k)
  then have i: "i < 8" by simp
  let ?d = "d\<lparr>ub_tx_chr := (ub_tx_chr d)\<lparr>chr_idx := int i + 1\<rparr>\<rparr>"
  have "tx_run K (11 - Suc i + n) ?d =
    (case tx_run K n (?d\<lparr>ub_tx_chr := (ub_tx_chr ?d)\<lparr>chr_idx := -1\<rparr>,
         ub_stats := (ub_stats ?d)\<lparr>tx_counter := tx_counter (ub_stats ?d) + 1\<rparr>\<rparr>) of
       (ls, d', r) \<Rightarrow> (tx_rest (ub_tx_chr ?d) (Suc i) @ ls, d', r))"
    using Suc.hyps(2) i by (intro Suc.hyps(1)) simp_all
  moreover have "11 - i + n = Suc (11 - Suc i + n)"
    using i by simp
  moreover have "tx_rest (ub_tx_chr d) i =
      bit_level (chr_data (ub_tx_chr d)) i # tx_rest (ub_tx_chr ?d) (Suc i)"
    using i by (simp add: tx_rest_def upt_conv_Cons)
  ultimately show ?case
    using i Suc.prems(1) by (simp add: tx_cb_data split: prod.splits)
qed

lemma tx_rest_frame: "tx_rest \<lparr>chr_idx = i, chr_parity_bit = parity_even8 b, chr_data = b\<rparr> 0 = tl (frame b)"
  by (simp add: tx_rest_def frame_def data_levels_def)

lemma tx_run_char:
  assumes "chr_idx (ub_tx_chr d) = -1" and "kf_out K (ub_tx_fifo d) 1 = (f, [b])"
  shows "tx_run K (12 + n) d =
    (case tx_run K n (tx_sent d b f) of (ls, d', r) \<Rightarrow> (frame b @ ls, d', r))"
proof -
  let ?d = "d\<lparr>ub_tx_fifo := f,
    ub_tx_chr := \<lparr>chr_idx = 0, chr_parity_bit = parity_even8 b, chr_data = b\<rparr>\<rparr>"
  have step: "tx_run K (12 + n) d = (case tx_run K (11 + n) ?d of (ls, d', r) \<Rightarrow> (0 # ls, d', r))"
    by (simp add: tx_cb_start [OF assms] eval_nat_numeral)
  moreover have "tx_run K (11 + n) ?d =
      (case tx_run K n (tx_sent d b f) of (ls, d', r) \<Rightarrow> (tl (frame b) @ ls, d', r))"
    using tx_run_rest [of ?d 0 K n] by (simp add: tx_rest_frame tx_sent_def)
  moreover have "frame b = 0 # tl (frame b)"
    by (simp add: frame_def)
  ultimately show ?thesis
    by (simp only: step) (metis (no_types, lifting) append_Cons case_prod_beta' fst_conv snd_conv)
qed

section \<open>Reception\<close>

text \<open>The receive timer as the kernel runs it, on the levels it samples, one per call: the device, the
  levels not sampled, and whether the timer is still armed.\<close>

fun rx_run :: "'f kfifo_api \<Rightarrow> int list \<Rightarrow> 'f bitbang_uart \<Rightarrow> 'f bitbang_uart \<times> int list \<times> bool" where
  "rx_run K [] d = (d, [], True)"
| "rx_run K (v # vs) d =
     (case rx_timer_cb K (\<lambda>_. v) d of
        (HRTIMER_NORESTART, d', _) \<Rightarrow> (d', vs, False)
      | (HRTIMER_RESTART, d', _) \<Rightarrow> rx_run K vs d')"

text \<open>The device after a complete character \<open>b\<close> with parity bit \<open>pb\<close> and stop level \<open>v\<close>.\<close>

definition rx_done :: "'f kfifo_api \<Rightarrow> 'f bitbang_uart \<Rightarrow> u8 \<Rightarrow> u8 \<Rightarrow> int \<Rightarrow> 'f bitbang_uart" where
  "rx_done K d b pb v =
     (let good = (v \<noteq> 0 \<and> parity_even8 b = pb); s = ub_stats d
      in d\<lparr>ub_rx_chr := \<lparr>chr_idx = -1, chr_parity_bit = pb, chr_data = b\<rparr>,
           ub_rx_fifo := (if good then overwrite_in K (ub_rx_fifo d) b else ub_rx_fifo d),
           ub_stats := s\<lparr>rx_counter := rx_counter s + of_bool good,
                         rx_errs_parity := rx_errs_parity s + of_bool (parity_even8 b \<noteq> pb),
                         rx_errs_stop := rx_errs_stop s + of_bool (v = 0)\<rparr>\<rparr>)"

lemma rx_cb_start:
  "chr_idx (ub_rx_chr d) = -1 \<Longrightarrow> gpio (ub_rx_gpio d) = 0 \<Longrightarrow>
   rx_timer_cb K gpio d = (HRTIMER_RESTART, d\<lparr>ub_rx_chr := (ub_rx_chr d)\<lparr>chr_idx := 0\<rparr>\<rparr>,
     [Forward_timer ''rx'' (ub_period d)])"
  by (simp add: rx_timer_cb_def Let_def)

lemma rx_cb_false_start:
  assumes "chr_idx (ub_rx_chr d) = -1" and "gpio (ub_rx_gpio d) \<noteq> 0"
  shows "rx_timer_cb K gpio d = (HRTIMER_NORESTART,
     d\<lparr>ub_stats := (ub_stats d)\<lparr>rx_errs_start := rx_errs_start (ub_stats d) + 1\<rparr>\<rparr>, [])"
  using assms by (cases d; cases "ub_rx_chr d") (simp add: rx_timer_cb_def Let_def)

lemma rx_cb_data:
  "chr_idx (ub_rx_chr d) = int i \<Longrightarrow> i < 8 \<Longrightarrow>
   rx_timer_cb K gpio d = (HRTIMER_RESTART,
     d\<lparr>ub_rx_chr := (ub_rx_chr d)\<lparr>chr_idx := int i + 1,
         chr_data := INSERT_BIT (chr_data (ub_rx_chr d)) (gpio (ub_rx_gpio d))\<rparr>\<rparr>,
     [Forward_timer ''rx'' (ub_period d)])"
  by (simp add: rx_timer_cb_def Let_def)

lemma rx_cb_parity:
  "chr_idx (ub_rx_chr d) = 8 \<Longrightarrow>
   rx_timer_cb K gpio d = (HRTIMER_RESTART,
     d\<lparr>ub_rx_chr := (ub_rx_chr d)\<lparr>chr_idx := 9, chr_parity_bit := of_int (1 AND gpio (ub_rx_gpio d))\<rparr>\<rparr>,
     [Forward_timer ''rx'' (ub_period d)])"
  by (simp add: rx_timer_cb_def Let_def)

lemma xor_eq_0_word: "a XOR b = 0 \<longleftrightarrow> a = (b :: u8)"
  by (auto simp: bit_eq_iff bit_simps)

lemma rx_cb_stop:
  assumes "chr_idx (ub_rx_chr d) = 9"
  shows "\<exists>acts. rx_timer_cb K gpio d = (HRTIMER_NORESTART,
     rx_done K d (chr_data (ub_rx_chr d)) (chr_parity_bit (ub_rx_chr d)) (gpio (ub_rx_gpio d)), acts)"
  using assms
  by (cases d; cases "ub_rx_chr d"; cases "ub_stats d")
     (simp add: rx_timer_cb_def rx_done_def Let_def xor_eq_0_word)

lemma rx_run_data:
  assumes "chr_idx (ub_rx_chr d) = int i" and "i + length vs = 8"
  shows "rx_run K (vs @ ws) d = rx_run K ws (d\<lparr>ub_rx_chr := (ub_rx_chr d)\<lparr>chr_idx := 8,
     chr_data := assemble (chr_data (ub_rx_chr d)) vs\<rparr>\<rparr>)"
  using assms
proof (induction vs arbitrary: d i)
  case Nil
  then show ?case by (cases d; cases "ub_rx_chr d") (simp add: assemble_def)
next
  case (Cons v vs)
  let ?d = "d\<lparr>ub_rx_chr := (ub_rx_chr d)\<lparr>chr_idx := int i + 1,
    chr_data := INSERT_BIT (chr_data (ub_rx_chr d)) v\<rparr>\<rparr>"
  have "rx_run K ((v # vs) @ ws) d = rx_run K (vs @ ws) ?d"
    using Cons.prems by (simp add: rx_cb_data)
  also have "\<dots> = rx_run K ws (?d\<lparr>ub_rx_chr := (ub_rx_chr ?d)\<lparr>chr_idx := 8,
      chr_data := assemble (chr_data (ub_rx_chr ?d)) vs\<rparr>\<rparr>)"
    using Cons.prems by (intro Cons.IH [of _ "Suc i"]) simp_all
  finally show ?case
    by (simp add: assemble_def)
qed

text \<open>Ten samples after the start bit decide a character, whatever they are.\<close>

lemma rx_run_frame:
  assumes "chr_idx (ub_rx_chr d) = -1" and "length vs = 8"
  shows "rx_run K (0 # vs @ p # v # rest) d =
    (rx_done K d (assemble (chr_data (ub_rx_chr d)) vs) (of_int (1 AND p)) v, rest, False)"
proof -
  let ?d = "d\<lparr>ub_rx_chr := (ub_rx_chr d)\<lparr>chr_idx := 8,
    chr_data := assemble (chr_data (ub_rx_chr d)) vs\<rparr>\<rparr>"
  let ?e = "?d\<lparr>ub_rx_chr := (ub_rx_chr ?d)\<lparr>chr_idx := 9, chr_parity_bit := of_int (1 AND p)\<rparr>\<rparr>"
  have "rx_run K (0 # vs @ p # v # rest) d = rx_run K (p # v # rest) ?d"
    using assms rx_run_data [of "d\<lparr>ub_rx_chr := (ub_rx_chr d)\<lparr>chr_idx := 0\<rparr>\<rparr>" 0 vs K "p # v # rest"]
    by (simp add: rx_cb_start)
  also have "\<dots> = rx_run K (v # rest) ?e"
    by (simp add: rx_cb_parity)
  also have "\<dots> = (rx_done K ?e (chr_data (ub_rx_chr ?e)) (chr_parity_bit (ub_rx_chr ?e)) v, rest, False)"
    using rx_cb_stop [of ?e K "\<lambda>_. v"] by auto
  finally show ?thesis
    by (simp add: rx_done_def Let_def)
qed

lemma of_int_parity_level: "of_int (1 AND uint (parity_even8 b)) = parity_even8 b"
  by (subst (1 2) parity_even8_of_bool) simp

text \<open>A frame as the transmitter sends it is accepted; the receiver leaves its second stop bit.\<close>

lemma rx_run_good_frame:
  assumes "chr_idx (ub_rx_chr d) = -1"
  shows "rx_run K (frame b @ rest) d = (rx_done K d b (parity_even8 b) 1, 1 # rest, False)"
  using rx_run_frame [of d "data_levels b" K "uint (parity_even8 b)" 1 "1 # rest"] assms
  by (simp add: frame_def assemble_data_levels of_int_parity_level)

section \<open>One wrong level\<close>

lemma bit_assemble:
  assumes "length vs = 8" and "i < 8"
  shows "bit (assemble x vs) i \<longleftrightarrow> odd (vs ! i)"
proof -
  from assms(1) obtain a0 a1 a2 a3 a4 a5 a6 a7 where "vs = [a0, a1, a2, a3, a4, a5, a6, a7]"
    by (auto simp: numeral_eq_Suc length_Suc_conv)
  with assms(2) [unfolded less_8_cases] show ?thesis
    by (auto simp: assemble_def bit_INSERT_BIT numeral_eq_Suc)
qed

lemma parity_flip:
  assumes "i < 8" and "\<And>j. j < 8 \<Longrightarrow> bit x j \<longleftrightarrow> (if j = i then \<not> bit b j else bit b j)"
  shows "parity_even8 x \<noteq> parity_even8 b"
proof -
  have "bit (parity_even8 x) 0 \<noteq> bit (parity_even8 b) 0"
    using assms(1) unfolding parity_even8_bit less_8_cases by (auto simp: assms(2))
  then show ?thesis by auto
qed

text \<open>A frame in which level \<open>k\<close> is inverted.\<close>

definition flipped :: "u8 \<Rightarrow> nat \<Rightarrow> int list" where
  "flipped b k = (frame b)[k := 1 - frame b ! k]"

lemma flipped_data:
  assumes "i < 8"
  shows "flipped b (Suc i) =
    0 # (data_levels b)[i := 1 - bit_level b i] @ [uint (parity_even8 b), 1, 1]"
  using assms by (simp add: flipped_def frame_def data_levels_def list_update_append nth_append)

lemma flipped_tail:
  "flipped b 9 = 0 # data_levels b @ [1 - uint (parity_even8 b), 1, 1]"
  "flipped b 10 = 0 # data_levels b @ [uint (parity_even8 b), 0, 1]"
  by (simp_all add: flipped_def frame_def list_update_append nth_append numeral_eq_Suc)

lemma parity_level_flip: "of_int (1 AND (1 - uint (parity_even8 b))) \<noteq> parity_even8 b"
  by (subst (1 2) parity_even8_of_bool) simp

lemma rx_run_flipped:
  assumes "chr_idx (ub_rx_chr d) = -1" and "1 \<le> k" and "k \<le> 10"
  shows "\<exists>d'. rx_run K (flipped b k @ rest) d = (d', 1 # rest, False) \<and>
    ub_rx_fifo d' = ub_rx_fifo d \<and>
    ub_stats d' = (if k = 10
      then (ub_stats d)\<lparr>rx_errs_stop := rx_errs_stop (ub_stats d) + 1\<rparr>
      else (ub_stats d)\<lparr>rx_errs_parity := rx_errs_parity (ub_stats d) + 1\<rparr>)"
proof -
  consider (data) i where "k = Suc i" "i < 8" | (parity) "k = 9" | (stop) "k = 10"
    using assms(2,3) by (cases k) (auto, linarith)
  then show ?thesis
  proof cases
    case data
    let ?vs = "(data_levels b)[i := 1 - bit_level b i]"
    have "parity_even8 (assemble (chr_data (ub_rx_chr d)) ?vs) \<noteq> parity_even8 b"
    proof (rule parity_flip [OF data(2)])
      fix j :: nat
      assume "j < 8"
      then show "bit (assemble (chr_data (ub_rx_chr d)) ?vs) j \<longleftrightarrow>
          (if j = i then \<not> bit b j else bit b j)"
        by (simp add: bit_assemble nth_list_update data_levels_def)
    qed
    with data show ?thesis
      using rx_run_frame [OF assms(1), of ?vs K "uint (parity_even8 b)" 1 "1 # rest"]
      by (simp add: flipped_data of_int_parity_level rx_done_def Let_def)
  next
    case parity
    then show ?thesis
      using rx_run_frame [OF assms(1), of "data_levels b" K "1 - uint (parity_even8 b)" 1 "1 # rest"]
        parity_level_flip [of b]
      by (simp add: flipped_tail assemble_data_levels rx_done_def Let_def)
  next
    case stop
    then show ?thesis
      using rx_run_frame [OF assms(1), of "data_levels b" K "uint (parity_even8 b)" 0 "1 # rest"]
      by (simp add: flipped_tail assemble_data_levels of_int_parity_level rx_done_def Let_def)
  qed
qed

section \<open>The receiver on a line\<close>

lemma rx_run_shorter: "rx_run K vs d = (d', rest, r) \<Longrightarrow> length rest \<le> length vs - 1"
proof (induction vs arbitrary: d)
  case (Cons v vs)
  then show ?case
    by (fastforce split: prod.splits hrtimer_restart.splits)
qed simp

text \<open>The line level over successive bit periods, as an idle receiver sees it: a falling edge calls
  the interrupt handler, which starts the timer so that the samples fall in the middle of the
  periods; when the timer stops, the receiver is idle again.\<close>

function recv_line :: "'f kfifo_api \<Rightarrow> int list \<Rightarrow> 'f bitbang_uart \<Rightarrow> 'f bitbang_uart" where
  "recv_line K [] d = d"
| "recv_line K (v # vs) d =
     (if rx_irq_handler (\<lambda>_. v) (Some d) = [] then recv_line K vs d
      else (case rx_run K (v # vs) d of (d', rest, _) \<Rightarrow> recv_line K rest d'))"
  by pat_completeness auto

termination
proof (relation "measure (\<lambda>(K, vs, d). length vs)", goal_cases)
  case (3 K v vs d d' y rest r)
  then have "rx_run K (v # vs) d = (d', rest, r)" by simp
  from rx_run_shorter [OF this] show ?case by simp
qed auto

section \<open>Whole transmissions over any kfifo\<close>

context kfifo
begin

lemma tx_drain:
  assumes "valid (ub_tx_fifo d)" and "chr_idx (ub_tx_chr d) = -1" and "contents (ub_tx_fifo d) = bs"
  shows "\<exists>d'. tx_run K (12 * length bs + 1) d = (concat (map frame bs), d', False) \<and>
    valid (ub_tx_fifo d') \<and> contents (ub_tx_fifo d') = [] \<and> chr_idx (ub_tx_chr d') = -1 \<and>
    ub_stats d' = (ub_stats d)\<lparr>tx_counter := tx_counter (ub_stats d) + of_nat (length bs)\<rparr>"
  using assms
proof (induction bs arbitrary: d)
  case Nil
  then show ?case
    by (rule_tac out_one [of "ub_tx_fifo d"]) (auto simp: tx_cb_empty)
next
  case (Cons b bs)
  from Cons.prems obtain f where f: "kf_out K (ub_tx_fifo d) 1 = (f, [b])" "valid f" "contents f = bs"
    by (rule_tac out_one [of "ub_tx_fifo d"]) auto
  let ?d = "tx_sent d b f"
  obtain d' where d': "tx_run K (12 * length bs + 1) ?d = (concat (map frame bs), d', False)"
      "valid (ub_tx_fifo d')" "contents (ub_tx_fifo d') = []" "chr_idx (ub_tx_chr d') = -1"
      "ub_stats d' = (ub_stats ?d)\<lparr>tx_counter := tx_counter (ub_stats ?d) + of_nat (length bs)\<rparr>"
    using Cons.IH [of ?d] f by (auto simp: tx_sent_def)
  have "12 * length (b # bs) + 1 = 12 + (12 * length bs + 1)"
    by simp
  then have "tx_run K (12 * length (b # bs) + 1) d = (concat (map frame (b # bs)), d', False)"
    using tx_run_char [OF Cons.prems(2) f(1), of "12 * length bs + 1"] d'(1) by simp
  moreover have "ub_stats d' =
      (ub_stats d)\<lparr>tx_counter := tx_counter (ub_stats d) + of_nat (length (b # bs))\<rparr>"
    using d'(5) by (simp add: tx_sent_def)
  ultimately show ?case
    using d'(2-4) by blast
qed

lemma recv_line_frames:
  assumes "valid (ub_rx_fifo d)" and "chr_idx (ub_rx_chr d) = -1" and "ub_rx_gpio d \<noteq> 0"
  shows "valid (ub_rx_fifo (recv_line K (concat (map frame bs)) d)) \<and>
    contents (ub_rx_fifo (recv_line K (concat (map frame bs)) d)) =
      lastn size (contents (ub_rx_fifo d) @ bs) \<and>
    chr_idx (ub_rx_chr (recv_line K (concat (map frame bs)) d)) = -1 \<and>
    ub_stats (recv_line K (concat (map frame bs)) d) =
      (ub_stats d)\<lparr>rx_counter := rx_counter (ub_stats d) + of_nat (length bs)\<rparr>"
  using assms
proof (induction bs arbitrary: d)
  case Nil
  then show ?case by (simp add: bounded)
next
  case (Cons b bs)
  let ?d = "rx_done K d b (parity_even8 b) 1"
  let ?ls = "concat (map frame bs)"
  have good: "valid (ub_rx_fifo ?d)" "chr_idx (ub_rx_chr ?d) = -1" "ub_rx_gpio ?d \<noteq> 0"
    "contents (ub_rx_fifo ?d) = lastn size (contents (ub_rx_fifo d) @ [b])"
    "ub_stats ?d = (ub_stats d)\<lparr>rx_counter := rx_counter (ub_stats d) + 1\<rparr>"
    using Cons.prems overwrite_in_spec [of "ub_rx_fifo d" b] by (simp_all add: rx_done_def Let_def)
  have hd: "frame b @ ?ls = 0 # tl (frame b) @ ?ls"
    by (simp add: frame_def)
  have "recv_line K (frame b @ ?ls) d = recv_line K (1 # ?ls) ?d"
    using Cons.prems rx_run_good_frame [of d K b ?ls]
    by (simp add: hd rx_irq_handler_def)
  also have "\<dots> = recv_line K ?ls ?d"
    by (simp add: rx_irq_handler_def)
  finally have "recv_line K (concat (map frame (b # bs))) d = recv_line K ?ls ?d"
    by simp
  then show ?case
    using Cons.IH [OF good(1-3)] good(4,5) by (simp add: lastn_lastn_append)
qed

lemma tx_wait_room: "valid (ub_tx_fifo d) \<Longrightarrow> length (contents (ub_tx_fifo d)) < size \<Longrightarrow>
    tx_wait K d ws = Some (0, d)"
  by (simp add: tx_wait.simps is_full_iff)

lemma rx_wait_data: "valid (ub_rx_fifo d) \<Longrightarrow> contents (ub_rx_fifo d) \<noteq> [] \<Longrightarrow>
    rx_wait K d ws = Some (0, d)"
  by (simp add: rx_wait.simps is_empty_iff)

lemma bitbang_tx_room:
  assumes "valid (ub_tx_fifo d)" and "length (contents (ub_tx_fifo d)) < size" and "n \<le> length bs"
  obtains f where
    "bitbang_tx K d ws bs n active =
       Some (int (min n (size - length (contents (ub_tx_fifo d)))), d\<lparr>ub_tx_fifo := f\<rparr>,
             if 0 < n \<and> \<not> active then [Start_timer ''tx'' (ub_period d)] else [])"
    "valid f"
    "contents f = contents (ub_tx_fifo d) @ take (min n (size - length (contents (ub_tx_fifo d)))) bs"
proof -
  let ?m = "min n (size - length (contents (ub_tx_fifo d)))"
  obtain f where f: "kf_from_user K (ub_tx_fifo d) bs n = (f, 0, ?m)" "valid f"
      "contents f = contents (ub_tx_fifo d) @ take ?m bs"
    using assms(1,3) by (rule from_user_exact)
  have "?m \<noteq> 0 \<longleftrightarrow> 0 < n"
    using assms(2) by simp
  then have "bitbang_tx K d ws bs n active = Some (int ?m, d\<lparr>ub_tx_fifo := f\<rparr>,
      if 0 < n \<and> \<not> active then [Start_timer ''tx'' (ub_period d)] else [])"
    by (simp add: bitbang_tx_def tx_wait_room [OF assms(1,2)] f(1) tx_copy_def tx_kick_def
      del: min_less_iff_conj)
  then show thesis using f(2,3) by (rule that)
qed

lemma bitbang_rx_data:
  assumes "valid (ub_rx_fifo d)" and "contents (ub_rx_fifo d) \<noteq> []" and "n \<le> w"
  obtains f where
    "bitbang_rx K d ws n w =
       Some (int (min n (length (contents (ub_rx_fifo d)))), take n (contents (ub_rx_fifo d)),
             d\<lparr>ub_rx_fifo := f\<rparr>)"
    "valid f" "contents f = drop n (contents (ub_rx_fifo d))"
proof -
  obtain f where f: "kf_to_user K (ub_rx_fifo d) n w = (f, 0, take n (contents (ub_rx_fifo d)))"
      "valid f" "contents f = drop n (contents (ub_rx_fifo d))"
    using assms(1,3) by (rule to_user_exact)
  have "bitbang_rx K d ws n w =
      Some (int (min n (length (contents (ub_rx_fifo d)))), take n (contents (ub_rx_fifo d)),
        d\<lparr>ub_rx_fifo := f\<rparr>)"
    by (simp add: bitbang_rx_def rx_wait_data [OF assms(1,2)] f(1) min.commute)
  then show thesis using f(2,3) by (rule that)
qed

lemma end_to_end:
  assumes w: "valid (ub_tx_fifo w)" "contents (ub_tx_fifo w) = []" "chr_idx (ub_tx_chr w) = -1"
    and r: "valid (ub_rx_fifo r)" "contents (ub_rx_fifo r) = []" "chr_idx (ub_rx_chr r) = -1"
      "ub_rx_gpio r \<noteq> 0"
    and bs: "bs \<noteq> []" "length bs \<le> size"
  shows "\<exists>w1 w2 ls r2.
    bitbang_tx K w [] bs (length bs) False =
      Some (int (length bs), w1, [Start_timer ''tx'' (ub_period w)]) \<and>
    tx_run K (12 * length bs + 1) w1 = (ls, w2, False) \<and>
    bitbang_rx K (recv_line K ls r) [] (length bs) (length bs) = Some (int (length bs), bs, r2) \<and>
    contents (ub_tx_fifo w2) = [] \<and> contents (ub_rx_fifo r2) = []"
proof -
  obtain f where f: "bitbang_tx K w [] bs (length bs) False =
      Some (int (length bs), w\<lparr>ub_tx_fifo := f\<rparr>, [Start_timer ''tx'' (ub_period w)])"
      "valid f" "contents f = bs"
    using bitbang_tx_room [of w "length bs" bs "[]" False] w bs size_pos by auto
  obtain w2 where w2: "tx_run K (12 * length bs + 1) (w\<lparr>ub_tx_fifo := f\<rparr>) =
      (concat (map frame bs), w2, False)" "contents (ub_tx_fifo w2) = []"
    using tx_drain [of "w\<lparr>ub_tx_fifo := f\<rparr>" bs] w(3) f(2,3) by auto
  let ?r = "recv_line K (concat (map frame bs)) r"
  have "valid (ub_rx_fifo ?r)" "contents (ub_rx_fifo ?r) = bs"
    using recv_line_frames [OF r(1,3,4), of bs] r(2) bs(2) by auto
  then obtain g where "bitbang_rx K ?r [] (length bs) (length bs) =
      Some (int (length bs), bs, ?r\<lparr>ub_rx_fifo := g\<rparr>)" "contents g = []"
    using bitbang_rx_data [of ?r "length bs" "length bs" "[]"] bs(1) by auto
  then show ?thesis
    using f(1) w2 by fastforce
qed

end

section \<open>Properties\<close>

text \<open>A device between characters, with the default pins and period of \<^verbatim>\<open>bitbang-main.c\<close> and
  list-based fifos: the starting point of the concrete runs below.\<close>

definition idle_uart :: "u8 list bitbang_uart" where
  "idle_uart = \<lparr>ub_period = 10000000, ub_half_period = 5000000, ub_irq = 40,
     ub_tx_fifo = [], ub_rx_fifo = [],
     ub_tx_chr = \<lparr>chr_idx = -1, chr_parity_bit = 0, chr_data = 0\<rparr>,
     ub_rx_chr = \<lparr>chr_idx = -1, chr_parity_bit = 0, chr_data = 0\<rparr>,
     ub_tx_gpio = 530, ub_rx_gpio = 532, ub_open_count = 1,
     ub_stats = \<lparr>tx_counter = 0, rx_counter = 0, rx_errs_start = 0, rx_errs_stop = 0,
                 rx_errs_parity = 0\<rparr>\<rparr>"

lemma idle_uart_simps [simp]:
  "ub_period idle_uart = 10000000" "ub_half_period idle_uart = 5000000" "ub_irq idle_uart = 40"
  "ub_tx_fifo idle_uart = []" "ub_rx_fifo idle_uart = []"
  "ub_tx_chr idle_uart = \<lparr>chr_idx = -1, chr_parity_bit = 0, chr_data = 0\<rparr>"
  "ub_rx_chr idle_uart = \<lparr>chr_idx = -1, chr_parity_bit = 0, chr_data = 0\<rparr>"
  "ub_tx_gpio idle_uart = 530" "ub_rx_gpio idle_uart = 532" "ub_open_count idle_uart = 1"
  by (simp_all add: idle_uart_def)

text \<open>
  Property C1: end to end. Bytes written to an idle device with an empty transmit fifo, shifted out
  by the transmit timer, sampled from the line by another device of the same kind and read there,
  are the bytes that were written, in order and without error, for every implementation of kfifo
  that keeps the documented contract.
\<close>

theorem bitbang_end_to_end:
  assumes "kfifo K contents valid cap"
    and "valid (ub_tx_fifo w)" and "contents (ub_tx_fifo w) = []" and "chr_idx (ub_tx_chr w) = -1"
    and "valid (ub_rx_fifo r)" and "contents (ub_rx_fifo r) = []" and "chr_idx (ub_rx_chr r) = -1"
    and "ub_rx_gpio r \<noteq> 0" and "bs \<noteq> []" and "length bs \<le> cap"
  shows "\<exists>w1 w2 ls r2.
    bitbang_tx K w [] bs (length bs) False =
      Some (int (length bs), w1, [Start_timer ''tx'' (ub_period w)]) \<and>
    tx_run K (12 * length bs + 1) w1 = (ls, w2, False) \<and>
    bitbang_rx K (recv_line K ls r) [] (length bs) (length bs) = Some (int (length bs), bs, r2) \<and>
    contents (ub_tx_fifo w2) = [] \<and> contents (ub_rx_fifo r2) = []"
  using assms by (rule kfifo.end_to_end)


theorem bitbang_end_to_end_witness:
  "\<exists>w1 w2 ls r2.
    bitbang_tx (list_kfifo 4) idle_uart [] [65, 255, 0] 3 False =
      Some (3, w1, [Start_timer ''tx'' 10000000]) \<and>
    tx_run (list_kfifo 4) 37 w1 = (ls, w2, False) \<and>
    bitbang_rx (list_kfifo 4) (recv_line (list_kfifo 4) ls idle_uart) [] 3 3 =
      Some (3, [65, 255, 0], r2) \<and>
    ub_tx_fifo w2 = [] \<and> ub_rx_fifo r2 = []"
  using bitbang_end_to_end [of "list_kfifo 4" "\<lambda>q. q" "list_valid 4" 4 idle_uart idle_uart
      "[65, 255, 0]"] kfifo_list [of 4]
  by (simp add: list_valid_def numeral_3_eq_3)

text \<open>
  Property C8: transmission. Started between characters with the bytes \<open>bs\<close> in its fifo, the
  transmit timer puts exactly one frame per byte on the line (start bit, data bits from the least
  significant, even parity, two stop bits) and stops by itself after twelve calls per byte and one
  more, with an empty fifo and every byte counted.
\<close>

theorem tx_timer_drains:
  assumes "kfifo K contents valid cap"
    and "valid (ub_tx_fifo d)" and "chr_idx (ub_tx_chr d) = -1" and "contents (ub_tx_fifo d) = bs"
  shows "\<exists>d'. tx_run K (12 * length bs + 1) d = (concat (map frame bs), d', False) \<and>
    valid (ub_tx_fifo d') \<and> contents (ub_tx_fifo d') = [] \<and> chr_idx (ub_tx_chr d') = -1 \<and>
    ub_stats d' = (ub_stats d)\<lparr>tx_counter := tx_counter (ub_stats d) + of_nat (length bs)\<rparr>"
  using assms by (rule kfifo.tx_drain)

theorem tx_timer_drains_witness:
  "\<exists>d'. tx_run (list_kfifo 4) 25 (idle_uart\<lparr>ub_tx_fifo := [1, 128]\<rparr>) =
     ([0, 1, 0, 0, 0, 0, 0, 0, 0, 1, 1, 1, 0, 0, 0, 0, 0, 0, 0, 0, 1, 1, 1, 1], d', False) \<and>
     ub_tx_fifo d' = []"
proof -
  have "frame 1 = [0, 1, 0, 0, 0, 0, 0, 0, 0, 1, 1, 1]" "frame 128 = [0, 0, 0, 0, 0, 0, 0, 0, 1, 1, 1, 1]"
    by (code_simp, code_simp)
  then show ?thesis
    using tx_timer_drains [of "list_kfifo 4" "\<lambda>q. q" "list_valid 4" 4
        "idle_uart\<lparr>ub_tx_fifo := [1, 128]\<rparr>" "[1, 128]"] kfifo_list [of 4]
    by (auto simp: list_valid_def)
qed

text \<open>
  Property C9: reception of any samples. From an idle receiver, a low start bit and any ten further
  samples end the character. The byte assembled from the eight data samples is stored exactly when
  the stop sample is high and the parity sample is the even parity of the byte; otherwise the fifo
  is untouched and exactly the matching error counters go up by one.
\<close>

theorem rx_decision:
  assumes "chr_idx (ub_rx_chr d) = -1" and "length vs = 8"
  shows "\<exists>d' b. rx_run K (0 # vs @ p # v # rest) d = (d', rest, False) \<and>
    (\<forall>i \<in> {..<8}. bit b i \<longleftrightarrow> odd (vs ! i)) \<and>
    (let par = (odd p \<longleftrightarrow> odd (popcount b)); s = ub_stats d in
       ub_rx_fifo d' = (if v \<noteq> 0 \<and> par then overwrite_in K (ub_rx_fifo d) b else ub_rx_fifo d) \<and>
       ub_stats d' = s\<lparr>rx_counter := rx_counter s + of_bool (v \<noteq> 0 \<and> par),
                       rx_errs_parity := rx_errs_parity s + of_bool (\<not> par),
                       rx_errs_stop := rx_errs_stop s + of_bool (v = 0)\<rparr> \<and>
       chr_idx (ub_rx_chr d') = -1)"
proof -
  let ?b = "assemble (chr_data (ub_rx_chr d)) vs"
  have par: "of_int (1 AND p) = parity_even8 ?b \<longleftrightarrow> (odd p \<longleftrightarrow> odd (popcount ?b))"
    by (simp add: parity_even8_popcount and.commute [of 1] and_one_eq mod_2_eq_odd)
  show ?thesis
    using rx_run_frame [OF assms, of K p v rest] bit_assemble [OF assms(2)] par
    by (intro exI [of _ "rx_done K d ?b (of_int (1 AND p)) v"] exI [of _ ?b])
       (auto simp: rx_done_def Let_def)
qed

theorem rx_decision_witness:
  "\<exists>d'. rx_run (list_kfifo 4) [0, 1, 0, 1, 0, 0, 0, 0, 0, 1, 1] idle_uart = (d', [], False) \<and>
    ub_rx_fifo d' = [] \<and> rx_errs_parity (ub_stats d') = 1 \<and> rx_errs_stop (ub_stats d') = 0"
proof -
  obtain d' b where run: "rx_run (list_kfifo 4) [0, 1, 0, 1, 0, 0, 0, 0, 0, 1, 1] idle_uart = (d', [], False)"
    and bits: "\<forall>i \<in> {..<8}. bit b i \<longleftrightarrow> odd ([1, 0, 1, 0, 0, 0, 0, 0 :: int] ! i)"
    and res: "let par = (odd (1 :: int) \<longleftrightarrow> odd (popcount b)); s = ub_stats idle_uart in
       ub_rx_fifo d' = (if (1 :: int) \<noteq> 0 \<and> par then overwrite_in (list_kfifo 4) (ub_rx_fifo idle_uart) b
                        else ub_rx_fifo idle_uart) \<and>
       ub_stats d' = s\<lparr>rx_counter := rx_counter s + of_bool ((1 :: int) \<noteq> 0 \<and> par),
                       rx_errs_parity := rx_errs_parity s + of_bool (\<not> par),
                       rx_errs_stop := rx_errs_stop s + of_bool ((1 :: int) = 0)\<rparr> \<and>
       chr_idx (ub_rx_chr d') = -1"
    using rx_decision [of idle_uart "[1, 0, 1, 0, 0, 0, 0, 0]" "list_kfifo 4" 1 1 "[]"] by auto
  have "popcount b = 2"
    using bits by (simp add: popcount_def upt_0_8 numeral_eq_Suc)
  with run res show ?thesis
    by (auto simp: Let_def idle_uart_def)
qed

text \<open>
  Every single wrong level is detected. If one of the ten levels after the start bit is
  inverted, nothing is stored and exactly one error is counted: a stop error for the stop bit, a
  parity error for a data bit or the parity bit.
\<close>

theorem single_error_detected:
  assumes "chr_idx (ub_rx_chr d) = -1" and "1 \<le> k" and "k \<le> 10"
  shows "\<exists>d'. rx_run K (flipped b k @ rest) d = (d', 1 # rest, False) \<and>
    ub_rx_fifo d' = ub_rx_fifo d \<and>
    ub_stats d' = (if k = 10
      then (ub_stats d)\<lparr>rx_errs_stop := rx_errs_stop (ub_stats d) + 1\<rparr>
      else (ub_stats d)\<lparr>rx_errs_parity := rx_errs_parity (ub_stats d) + 1\<rparr>)"
  using assms by (rule rx_run_flipped)

theorem single_error_detected_witness:
  "\<exists>d'. rx_run (list_kfifo 4) (flipped 77 3) idle_uart = (d', [1], False) \<and>
    ub_rx_fifo d' = [] \<and> rx_errs_parity (ub_stats d') = 1"
  using single_error_detected [of idle_uart 3 "list_kfifo 4" 77 "[]"]
  by (auto simp: idle_uart_def)

text \<open>
  \<^verbatim>\<open>parity_even8\<close> is 1 exactly for the bytes with an odd number of one bits, so a byte
  and its parity bit together always have an even number.
\<close>

theorem parity_even8_correct:
  "parity_even8 x = of_bool (odd (popcount x)) \<and> even (popcount x + unat (parity_even8 x))"
  by (simp add: parity_even8_popcount)

text \<open>
  A receiver that nobody reads keeps the most recent bytes. Frames arriving on the line
  are all accepted and counted, and the fifo then holds the last \<open>cap\<close> bytes of what it held followed
  by what arrived.
\<close>

theorem rx_keeps_latest:
  assumes "kfifo K contents valid cap"
    and "valid (ub_rx_fifo d)" and "chr_idx (ub_rx_chr d) = -1" and "ub_rx_gpio d \<noteq> 0"
  shows "valid (ub_rx_fifo (recv_line K (concat (map frame bs)) d)) \<and>
    contents (ub_rx_fifo (recv_line K (concat (map frame bs)) d)) =
      lastn cap (contents (ub_rx_fifo d) @ bs) \<and>
    chr_idx (ub_rx_chr (recv_line K (concat (map frame bs)) d)) = -1 \<and>
    ub_stats (recv_line K (concat (map frame bs)) d) =
      (ub_stats d)\<lparr>rx_counter := rx_counter (ub_stats d) + of_nat (length bs)\<rparr>"
  using assms by (rule kfifo.recv_line_frames)

theorem rx_keeps_latest_witness:
  "ub_rx_fifo (recv_line (list_kfifo 2) (concat (map frame [1, 2, 3])) idle_uart) = [2, 3]"
  using rx_keeps_latest [of "list_kfifo 2" "\<lambda>q. q" "list_valid 2" 2 idle_uart "[1, 2, 3]"]
    kfifo_list [of 2]
  by (simp add: list_valid_def lastn_def)

end
