(* ===== verification/Bitbang_Machine.thy ===== *)
theory Bitbang_Machine
  imports Bitbang_Uart
begin

text \<open>
  The bit-bang UART as the kernel runs it: processes that open, close, read and write the device,
  the two hrtimers and the receive interrupt, in every interleaving. The steps are the critical
  sections of the source: a write is the copy under the lock and, later, the test of
  \<^verbatim>\<open>hrtimer_active\<close> with the start of the timer; a timer callback is its body and, later, its return
  to the kernel, which re-queues the timer if the callback asked for it. \<^verbatim>\<open>hrtimer_active\<close> is true
  while the timer is queued or its callback is running, as \<^verbatim>\<open>kernel/time/hrtimer.c\<close> documents.
\<close>

section \<open>State and steps\<close>

record ktimer =
  t_queued :: bool
  t_running :: "hrtimer_restart option"

definition hrtimer_active :: "ktimer \<Rightarrow> bool" where
  "hrtimer_active t \<longleftrightarrow> t_queued t \<or> t_running t \<noteq> None"

text \<open>\<open>m_irq_depth\<close> is the kernel's disable depth of the receive interrupt (0: enabled),
  \<open>m_kicks\<close> the amounts copied by writers that have not yet tested the timer.\<close>

record 'f machine =
  m_dev :: "'f bitbang_uart"
  m_tx :: ktimer
  m_rx :: ktimer
  m_irq_depth :: int
  m_kicks :: "nat list"

datatype bb_event =
    Ev_open | Ev_close | Ev_read nat nat | Ev_copy "u8 list" nat | Ev_kick
  | Ev_tx_fire | Ev_tx_return | Ev_rx_fire int | Ev_rx_return | Ev_edge

fun do_act :: "kact \<Rightarrow> 'f machine \<Rightarrow> 'f machine" where
  "do_act (Start_timer t p) m =
     (if t = ''tx'' then m\<lparr>m_tx := (m_tx m)\<lparr>t_queued := True\<rparr>\<rparr>
      else if t = ''rx'' then m\<lparr>m_rx := (m_rx m)\<lparr>t_queued := True\<rparr>\<rparr>
      else m)"
| "do_act (Irq_on i) m = m\<lparr>m_irq_depth := m_irq_depth m - 1\<rparr>"
| "do_act (Irq_off i) m = m\<lparr>m_irq_depth := m_irq_depth m + 1\<rparr>"
| "do_act _ m = m"

definition timer_fire :: "ktimer \<Rightarrow> bool" where
  "timer_fire t \<longleftrightarrow> t_queued t \<and> t_running t = None"

definition timer_return :: "ktimer \<Rightarrow> ktimer" where
  "timer_return t =
     \<lparr>t_queued = (t_queued t \<or> t_running t = Some HRTIMER_RESTART), t_running = None\<rparr>"

text \<open>One step; \<open>None\<close> when the event cannot happen (a blocked caller does not take a step).\<close>

fun bb_step :: "'f kfifo_api \<Rightarrow> bb_event \<Rightarrow> 'f machine \<Rightarrow> 'f machine option" where
  "bb_step K Ev_open m =
     (case bitbang_uart_open K (m_dev m) of (_, d, as) \<Rightarrow> Some (fold do_act as (m\<lparr>m_dev := d\<rparr>)))"
| "bb_step K Ev_close m =
     (if ub_open_count (m_dev m) \<le> 0 then None
      else (case bitbang_uart_close K (m_dev m) of
              (d, as) \<Rightarrow> Some (fold do_act as (m\<lparr>m_dev := d\<rparr>))))"
| "bb_step K (Ev_read n w) m =
     (if ub_open_count (m_dev m) \<le> 0 then None
      else (case bitbang_rx K (m_dev m) [] n w of
              None \<Rightarrow> None | Some (_, _, d) \<Rightarrow> Some (m\<lparr>m_dev := d\<rparr>)))"
| "bb_step K (Ev_copy bs n) m =
     (if ub_open_count (m_dev m) \<le> 0 \<or> tx_wait K (m_dev m) [] = None then None
      else (case tx_copy K (m_dev m) bs n of
              (_, copied, d) \<Rightarrow> Some (m\<lparr>m_dev := d, m_kicks := m_kicks m @ [copied]\<rparr>)))"
| "bb_step K Ev_kick m =
     (case m_kicks m of
        [] \<Rightarrow> None
      | copied # ks \<Rightarrow>
          Some (fold do_act (tx_kick (m_dev m) copied (hrtimer_active (m_tx m))) (m\<lparr>m_kicks := ks\<rparr>)))"
| "bb_step K Ev_tx_fire m =
     (if \<not> timer_fire (m_tx m) then None
      else (case tx_timer_cb K (m_dev m) of
              (ret, d, as) \<Rightarrow>
                Some (fold do_act as
                  (m\<lparr>m_dev := d, m_tx := \<lparr>t_queued = False, t_running = Some ret\<rparr>\<rparr>))))"
| "bb_step K Ev_tx_return m =
     (if t_running (m_tx m) = None then None else Some (m\<lparr>m_tx := timer_return (m_tx m)\<rparr>))"
| "bb_step K (Ev_rx_fire v) m =
     (if \<not> timer_fire (m_rx m) then None
      else (case rx_timer_cb K (\<lambda>_. v) (m_dev m) of
              (ret, d, as) \<Rightarrow>
                Some (fold do_act as
                  (m\<lparr>m_dev := d, m_rx := \<lparr>t_queued = False, t_running = Some ret\<rparr>\<rparr>))))"
| "bb_step K Ev_rx_return m =
     (if t_running (m_rx m) = None then None else Some (m\<lparr>m_rx := timer_return (m_rx m)\<rparr>))"
| "bb_step K Ev_edge m =
     (if m_irq_depth m \<noteq> 0 then None
      else Some (fold do_act (rx_irq_handler (\<lambda>_. 0) (Some (m_dev m))) m))"

fun bb_steps :: "'f kfifo_api \<Rightarrow> bb_event list \<Rightarrow> 'f machine \<Rightarrow> 'f machine option" where
  "bb_steps K [] m = Some m"
| "bb_steps K (e # es) m = (case bb_step K e m of None \<Rightarrow> None | Some m' \<Rightarrow> bb_steps K es m')"

text \<open>The machine after \<^verbatim>\<open>bitbang_uart_init\<close>: the fifos are empty, the timers idle, the interrupt
  disabled once, nobody has the device open.\<close>

definition bb_initial :: "('f \<Rightarrow> u8 list) \<Rightarrow> ('f \<Rightarrow> bool) \<Rightarrow> 'f machine \<Rightarrow> bool" where
  "bb_initial contents valid m \<longleftrightarrow>
     valid (ub_tx_fifo (m_dev m)) \<and> contents (ub_tx_fifo (m_dev m)) = [] \<and>
     valid (ub_rx_fifo (m_dev m)) \<and> contents (ub_rx_fifo (m_dev m)) = [] \<and>
     chr_idx (ub_tx_chr (m_dev m)) = 0 \<and> chr_idx (ub_rx_chr (m_dev m)) = 0 \<and>
     ub_open_count (m_dev m) = 0 \<and> m_irq_depth m = 1 \<and> m_kicks m = [] \<and>
     \<not> hrtimer_active (m_tx m) \<and> \<not> hrtimer_active (m_rx m)"

inductive bb_reach :: "'f kfifo_api \<Rightarrow> 'f machine \<Rightarrow> 'f machine \<Rightarrow> bool" for K m0 where
  start: "bb_reach K m0 m0"
| step: "bb_reach K m0 m \<Longrightarrow> bb_step K e m = Some m' \<Longrightarrow> bb_reach K m0 m'"

text \<open>Runs in which nothing happens between the body of the transmit callback and its return.\<close>

inductive bb_reach_atomic :: "'f kfifo_api \<Rightarrow> 'f machine \<Rightarrow> 'f machine \<Rightarrow> bool" for K m0 where
  start: "bb_reach_atomic K m0 m0"
| step: "bb_reach_atomic K m0 m \<Longrightarrow> t_running (m_tx m) = None \<or> e = Ev_tx_return \<Longrightarrow>
    bb_step K e m = Some m' \<Longrightarrow> bb_reach_atomic K m0 m'"

section \<open>Invariant\<close>

text \<open>Before the first open the positions still have the value 0 of \<^verbatim>\<open>devm_kzalloc\<close>; nothing can
  fire then.\<close>

definition bb_fresh :: "'f machine \<Rightarrow> bool" where
  "bb_fresh m \<longleftrightarrow> ub_open_count (m_dev m) = 0 \<and>
     chr_idx (ub_tx_chr (m_dev m)) = 0 \<and> chr_idx (ub_rx_chr (m_dev m)) = 0 \<and>
     m_kicks m = [] \<and> \<not> hrtimer_active (m_tx m) \<and> \<not> hrtimer_active (m_rx m)"

definition will_fire :: "ktimer \<Rightarrow> bool" where
  "will_fire t \<longleftrightarrow> t_queued t \<or> t_running t = Some HRTIMER_RESTART"

definition bb_inv :: "('f \<Rightarrow> bool) \<Rightarrow> 'f machine \<Rightarrow> bool" where
  "bb_inv valid m \<longleftrightarrow>
     (valid (ub_tx_fifo (m_dev m)) \<and> valid (ub_rx_fifo (m_dev m))) \<and>
     (chr_idx (ub_tx_chr (m_dev m)) \<in> {-1..10} \<and> chr_idx (ub_rx_chr (m_dev m)) \<in> {-1..9}) \<and>
     ub_open_count (m_dev m) \<in> {0..INT_MAX} \<and>
     m_irq_depth m = (if ub_open_count (m_dev m) = 0 then 1 else 0) \<and>
     (bb_fresh m \<or>
        (chr_idx (ub_tx_chr (m_dev m)) \<noteq> -1 \<longrightarrow> will_fire (m_tx m)) \<and>
        (chr_idx (ub_rx_chr (m_dev m)) \<noteq> -1 \<longrightarrow> will_fire (m_rx m)))"

text \<open>Everything a transmit or a receive callback leaves alone.\<close>

definition same_but_tx :: "'f bitbang_uart \<Rightarrow> 'f bitbang_uart \<Rightarrow> bool" where
  "same_but_tx d d' \<longleftrightarrow> ub_rx_chr d' = ub_rx_chr d \<and> ub_rx_fifo d' = ub_rx_fifo d \<and>
     ub_open_count d' = ub_open_count d"

definition same_but_rx :: "'f bitbang_uart \<Rightarrow> 'f bitbang_uart \<Rightarrow> bool" where
  "same_but_rx d d' \<longleftrightarrow> ub_tx_chr d' = ub_tx_chr d \<and> ub_tx_fifo d' = ub_tx_fifo d \<and>
     ub_open_count d' = ub_open_count d"

lemma idx_cases:
  assumes "i \<in> {-1..10::int}"
  obtains (idle) "i = -1" | (data) n where "i = int n" "n < 8" | (parity) "i = 8" | (stop1) "i = 9"
  | (stop2) "i = 10"
proof (cases "0 \<le> i \<and> i < 8")
  case True
  then show thesis using data [of "nat i"] by (simp add: nat_less_iff)
next
  case False
  with assms have "i = -1 \<or> i = 8 \<or> i = 9 \<or> i = 10" by auto
  then show thesis using idle parity stop1 stop2 by blast
qed

context kfifo
begin

lemma tx_cb_step:
  assumes "valid (ub_tx_fifo d)" and "chr_idx (ub_tx_chr d) \<in> {-1..10}"
    and "tx_timer_cb K d = (ret, d', as)"
  shows "valid (ub_tx_fifo d') \<and> chr_idx (ub_tx_chr d') \<in> {-1..10} \<and> same_but_tx d d' \<and>
    (ret = HRTIMER_NORESTART \<longrightarrow> chr_idx (ub_tx_chr d') = -1 \<and> contents (ub_tx_fifo d') = []) \<and>
    fold do_act as m = m"
  using assms(2)
proof (cases rule: idx_cases)
  case idle
  show ?thesis
    by (rule out_one [OF assms(1)])
       (use assms(3) idle in \<open>auto simp: tx_cb_start tx_cb_empty same_but_tx_def\<close>)
next
  case (data n)
  then show ?thesis using assms by (auto simp: tx_cb_data same_but_tx_def)
qed (use assms in \<open>auto simp: tx_cb_tail same_but_tx_def\<close>)

lemma rx_cb_step:
  assumes "valid (ub_rx_fifo d)" and "chr_idx (ub_rx_chr d) \<in> {-1..9}"
    and "rx_timer_cb K gpio d = (ret, d', as)"
  shows "valid (ub_rx_fifo d') \<and> chr_idx (ub_rx_chr d') \<in> {-1..9} \<and> same_but_rx d d' \<and>
    (ret = HRTIMER_NORESTART \<longrightarrow> chr_idx (ub_rx_chr d') = -1) \<and> fold do_act as m = m"
proof -
  have "chr_idx (ub_rx_chr d) \<in> {-1..10}" using assms(2) by auto
  then show ?thesis
  proof (cases rule: idx_cases)
    case idle
    then show ?thesis
      using assms
      by (cases "gpio (ub_rx_gpio d) = 0") (auto simp: rx_cb_start rx_cb_false_start same_but_rx_def)
  next
    case (data n)
    then show ?thesis using assms by (auto simp: rx_cb_data same_but_rx_def)
  next
    case parity
    then show ?thesis using assms by (auto simp: rx_cb_parity same_but_rx_def)
  next
    case stop1
    then show ?thesis
      using assms overwrite_in_spec [OF assms(1), of "chr_data (ub_rx_chr d)"]
      by (auto simp: rx_timer_cb_def Let_def same_but_rx_def split: if_splits)
  next
    case stop2
    then show ?thesis using assms(2) by simp
  qed
qed


lemma tx_copy_step:
  assumes "valid (ub_tx_fifo d)" and "tx_copy K d bs n = (ret, c, d')"
  shows "valid (ub_tx_fifo d') \<and> contents (ub_tx_fifo d') = contents (ub_tx_fifo d) @ take c bs \<and>
    d' = d\<lparr>ub_tx_fifo := ub_tx_fifo d'\<rparr>"
  using from_user_law [OF assms(1), of bs n] assms(2) by (auto simp: tx_copy_def)

lemma rx_read_step:
  assumes "valid (ub_rx_fifo d)" and "bitbang_rx K d [] n w = Some (ret, out, d')"
  shows "valid (ub_rx_fifo d') \<and> d' = d\<lparr>ub_rx_fifo := ub_rx_fifo d'\<rparr>"
  using to_user_law [OF assms(1), of n w] assms(2)
  by (auto simp: bitbang_rx_def rx_wait.simps split: if_splits)

lemmas inv_simps = bb_inv_def bb_fresh_def will_fire_def hrtimer_active_def timer_fire_def
  same_but_tx_def same_but_rx_def

lemma bb_inv_open:
  assumes "bb_inv valid m" and "bb_step K Ev_open m = Some m'"
  shows "bb_inv valid m'"
proof (cases "ub_open_count (m_dev m) = 0")
  case True
  then have "m' = m\<lparr>m_dev := (m_dev m)\<lparr>ub_open_count := 1,
        ub_rx_fifo := kf_reset K (ub_rx_fifo (m_dev m)),
        ub_tx_chr := (ub_tx_chr (m_dev m))\<lparr>chr_idx := -1\<rparr>,
        ub_rx_chr := (ub_rx_chr (m_dev m))\<lparr>chr_idx := -1\<rparr>\<rparr>,
      m_irq_depth := m_irq_depth m - 1\<rparr>"
    using assms(2) by (simp add: bitbang_uart_open_def INT_MAX_def)
  with True assms(1) show ?thesis
    by (simp add: bb_inv_def reset_law INT_MAX_def)
next
  case False
  let ?n = "ub_open_count (m_dev m) + (if ub_open_count (m_dev m) = INT_MAX then 0 else 1)"
  have "m' = m\<lparr>m_dev := (m_dev m)\<lparr>ub_open_count := ?n\<rparr>\<rparr>"
    using assms(2) False by (auto simp: bitbang_uart_open_def Let_def)
  with False assms(1) show ?thesis
    by (auto simp: bb_inv_def bb_fresh_def)
qed

lemma bb_inv_close: "bb_inv valid m \<Longrightarrow> bb_step K Ev_close m = Some m' \<Longrightarrow> bb_inv valid m'"
  by (auto simp: inv_simps bitbang_uart_close_def Let_def reset_law split: if_splits)

lemma bb_inv_read:
  assumes "bb_inv valid m" and "bb_step K (Ev_read n w) m = Some m'"
  shows "bb_inv valid m'"
proof -
  from assms(2) obtain r out d' where "bitbang_rx K (m_dev m) [] n w = Some (r, out, d')"
    "m' = m\<lparr>m_dev := d'\<rparr>" by (auto split: if_splits option.splits)
  with assms(1) rx_read_step [of "m_dev m" n w r out d'] show ?thesis
    by (cases d'; cases "m_dev m") (auto simp: inv_simps)
qed

lemma bb_inv_copy:
  assumes "bb_inv valid m" and "bb_step K (Ev_copy bs n) m = Some m'"
  shows "bb_inv valid m'"
proof -
  from assms(2) obtain r c d' where "tx_copy K (m_dev m) bs n = (r, c, d')"
    "m' = m\<lparr>m_dev := d', m_kicks := m_kicks m @ [c]\<rparr>" "0 < ub_open_count (m_dev m)"
    by (auto split: if_splits prod.splits)
  with assms(1) tx_copy_step [of "m_dev m" bs n r c d'] show ?thesis
    by (cases d'; cases "m_dev m") (auto simp: inv_simps)
qed

text \<open>Queueing a timer never breaks the invariant once the device has been opened.\<close>

lemma bb_inv_queue:
  assumes "bb_inv valid m" and "\<not> bb_fresh m"
  shows "bb_inv valid (m\<lparr>m_kicks := ks, m_tx := (m_tx m)\<lparr>t_queued := True\<rparr>\<rparr>)"
    and "bb_inv valid (m\<lparr>m_rx := (m_rx m)\<lparr>t_queued := True\<rparr>\<rparr>)"
    and "bb_inv valid (m\<lparr>m_kicks := ks\<rparr>)"
  using assms by (simp_all add: bb_inv_def will_fire_def)

lemma bb_inv_kick:
  assumes "bb_inv valid m" and "bb_step K Ev_kick m = Some m'"
  shows "bb_inv valid m'"
proof -
  obtain c ks where "m_kicks m = c # ks"
    using assms(2) by (cases "m_kicks m") auto
  moreover from this have "\<not> bb_fresh m" by (simp add: bb_fresh_def)
  ultimately show ?thesis
    using assms(2) bb_inv_queue(1,3) [OF assms(1), of ks] by (auto simp: tx_kick_def split: if_splits)
qed

lemma bb_inv_tx_fire:
  assumes "bb_inv valid m" and "bb_step K Ev_tx_fire m = Some m'"
  shows "bb_inv valid m'"
proof -
  obtain r d' as where cb: "tx_timer_cb K (m_dev m) = (r, d', as)" by (cases "tx_timer_cb K (m_dev m)")
  let ?m = "m\<lparr>m_dev := d', m_tx := \<lparr>t_queued = False, t_running = Some r\<rparr>\<rparr>"
  have "timer_fire (m_tx m)" "m' = fold do_act as ?m"
    using assms(2) cb by (auto split: if_splits)
  moreover have "valid (ub_tx_fifo (m_dev m))" "chr_idx (ub_tx_chr (m_dev m)) \<in> {-1..10}"
    using assms(1) by (auto simp: bb_inv_def)
  note tx_cb_step [OF this cb, of ?m]
  ultimately show ?thesis
    using assms(1) by (cases r) (auto simp: inv_simps)
qed

lemma bb_inv_rx_fire:
  assumes "bb_inv valid m" and "bb_step K (Ev_rx_fire v) m = Some m'"
  shows "bb_inv valid m'"
proof -
  obtain r d' as where cb: "rx_timer_cb K (\<lambda>_. v) (m_dev m) = (r, d', as)"
    by (cases "rx_timer_cb K (\<lambda>_. v) (m_dev m)")
  let ?m = "m\<lparr>m_dev := d', m_rx := \<lparr>t_queued = False, t_running = Some r\<rparr>\<rparr>"
  have "timer_fire (m_rx m)" "m' = fold do_act as ?m"
    using assms(2) cb by (auto split: if_splits)
  moreover have "valid (ub_rx_fifo (m_dev m))" "chr_idx (ub_rx_chr (m_dev m)) \<in> {-1..9}"
    using assms(1) by (auto simp: bb_inv_def)
  note rx_cb_step [OF this cb, of ?m]
  ultimately show ?thesis
    using assms(1) by (cases r) (auto simp: inv_simps)
qed

lemma will_fire_return [simp]: "will_fire (timer_return t) \<longleftrightarrow> will_fire t"
  by (auto simp: will_fire_def timer_return_def)

lemma bb_inv_return:
  assumes "bb_inv valid m"
  shows "bb_step K Ev_tx_return m = Some m' \<Longrightarrow> bb_inv valid m'"
    and "bb_step K Ev_rx_return m = Some m' \<Longrightarrow> bb_inv valid m'"
  using assms by (auto simp: bb_inv_def bb_fresh_def hrtimer_active_def split: if_splits)

lemma bb_inv_edge:
  assumes "bb_inv valid m" and "bb_step K Ev_edge m = Some m'"
  shows "bb_inv valid m'"
proof -
  have "\<not> bb_fresh m"
    using assms by (auto simp: bb_inv_def bb_fresh_def split: if_splits)
  then show ?thesis
    using assms(2) bb_inv_queue(2) [OF assms(1)] assms(1)
    by (auto simp: rx_irq_handler_def split: if_splits)
qed

lemma bb_inv_step: "bb_inv valid m \<Longrightarrow> bb_step K e m = Some m' \<Longrightarrow> bb_inv valid m'"
  by (cases e) (blast intro: bb_inv_open bb_inv_close bb_inv_read bb_inv_copy bb_inv_kick
    bb_inv_tx_fire bb_inv_rx_fire bb_inv_return bb_inv_edge)+

lemma bb_inv_initial: "bb_initial contents valid m \<Longrightarrow> bb_inv valid m"
  by (auto simp: bb_initial_def inv_simps INT_MAX_def)

lemma bb_inv_reach:
  assumes "bb_reach K m0 m" and "bb_initial contents valid m0"
  shows "bb_inv valid m"
  using assms by (induction) (auto intro: bb_inv_initial bb_inv_step)

section \<open>Runs without a step inside the transmit callback never stall\<close>

text \<open>Bytes that wait for transmission have an active timer or a writer about to start it.\<close>

definition tx_served :: "'f machine \<Rightarrow> bool" where
  "tx_served m \<longleftrightarrow> contents (ub_tx_fifo (m_dev m)) = [] \<or> will_fire (m_tx m) \<or>
     (t_running (m_tx m) = None \<and> (\<exists>c \<in> set (m_kicks m). c \<noteq> 0))"

lemma served_keep:
  assumes "tx_served m" and "contents (ub_tx_fifo (m_dev m')) = contents (ub_tx_fifo (m_dev m))"
    and "m_tx m' = m_tx m" and "m_kicks m' = m_kicks m"
  shows "tx_served m'"
  using assms by (simp add: tx_served_def)

lemma fold_rx_irq:
  "fold do_act (rx_irq_handler gpio (Some d)) m = m \<or>
   fold do_act (rx_irq_handler gpio (Some d)) m = m\<lparr>m_rx := (m_rx m)\<lparr>t_queued := True\<rparr>\<rparr>"
  by (auto simp: rx_irq_handler_def)

lemma served_step:
  assumes inv: "bb_inv valid m" and served: "tx_served m"
    and atomic: "t_running (m_tx m) = None \<or> e = Ev_tx_return"
    and step: "bb_step K e m = Some m'"
  shows "tx_served m'"
proof (cases e)
  case Ev_open
  with step show ?thesis
    by (intro served_keep [OF served]) (auto simp: bitbang_uart_open_def Let_def split: if_splits)
next
  case Ev_close
  with step show ?thesis
    by (intro served_keep [OF served]) (auto simp: bitbang_uart_close_def Let_def split: if_splits)
next
  case (Ev_read n w)
  with step obtain r out d' where r: "bitbang_rx K (m_dev m) [] n w = Some (r, out, d')"
    "m' = m\<lparr>m_dev := d'\<rparr>" by (auto split: if_splits option.splits)
  have "valid (ub_rx_fifo (m_dev m))" using inv by (simp add: bb_inv_def)
  from rx_read_step [OF this r(1)] have "ub_tx_fifo d' = ub_tx_fifo (m_dev m)"
    by (cases d'; cases "m_dev m") auto
  with r(2) show ?thesis
    by (intro served_keep [OF served]) auto
next
  case (Ev_copy bs n)
  with step obtain r c d' where c: "tx_copy K (m_dev m) bs n = (r, c, d')"
    "m' = m\<lparr>m_dev := d', m_kicks := m_kicks m @ [c]\<rparr>"
    by (auto split: if_splits prod.splits)
  have "valid (ub_tx_fifo (m_dev m))" using inv by (simp add: bb_inv_def)
  from tx_copy_step [OF this c(1)] c(2) served atomic Ev_copy show ?thesis
    by (cases "c = 0") (auto simp: tx_served_def will_fire_def)
next
  case Ev_kick
  with step served atomic show ?thesis
    by (auto simp: tx_served_def tx_kick_def will_fire_def hrtimer_active_def split: list.splits)
next
  case Ev_tx_fire
  obtain r d' as where cb: "tx_timer_cb K (m_dev m) = (r, d', as)" by (cases "tx_timer_cb K (m_dev m)")
  let ?m = "m\<lparr>m_dev := d', m_tx := \<lparr>t_queued = False, t_running = Some r\<rparr>\<rparr>"
  have "m' = fold do_act as ?m"
    using step cb Ev_tx_fire by (auto split: if_splits)
  moreover have "valid (ub_tx_fifo (m_dev m))" "chr_idx (ub_tx_chr (m_dev m)) \<in> {-1..10}"
    using inv by (auto simp: bb_inv_def)
  note tx_cb_step [OF this cb, of ?m]
  ultimately show ?thesis
    by (cases r) (auto simp: tx_served_def will_fire_def)
next
  case Ev_tx_return
  with step served show ?thesis
    by (auto simp: tx_served_def timer_return_def will_fire_def split: if_splits)
next
  case (Ev_rx_fire v)
  obtain r d' as where cb: "rx_timer_cb K (\<lambda>_. v) (m_dev m) = (r, d', as)"
    by (cases "rx_timer_cb K (\<lambda>_. v) (m_dev m)")
  let ?m = "m\<lparr>m_dev := d', m_rx := \<lparr>t_queued = False, t_running = Some r\<rparr>\<rparr>"
  have m': "m' = fold do_act as ?m"
    using step cb Ev_rx_fire by (auto split: if_splits)
  have "valid (ub_rx_fifo (m_dev m))" "chr_idx (ub_rx_chr (m_dev m)) \<in> {-1..9}"
    using inv by (auto simp: bb_inv_def)
  from rx_cb_step [OF this cb, of ?m] m' show ?thesis
    by (intro served_keep [OF served]) (auto simp: same_but_rx_def)
next
  case Ev_rx_return
  with step show ?thesis
    by (intro served_keep [OF served]) (auto split: if_splits)
next
  case Ev_edge
  with step fold_rx_irq [of "\<lambda>_. 0" "m_dev m" m] show ?thesis
    by (intro served_keep [OF served]) (auto split: if_splits)
qed

lemma served_reach:
  assumes "bb_reach_atomic K m0 m" and "bb_initial contents valid m0"
  shows "bb_inv valid m \<and> tx_served m"
  using assms
proof induction
  case start
  then show ?case by (auto intro: bb_inv_initial simp: bb_initial_def tx_served_def)
next
  case (step m e m')
  then show ?case by (blast intro: bb_inv_step served_step)
qed

lemma served_active:
  assumes "bb_reach_atomic K m0 m" and "bb_initial contents valid m0"
    and "contents (ub_tx_fifo (m_dev m)) \<noteq> []" and "\<forall>c \<in> set (m_kicks m). c = 0"
  shows "hrtimer_active (m_tx m)"
  using served_reach [OF assms(1,2)] assms(3,4)
  by (auto simp: tx_served_def will_fire_def hrtimer_active_def)

end

section \<open>Concrete runs\<close>

text \<open>A concrete device after \<^verbatim>\<open>bitbang_uart_init\<close>, over list-based fifos.\<close>

definition fresh_machine :: "u8 list machine" where
  "fresh_machine =
     \<lparr>m_dev = idle_uart\<lparr>ub_tx_chr := \<lparr>chr_idx = 0, chr_parity_bit = 0, chr_data = 0\<rparr>,
        ub_rx_chr := \<lparr>chr_idx = 0, chr_parity_bit = 0, chr_data = 0\<rparr>, ub_open_count := 0\<rparr>,
      m_tx = \<lparr>t_queued = False, t_running = None\<rparr>, m_rx = \<lparr>t_queued = False, t_running = None\<rparr>,
      m_irq_depth = 1, m_kicks = []\<rparr>"

lemma fresh_machine_initial: "bb_initial (\<lambda>q. q) (list_valid n) fresh_machine"
  by (simp add: bb_initial_def fresh_machine_def hrtimer_active_def list_valid_def)

lemma bb_steps_reach: "bb_reach K m0 m \<Longrightarrow> bb_steps K es m = Some m' \<Longrightarrow> bb_reach K m0 m'"
  by (induction es arbitrary: m) (auto split: option.splits intro: bb_reach.step)

fun bb_atomic_steps :: "'f kfifo_api \<Rightarrow> bb_event list \<Rightarrow> 'f machine \<Rightarrow> 'f machine option" where
  "bb_atomic_steps K [] m = Some m"
| "bb_atomic_steps K (e # es) m =
     (if t_running (m_tx m) = None \<or> e = Ev_tx_return
      then (case bb_step K e m of None \<Rightarrow> None | Some m' \<Rightarrow> bb_atomic_steps K es m')
      else None)"

lemma bb_atomic_steps_reach:
  "bb_reach_atomic K m0 m \<Longrightarrow> bb_atomic_steps K es m = Some m' \<Longrightarrow> bb_reach_atomic K m0 m'"
  by (induction es arbitrary: m) (auto split: option.splits if_splits intro: bb_reach_atomic.step)

section \<open>Properties\<close>



text \<open>
  Property C3: no byte is left behind. In every run in which the transmit callback returns before
  anything else happens, a fifo with bytes in it has an active transmit timer as soon as every writer
  has finished its system call.
\<close>

theorem tx_never_stalls:
  assumes "kfifo K contents valid cap" and "bb_initial contents valid m0"
    and "bb_reach_atomic K m0 m" and "\<forall>c \<in> set (m_kicks m). c = 0"
    and "contents (ub_tx_fifo (m_dev m)) \<noteq> []"
  shows "hrtimer_active (m_tx m)"
  using kfifo.served_active [OF assms(1,3,2,5,4)] .

theorem tx_never_stalls_witness:
  "\<exists>m. bb_reach_atomic (list_kfifo 4) fresh_machine m \<and> ub_tx_fifo (m_dev m) \<noteq> [] \<and>
     hrtimer_active (m_tx m)"
proof -
  let ?es = "[Ev_open, Ev_copy [65] 1, Ev_kick, Ev_tx_fire, Ev_tx_return, Ev_copy [66, 67] 2, Ev_kick]"
  have "case bb_atomic_steps (list_kfifo 4) ?es fresh_machine of None \<Rightarrow> False
     | Some m \<Rightarrow> ub_tx_fifo (m_dev m) = [66, 67] \<and> m_kicks m = []"
    by code_simp
  then obtain m where "bb_reach_atomic (list_kfifo 4) fresh_machine m" "ub_tx_fifo (m_dev m) = [66, 67]"
      "m_kicks m = []"
    using bb_atomic_steps_reach [OF bb_reach_atomic.start, of "list_kfifo 4" ?es fresh_machine]
    by (auto split: option.splits)
  then show ?thesis
    using tx_never_stalls [OF kfifo_list fresh_machine_initial, of 4 m] by auto
qed

text \<open>
  Property C14: the race between \<^verbatim>\<open>bitbang_tx\<close> and \<^verbatim>\<open>tx_timer_cb\<close>. If a writer copies and tests
  \<^verbatim>\<open>hrtimer_active\<close> after the callback has found the fifo empty and before it has returned
  \<^verbatim>\<open>HRTIMER_NORESTART\<close>, the timer is not started: a reachable state of the device has a byte to send,
  an idle timer and no writer left that would start it.
\<close>

theorem tx_lost_wakeup:
  "\<exists>m. bb_reach (list_kfifo 4) fresh_machine m \<and> ub_tx_fifo (m_dev m) = [66] \<and>
     \<not> hrtimer_active (m_tx m) \<and> m_kicks m = []"
proof -
  let ?es = "[Ev_open, Ev_copy [65] 1, Ev_kick] @
    concat (replicate 12 [Ev_tx_fire, Ev_tx_return]) @
    [Ev_tx_fire, Ev_copy [66] 1, Ev_kick, Ev_tx_return]"
  have "case bb_steps (list_kfifo 4) ?es fresh_machine of None \<Rightarrow> False
     | Some m \<Rightarrow> ub_tx_fifo (m_dev m) = [66] \<and> \<not> hrtimer_active (m_tx m) \<and> m_kicks m = []"
    by code_simp
  then show ?thesis
    using bb_steps_reach [OF bb_reach.start, of "list_kfifo 4" ?es fresh_machine]
    by (auto split: option.splits)
qed

end
