(* ===== verification/Kernel_Trace.thy ===== *)
theory Kernel_Trace
  imports Prelude "HOL-Library.State_Monad" "HOL-Library.Multiset"
begin

text \<open>
  The life cycle of a driver as a sequence of kernel calls.

  The set-up and tear-down code of the drivers (\<^verbatim>\<open>probe\<close>, \<^verbatim>\<open>remove\<close>, module init and exit) only
  calls the kernel, tests the return value and jumps to a cleanup label. The kernel is not part of
  the repository: a call is a value of \<open>kcall\<close>, the kernel's answers are a parameter \<open>E\<close> of type
  \<open>kenv\<close> (any function of the history of calls), and a piece of set-up code is a state monad over
  the trace of calls made so far, each with the answer it got.

  Answers. A call that returns \<^verbatim>\<open>int\<close> answers that value. A call that returns a pointer answers \<open>0\<close>
  for a valid pointer and the negative errno for an \<^verbatim>\<open>ERR_PTR\<close>; one that reports failure by \<^verbatim>\<open>NULL\<close>
  answers any value other than \<open>0\<close> for \<^verbatim>\<open>NULL\<close>. The answer of a \<^verbatim>\<open>void\<close> call is ignored.

  \<open>held\<close> computes from a trace which resources the driver holds, from the documented pairing of
  acquiring and releasing calls; it is \<open>None\<close> once a resource is released that is not held.
  \<open>kspec\<close> is a small Hoare logic over \<open>held\<close>, and the locale \<open>driver_lifecycle\<close> is the contract
  that a failed set-up leaves no resource behind and that tear-down undoes a successful one.
\<close>

section \<open>Kernel calls\<close>

datatype (plugins only: size) kcall =
    Gpio_request int | Gpio_direction_input int | Gpio_direction_output int int
  | Gpio_free int | Gpio_to_irq int
  | Request_irq int | Free_irq int | Enable_irq int | Disable_irq int | Synchronize_irq int
  | Alloc_chrdev_region | Unregister_chrdev_region | Cdev_add | Cdev_del
  | Class_create | Class_destroy | Device_create | Device_destroy
  | Device_create_file string | Device_remove_file string
  | Proc_create | Proc_remove
  | Devm_kzalloc | Kzalloc string | Kfree string
  | Kfifo_alloc string | Kfifo_free string
  | Gpiod_get string | Gpiod_put string | Gpiod_to_irq string
  | Gpio_to_desc int | Gpiod_direction_output string int | Gpiod_direction_input string
  | Gpiod_set_value string int
  | Register_chrdev | Unregister_chrdev | Misc_register | Misc_deregister
  | Alloc_tty_driver | Put_tty_driver | Tty_register_driver | Tty_unregister_driver
  | Tty_port_init | Tty_port_destroy | Tty_register_device | Tty_unregister_device
  | Hrtimer_start string int | Hrtimer_cancel string | Cancel_work_sync string
  | Platform_device_register | Platform_device_unregister
  | Platform_driver_register | Platform_driver_unregister
  | Kobject_create | Kobject_put | Sysfs_create_group | Sysfs_remove_group
  | Spi_alloc_slave | Spi_master_put | Ioremap_resource | Platform_get_irq | Clk_get string
  | Clk_prepare_enable string | Clk_disable_unprepare string
  | Spi_bitbang_start | Spi_bitbang_stop | Kthread_create | Kthread_stop
  | Tty_port_link_device | Devm_request_irq int | Devm_gpiod_get_optional string
  | Devm_regulator_bulk_get | Regulator_bulk_enable | Regulator_bulk_disable

text \<open>What a driver can hold.\<close>

datatype (plugins only: size) kres =
    R_gpio int | R_irq int | R_chrdev | R_cdev | R_class | R_device | R_attr string | R_proc
  | R_mem string | R_kfifo string | R_gpiod string | R_major | R_misc
  | R_tty_driver | R_tty_registered | R_tty_port | R_tty_device | R_timer string
  | R_platform_device | R_platform_driver | R_kobject | R_group
  | R_spi_master | R_clk string | R_bitbang | R_kthread | R_regulators

type_synonym ktrace = "(kcall \<times> int) list"
type_synonym kenv = "ktrace \<Rightarrow> kcall \<Rightarrow> int"
type_synonym 'a kprog = "(ktrace, 'a) state"

definition kdo :: "kenv \<Rightarrow> kcall \<Rightarrow> int kprog" where
  "kdo E c = State (\<lambda>tr. (E tr c, tr @ [(c, E tr c)]))"

text \<open>A straight run of calls whose answers are ignored, as in cleanup code.\<close>

fun kseq :: "kenv \<Rightarrow> kcall list \<Rightarrow> unit kprog" where
  "kseq E [] = State_Monad.return ()"
| "kseq E (c # cs) = do { _ \<leftarrow> kdo E c; kseq E cs }"

section \<open>Resources held\<close>

text \<open>The documented effect of a call: it acquires a resource if it succeeds (\<^verbatim>\<open>register_chrdev\<close>
  answers a major number, every other call \<open>0\<close>), releases one, initialises one (and cannot fail),
  arms a timer (which may be armed already), disarms one (which may be idle), or none of these.\<close>

datatype keffect =
    Acquire kres | Acquire_major kres | Release kres | Init kres | Arm kres | Disarm kres | Neutral

primrec effect :: "kcall \<Rightarrow> keffect" where
  "effect (Gpio_request p) = Acquire (R_gpio p)"
| "effect (Gpio_direction_input x) = Neutral"
| "effect (Gpio_direction_output x y) = Neutral"
| "effect (Gpio_free p) = Release (R_gpio p)"
| "effect (Gpio_to_irq x) = Neutral"
| "effect (Request_irq i) = Acquire (R_irq i)"
| "effect (Free_irq i) = Release (R_irq i)"
| "effect (Enable_irq x) = Neutral"
| "effect (Disable_irq x) = Neutral"
| "effect (Synchronize_irq x) = Neutral"
| "effect Alloc_chrdev_region = Acquire R_chrdev"
| "effect Unregister_chrdev_region = Release R_chrdev"
| "effect Cdev_add = Acquire R_cdev"
| "effect Cdev_del = Release R_cdev"
| "effect Class_create = Acquire R_class"
| "effect Class_destroy = Release R_class"
| "effect Device_create = Acquire R_device"
| "effect Device_destroy = Release R_device"
| "effect (Device_create_file a) = Acquire (R_attr a)"
| "effect (Device_remove_file a) = Release (R_attr a)"
| "effect Proc_create = Acquire R_proc"
| "effect Proc_remove = Release R_proc"
| "effect Devm_kzalloc = Neutral"
| "effect (Kzalloc n) = Acquire (R_mem n)"
| "effect (Kfree n) = Release (R_mem n)"
| "effect (Kfifo_alloc n) = Acquire (R_kfifo n)"
| "effect (Kfifo_free n) = Release (R_kfifo n)"
| "effect (Gpiod_get n) = Acquire (R_gpiod n)"
| "effect (Gpiod_put n) = Release (R_gpiod n)"
| "effect (Gpiod_to_irq x) = Neutral"
| "effect (Gpio_to_desc x) = Neutral"
| "effect (Gpiod_direction_output x y) = Neutral"
| "effect (Gpiod_direction_input x) = Neutral"
| "effect (Gpiod_set_value x y) = Neutral"
| "effect Register_chrdev = Acquire_major R_major"
| "effect Unregister_chrdev = Release R_major"
| "effect Misc_register = Acquire R_misc"
| "effect Misc_deregister = Release R_misc"
| "effect Alloc_tty_driver = Acquire R_tty_driver"
| "effect Put_tty_driver = Release R_tty_driver"
| "effect Tty_register_driver = Acquire R_tty_registered"
| "effect Tty_unregister_driver = Release R_tty_registered"
| "effect Tty_port_init = Init R_tty_port"
| "effect Tty_port_destroy = Release R_tty_port"
| "effect Tty_register_device = Acquire R_tty_device"
| "effect Tty_unregister_device = Release R_tty_device"
| "effect (Hrtimer_start t d) = Arm (R_timer t)"
| "effect (Hrtimer_cancel t) = Disarm (R_timer t)"
| "effect (Cancel_work_sync x) = Neutral"
| "effect Platform_device_register = Acquire R_platform_device"
| "effect Platform_device_unregister = Release R_platform_device"
| "effect Platform_driver_register = Acquire R_platform_driver"
| "effect Platform_driver_unregister = Release R_platform_driver"
| "effect Kobject_create = Acquire R_kobject"
| "effect Kobject_put = Release R_kobject"
| "effect Sysfs_create_group = Acquire R_group"
| "effect Sysfs_remove_group = Release R_group"
| "effect Spi_alloc_slave = Acquire R_spi_master"
| "effect Spi_master_put = Release R_spi_master"
| "effect Ioremap_resource = Neutral"
| "effect Platform_get_irq = Neutral"
| "effect (Clk_get x) = Neutral"
| "effect (Clk_prepare_enable n) = Acquire (R_clk n)"
| "effect (Clk_disable_unprepare n) = Release (R_clk n)"
| "effect Spi_bitbang_start = Acquire R_bitbang"
| "effect Spi_bitbang_stop = Release R_bitbang"
| "effect Kthread_create = Acquire R_kthread"
| "effect Kthread_stop = Release R_kthread"
| "effect Tty_port_link_device = Neutral"
| "effect (Devm_request_irq x) = Neutral"
| "effect (Devm_gpiod_get_optional x) = Neutral"
| "effect Devm_regulator_bulk_get = Neutral"
| "effect Regulator_bulk_enable = Acquire R_regulators"
| "effect Regulator_bulk_disable = Release R_regulators"

fun held_step :: "kcall \<times> int \<Rightarrow> kres multiset \<Rightarrow> kres multiset option" where
  "held_step (c, r) H =
     (case effect c of
        Acquire x \<Rightarrow> Some (if r = 0 then add_mset x H else H)
      | Acquire_major x \<Rightarrow> Some (if 0 \<le> r then add_mset x H else H)
      | Release x \<Rightarrow> if x \<in># H then Some (H - {#x#}) else None
      | Init x \<Rightarrow> Some (add_mset x H)
      | Arm x \<Rightarrow> Some (if x \<in># H then H else add_mset x H)
      | Disarm x \<Rightarrow> Some (if x \<in># H then H - {#x#} else H)
      | Neutral \<Rightarrow> Some H)"

fun held_from :: "kres multiset \<Rightarrow> ktrace \<Rightarrow> kres multiset option" where
  "held_from H [] = Some H"
| "held_from H (e # tr) = (case held_step e H of None \<Rightarrow> None | Some H' \<Rightarrow> held_from H' tr)"

definition held :: "ktrace \<Rightarrow> kres multiset option" where
  "held = held_from {#}"

lemma held_from_append:
  "held_from H (tr @ tr') = (case held_from H tr of None \<Rightarrow> None | Some H' \<Rightarrow> held_from H' tr')"
  by (induction tr arbitrary: H) (auto split: option.splits)

lemma held_snoc: "held tr = Some H \<Longrightarrow> held (tr @ [e]) = held_step e H"
  by (simp add: held_def held_from_append split: option.splits)

section \<open>A Hoare logic over the resources held\<close>

definition kspec :: "kres multiset \<Rightarrow> 'a kprog \<Rightarrow> ('a \<Rightarrow> kres multiset \<Rightarrow> bool) \<Rightarrow> bool" where
  "kspec H m Q \<longleftrightarrow> (\<forall>tr. held tr = Some H \<longrightarrow>
     (\<exists>H'. held (snd (run_state m tr)) = Some H' \<and> Q (fst (run_state m tr)) H'))"

lemma kspecD:
  assumes "kspec H m Q" and "held tr = Some H" and "run_state m tr = (x, tr')"
  obtains H' where "held tr' = Some H'" "Q x H'"
  using assms by (auto simp: kspec_def)

lemma kspec_return: "Q x H \<Longrightarrow> kspec H (State_Monad.return x) Q"
  by (simp add: kspec_def)

lemma kspec_bind:
  assumes "kspec H m (\<lambda>x H'. kspec H' (f x) Q)"
  shows "kspec H (State_Monad.bind m f) Q"
  unfolding kspec_def
proof (intro allI impI)
  fix tr
  assume "held tr = Some H"
  with assms obtain H' where "held (snd (run_state m tr)) = Some H'"
      "kspec H' (f (fst (run_state m tr))) Q"
    by (auto simp: kspec_def)
  then show "\<exists>H'. held (snd (run_state (State_Monad.bind m f) tr)) = Some H' \<and>
      Q (fst (run_state (State_Monad.bind m f) tr)) H'"
    by (simp add: kspec_def State_Monad.bind_def split_beta Let_def)
qed

lemma kspec_do:
  assumes "\<And>r. \<exists>H'. held_step (c, r) H = Some H' \<and> Q r H'"
  shows "kspec H (kdo E c) Q"
  using assms by (auto simp: kspec_def kdo_def held_snoc)

text \<open>A call whose answer is known.\<close>

definition kans :: "kcall \<Rightarrow> int \<Rightarrow> int kprog" where
  "kans c r = State (\<lambda>tr. (r, tr @ [(c, r)]))"

lemma kdo_known: "(\<And>tr. E tr c = r) \<Longrightarrow> kdo E c = kans c r"
  by (simp add: kdo_def kans_def)

lemma kspec_kans: "\<exists>H'. held_step (c, r) H = Some H' \<and> Q r H' \<Longrightarrow> kspec H (kans c r) Q"
  by (auto simp: kspec_def kans_def held_snoc)

lemma kspec_do_that:
  assumes "\<And>tr. P (E tr c)" and "\<And>r. P r \<Longrightarrow> \<exists>H'. held_step (c, r) H = Some H' \<and> Q r H'"
  shows "kspec H (kdo E c) Q"
  using assms(2) [OF assms(1)] by (auto simp: kspec_def kdo_def held_snoc)

lemma kspec_if:
  "(b \<Longrightarrow> kspec H m Q) \<Longrightarrow> (\<not> b \<Longrightarrow> kspec H n Q) \<Longrightarrow> kspec H (if b then m else n) Q"
  by simp

lemma kspec_mono:
  "kspec H m Q \<Longrightarrow> (\<And>x H'. Q x H' \<Longrightarrow> R x H') \<Longrightarrow> kspec H m R"
  by (fastforce simp: kspec_def)

lemma kspec_kseq_Nil: "Q () H \<Longrightarrow> kspec H (kseq E []) Q"
  by (simp add: kspec_return)

lemma kspec_kseq_Cons:
  assumes "\<And>r. \<exists>H'. held_step (c, r) H = Some H' \<and> kspec H' (kseq E cs) Q"
  shows "kspec H (kseq E (c # cs)) Q"
  using assms by (simp add: kspec_bind kspec_do)

lemmas kspec_rules =
  kspec_return kspec_bind kspec_if kspec_do kspec_kans kspec_kseq_Nil kspec_kseq_Cons

section \<open>The life-cycle contract\<close>

text \<open>\<open>attach\<close> returns the C return value and whatever the driver keeps for tear-down. \<open>ok\<close> is what
  the driver relies on of the kernel's answers. A driver is loaded when none of its timers is
  armed (\<open>quiet\<close>).\<close>

definition quiet :: "kres multiset \<Rightarrow> bool" where
  "quiet H \<longleftrightarrow> (\<forall>t. R_timer t \<notin># H)"

text \<open>The contract over whole traces: set-up that fails leaves what was held before, and tear-down right
  after a successful set-up restores it; in particular nothing is released that is not held.\<close>

definition balanced :: "(kenv \<Rightarrow> bool) \<Rightarrow> (kenv \<Rightarrow> (int \<times> 's) kprog) \<Rightarrow> (kenv \<Rightarrow> 's \<Rightarrow> unit kprog) \<Rightarrow> bool"
  where
  "balanced ok attach detach \<longleftrightarrow>
     (\<forall>E H tr ret s tr'. ok E \<longrightarrow> quiet H \<longrightarrow> held tr = Some H \<longrightarrow>
        run_state (attach E) tr = ((ret, s), tr') \<longrightarrow>
        (if ret = 0 then held (snd (run_state (detach E s) tr')) = Some H else held tr' = Some H))"

text \<open>The same with leftovers: a failed set-up may leave one of \<open>Fs\<close> behind, and tear-down after a
  successful one leaves exactly \<open>R\<close>.\<close>

definition leaves :: "(kenv \<Rightarrow> bool) \<Rightarrow> (kenv \<Rightarrow> (int \<times> 's) kprog) \<Rightarrow> (kenv \<Rightarrow> 's \<Rightarrow> unit kprog) \<Rightarrow>
    kres multiset set \<Rightarrow> kres multiset \<Rightarrow> bool" where
  "leaves ok attach detach Fs R \<longleftrightarrow>
     (\<forall>E H tr ret s tr'. ok E \<longrightarrow> held tr = Some H \<longrightarrow> run_state (attach E) tr = ((ret, s), tr') \<longrightarrow>
        (if ret = 0 then held (snd (run_state (detach E s) tr')) = Some (H + R)
         else held tr' \<in> (\<lambda>F. Some (H + F)) ` Fs))"

lemma leavesI:
  assumes "\<And>E H. ok E \<Longrightarrow> kspec H (attach E) (\<lambda>(ret, s) H'.
    if ret = 0 then kspec H' (detach E s) (\<lambda>_ H''. H'' = H + R) else H' \<in> (\<lambda>F. H + F) ` Fs)"
  shows "leaves ok attach detach Fs R"
  unfolding leaves_def
proof (intro allI impI)
  fix E H tr ret s tr'
  assume a: "ok E" "held tr = Some H" and run: "run_state (attach E) tr = ((ret, s), tr')"
  from kspecD [OF assms [OF a(1)] a(2) run] obtain H' where h: "held tr' = Some H'"
      "if ret = 0 then kspec H' (detach E s) (\<lambda>_ H''. H'' = H + R) else H' \<in> (\<lambda>F. H + F) ` Fs"
    by auto
  then show "if ret = 0 then held (snd (run_state (detach E s) tr')) = Some (H + R)
      else held tr' \<in> (\<lambda>F. Some (H + F)) ` Fs"
    by (cases "ret = 0") (auto simp: kspec_def)
qed

locale driver_lifecycle =
  fixes ok :: "kenv \<Rightarrow> bool"
    and attach :: "kenv \<Rightarrow> (int \<times> 's) kprog"
    and detach :: "kenv \<Rightarrow> 's \<Rightarrow> unit kprog"
  assumes contract: "ok E \<Longrightarrow> quiet H \<Longrightarrow> kspec H (attach E) (\<lambda>(ret, s) H'.
    if ret = 0 then kspec H' (detach E s) (\<lambda>_ H''. H'' = H) else H' = H)"
begin

lemma attach_fails_clean:
  assumes "ok E" and "quiet H" and "held tr = Some H" and "run_state (attach E) tr = ((ret, s), tr')" and "ret \<noteq> 0"
  shows "held tr' = Some H"
  using kspecD [OF contract [OF assms(1,2)] assms(3,4)] assms(5) by auto

lemma detach_undoes_attach:
  assumes "ok E" and "quiet H" and "held tr = Some H" and "run_state (attach E) tr = ((0, s), tr')"
    and "held tr'' = held tr'"
  shows "held (snd (run_state (detach E s) tr'')) = Some H"
proof -
  from kspecD [OF contract [OF assms(1,2)] assms(3,4)] obtain H' where
    "held tr' = Some H'" "kspec H' (detach E s) (\<lambda>_ H''. H'' = H)"
    by auto
  with assms(5) show ?thesis by (auto simp: kspec_def)
qed

lemma balanced: "balanced ok attach detach"
  unfolding balanced_def
proof (intro allI impI)
  fix E H tr ret s tr'
  assume a: "ok E" "quiet H" "held tr = Some H" and run: "run_state (attach E) tr = ((ret, s), tr')"
  show "if ret = 0 then held (snd (run_state (detach E s) tr')) = Some H else held tr' = Some H"
  proof (cases "ret = 0")
    case True
    with detach_undoes_attach [OF a, of s tr' tr'] run show ?thesis by simp
  next
    case False
    with attach_fails_clean [OF a run] show ?thesis by simp
  qed
qed

text \<open>Any number of load and unload cycles, whether or not the loads succeed.\<close>

fun load_unload :: "kenv \<Rightarrow> nat \<Rightarrow> unit kprog" where
  "load_unload E 0 = State_Monad.return ()"
| "load_unload E (Suc n) =
     do { (ret, s) \<leftarrow> attach E; _ \<leftarrow> (if ret = 0 then detach E s else State_Monad.return ());
          load_unload E n }"

lemma load_unload_neutral: "ok E \<Longrightarrow> quiet H \<Longrightarrow> kspec H (load_unload E n) (\<lambda>_ H'. H' = H)"
proof (induction n)
  case 0
  show ?case by (simp add: kspec_return)
next
  case (Suc n)
  show ?case
    unfolding load_unload.simps
    by (rule kspec_bind, rule kspec_mono [OF contract [OF Suc.prems]])
      (auto intro!: kspec_bind kspec_return Suc elim!: kspec_mono split: if_splits)
qed

text \<open>The same for whole traces: the resources held are those held before.\<close>

lemma load_unload_held:
  "ok E \<Longrightarrow> quiet H \<Longrightarrow> held tr = Some H \<Longrightarrow> held (snd (run_state (load_unload E n) tr)) = Some H"
  using load_unload_neutral [of E H n] by (auto simp: kspec_def)

end

end
