(* ===== verification/Bitbang_Driver.thy ===== *)
theory Bitbang_Driver
  imports Bitbang_Uart Kernel_Trace
begin

text \<open>
  The platform driver around the bit-bang UART (\<^verbatim>\<open>openwrt/kernel/soft_uart/bitbang\<close>): set-up and
  tear-down of the UART (\<^verbatim>\<open>uart.c\<close>), the character device, probe, remove and module entry points
  (\<^verbatim>\<open>bitbang-main.c\<close>), the sysfs attributes (\<^verbatim>\<open>bitbang-sysfs.c\<close>) and the proc entry
  (\<^verbatim>\<open>bitbang-proc.c\<close>). Set-up code runs over the kernel-call traces of theory \<open>Kernel_Trace\<close>.
\<close>

section \<open>The private data\<close>

text \<open>The cdev, class, device and proc handles are kernel objects; of the proc entry the code keeps
  whether it exists. The statistics are in the UART record.\<close>

record 'f bitbang_priv =
  bp_uart :: "'f bitbang_uart option"
  bp_proc_entry :: bool
  bp_tx_gpio :: int
  bp_rx_gpio :: int
  bp_period_ms :: u32

definition TX_GPIO :: int where "TX_GPIO = 530"
definition RX_GPIO :: int where "RX_GPIO = 532"
definition PERIOD_MS :: u32 where "PERIOD_MS = 10"

section \<open>uart.c: period, initialisation, exit\<close>

definition bitbang_uart_set_period :: "ktime_api \<Rightarrow> 'f bitbang_priv \<Rightarrow> 'f bitbang_priv" where
  "bitbang_uart_set_period T priv =
     (if bp_period_ms priv = 0 \<or> bp_period_ms priv > 1000 then priv
      else let period = ms_to_ktime T (bp_period_ms priv)
           in priv\<lparr>bp_uart := map_option (\<lambda>d. d\<lparr>ub_period := period,
                ub_half_period := ktime_divns T period 2\<rparr>) (bp_uart priv)\<rparr>)"

definition gpio_init :: "kenv \<Rightarrow> int \<Rightarrow> bool \<Rightarrow> int kprog" where
  "gpio_init E pin out = do {
     ret \<leftarrow> kdo E (Gpio_request pin);
     if ret \<noteq> 0 then State_Monad.return ret
     else if out then kdo E (Gpio_direction_output pin 1)
     else kdo E (Gpio_direction_input pin) }"

definition irq_init :: "kenv \<Rightarrow> 'f bitbang_uart \<Rightarrow> (int \<times> 'f bitbang_uart) kprog" where
  "irq_init E d = do {
     irq \<leftarrow> kdo E (Gpio_to_irq (ub_rx_gpio d));
     if irq < 0 then State_Monad.return (irq, d) else do {
     ret \<leftarrow> kdo E (Request_irq irq);
     if ret \<noteq> 0 then State_Monad.return (ret, d) else do {
     _ \<leftarrow> kdo E (Disable_irq irq);
     State_Monad.return (ret, d\<lparr>ub_irq := irq\<rparr>) }}}"

text \<open>The UART as \<^verbatim>\<open>devm_kzalloc\<close> returns it; \<open>fz\<close> is a fifo of zeroed memory.\<close>

definition zeroed_uart :: "'f \<Rightarrow> 'f bitbang_uart" where
  "zeroed_uart fz = \<lparr>ub_period = 0, ub_half_period = 0, ub_irq = 0, ub_tx_fifo = fz, ub_rx_fifo = fz,
     ub_tx_chr = \<lparr>chr_idx = 0, chr_parity_bit = 0, chr_data = 0\<rparr>,
     ub_rx_chr = \<lparr>chr_idx = 0, chr_parity_bit = 0, chr_data = 0\<rparr>,
     ub_tx_gpio = 0, ub_rx_gpio = 0, ub_open_count = 0,
     ub_stats = \<lparr>tx_counter = 0, rx_counter = 0, rx_errs_start = 0, rx_errs_stop = 0,
                 rx_errs_parity = 0\<rparr>\<rparr>"

text \<open>\<open>f0\<close> is a fifo after \<^verbatim>\<open>INIT_KFIFO\<close>. The locks, wait queues and timers that the code initialises
  are kernel objects.\<close>

definition bitbang_uart_init :: "kenv \<Rightarrow> ktime_api \<Rightarrow> 'f \<Rightarrow> 'f \<Rightarrow> 'f bitbang_priv \<Rightarrow>
    (int \<times> 'f bitbang_priv) kprog" where
  "bitbang_uart_init E T fz f0 priv = do {
     r \<leftarrow> kdo E Devm_kzalloc;
     if r \<noteq> 0 then State_Monad.return (- ENOMEM, priv) else do {
     let priv = bitbang_uart_set_period T (priv\<lparr>bp_uart := Some ((zeroed_uart fz)
           \<lparr>ub_tx_gpio := bp_tx_gpio priv, ub_rx_gpio := bp_rx_gpio priv\<rparr>)\<rparr>);
     let rx_gpio = bp_rx_gpio priv;
     let tx_gpio = bp_tx_gpio priv;
     ret \<leftarrow> (if rx_gpio \<noteq> 0 then gpio_init E rx_gpio False else State_Monad.return 0);
     if ret \<noteq> 0 then State_Monad.return (ret, priv) else do {
     ret \<leftarrow> (if tx_gpio \<noteq> 0 then gpio_init E tx_gpio True else State_Monad.return 0);
     if ret \<noteq> 0 then do {
       _ \<leftarrow> kseq E (if rx_gpio \<noteq> 0 then [Gpio_free rx_gpio] else []);
       State_Monad.return (ret, priv) }
     else do {
     (ret, d) \<leftarrow> (if rx_gpio \<noteq> 0 then irq_init E (the (bp_uart priv))
                 else State_Monad.return (0, the (bp_uart priv)));
     if ret \<noteq> 0 then do {
       _ \<leftarrow> kseq E (Gpio_free rx_gpio # (if tx_gpio \<noteq> 0 then [Gpio_free tx_gpio] else []));
       State_Monad.return (ret, priv) }
     else State_Monad.return
       (0, priv\<lparr>bp_uart := Some (d\<lparr>ub_tx_fifo := f0, ub_rx_fifo := f0, ub_open_count := 0\<rparr>)\<rparr>) }}}}"

definition bitbang_uart_exit :: "kenv \<Rightarrow> 'f bitbang_uart \<Rightarrow> unit kprog" where
  "bitbang_uart_exit E d = do {
     _ \<leftarrow> kseq E [Hrtimer_cancel ''tx'', Hrtimer_cancel ''rx''];
     _ \<leftarrow> (if ub_rx_gpio d \<noteq> 0
          then do {
            _ \<leftarrow> (if ub_irq d \<noteq> 0 then kseq E [Synchronize_irq (ub_irq d), Free_irq (ub_irq d)]
                 else State_Monad.return ());
            kseq E [Gpio_free (ub_rx_gpio d)] }
          else State_Monad.return ());
     if ub_tx_gpio d \<noteq> 0 then kseq E [Gpio_free (ub_tx_gpio d)] else State_Monad.return () }"

section \<open>bitbang-sysfs.c\<close>

text \<open>\<open>kstrtouint\<close> is the kernel's parser: an errno or the value.\<close>

definition period_show :: "'f bitbang_priv \<Rightarrow> string" where
  "period_show priv = dec (unat (bp_period_ms priv)) @ newline"

definition period_store :: "ktime_api \<Rightarrow> (string \<Rightarrow> int + u32) \<Rightarrow> 'f bitbang_priv \<Rightarrow> string \<Rightarrow>
    int \<times> 'f bitbang_priv" where
  "period_store T kstrtouint priv buf =
     (case kstrtouint buf of
        Inl ret \<Rightarrow> (ret, priv)
      | Inr v \<Rightarrow>
          if v < 1 \<or> v > 1000 then (- ERANGE, priv)
          else (int (length buf), bitbang_uart_set_period T (priv\<lparr>bp_period_ms := v\<rparr>)))"

text \<open>The debug level is the module's global \<^verbatim>\<open>DBG_LVL\<close> of type \<^verbatim>\<open>int\<close>.\<close>

definition dbg_show :: "int \<Rightarrow> string" where
  "dbg_show lvl = dec_int lvl @ newline"

definition dbg_store :: "(string \<Rightarrow> int + u32) \<Rightarrow> int \<Rightarrow> string \<Rightarrow> int \<times> int" where
  "dbg_store kstrtouint lvl buf =
     (case kstrtouint buf of
        Inl ret \<Rightarrow> (ret, lvl)
      | Inr v \<Rightarrow> if v > 10 then (- ERANGE, lvl) else (int (length buf), uint v))"

definition bitbang_sysfs_init :: "kenv \<Rightarrow> int kprog" where
  "bitbang_sysfs_init E = do {
     ret \<leftarrow> kdo E (Device_create_file ''period'');
     if ret \<noteq> 0 then State_Monad.return ret else do {
     ret \<leftarrow> kdo E (Device_create_file ''dbg'');
     if ret \<noteq> 0 then do {
       _ \<leftarrow> kseq E [Device_remove_file ''period''];
       State_Monad.return ret }
     else State_Monad.return ret }}"

definition bitbang_sysfs_exit :: "kenv \<Rightarrow> unit kprog" where
  "bitbang_sysfs_exit E = kseq E [Device_remove_file ''period'']"

section \<open>bitbang-proc.c\<close>

text \<open>\<^verbatim>\<open>%d\<close> prints the counters as signed 32-bit numbers.\<close>

definition bitbang_proc_show :: "bitbang_stats \<Rightarrow> string" where
  "bitbang_proc_show s =
     ''Total TX: '' @ dec_int (sint (tx_counter s)) @ newline @
     ''Total RX: '' @ dec_int (sint (rx_counter s)) @ newline @
     ''RX errors:'' @ newline @
     ''start '' @ dec_int (sint (rx_errs_start s)) @ '':'' @ newline @
     ''stop  '' @ dec_int (sint (rx_errs_stop s)) @ '':'' @ newline @
     ''parity  '' @ dec_int (sint (rx_errs_parity s)) @ '':'' @ newline"

definition bitbang_proc_init :: "kenv \<Rightarrow> 'f bitbang_priv \<Rightarrow> (int \<times> 'f bitbang_priv) kprog" where
  "bitbang_proc_init E priv = do {
     r \<leftarrow> kdo E Proc_create;
     State_Monad.return (0, priv\<lparr>bp_proc_entry := (r = 0)\<rparr>) }"

definition bitbang_proc_exit :: "kenv \<Rightarrow> 'f bitbang_priv \<Rightarrow> unit kprog" where
  "bitbang_proc_exit E priv =
     (if bp_proc_entry priv then kseq E [Proc_remove] else State_Monad.return ())"

section \<open>bitbang-main.c\<close>

text \<open>File operations. \<open>nonblock\<close> is \<^verbatim>\<open>f_flags & O_NONBLOCK\<close>; the UART is \<^verbatim>\<open>priv->uart\<close>.\<close>

definition bitbang_read :: "'f kfifo_api \<Rightarrow> 'f bitbang_uart \<Rightarrow> bool \<Rightarrow>
    (int \<times> 'f bitbang_uart) list \<Rightarrow> nat \<Rightarrow> nat \<Rightarrow> (int \<times> u8 list \<times> 'f bitbang_uart) option" where
  "bitbang_read K d nonblock ws len w =
     (if bitbang_uart_rx_buffer_empty K d \<and> nonblock then Some (- EAGAIN, [], d)
      else bitbang_rx K d ws len w)"

definition bitbang_write :: "'f kfifo_api \<Rightarrow> 'f bitbang_uart \<Rightarrow> bool \<Rightarrow>
    (int \<times> 'f bitbang_uart) list \<Rightarrow> u8 list \<Rightarrow> nat \<Rightarrow> bool \<Rightarrow>
    (int \<times> 'f bitbang_uart \<times> kact list) option" where
  "bitbang_write K d nonblock ws from len active =
     (if bitbang_uart_tx_buffer_full K d \<and> nonblock then Some (- EAGAIN, d, [])
      else bitbang_tx K d ws from len active)"

definition bitbang_open :: "'f kfifo_api \<Rightarrow> 'f bitbang_uart \<Rightarrow> int \<times> 'f bitbang_uart \<times> kact list" where
  "bitbang_open K d = bitbang_uart_open K d"

text \<open>\<open>priv\<close> is \<^verbatim>\<open>filp->private_data\<close>, which may be \<^verbatim>\<open>NULL\<close>.\<close>

definition bitbang_release :: "'f kfifo_api \<Rightarrow> 'f bitbang_uart option \<Rightarrow>
    int \<times> 'f bitbang_uart option \<times> kact list" where
  "bitbang_release K priv =
     (case priv of
        None \<Rightarrow> (0, None, [])
      | Some d \<Rightarrow> (case bitbang_uart_close K d of (d', as) \<Rightarrow> (0, Some d', as)))"

text \<open>Probe. The module parameters are arguments; a period of 0 is replaced by the default.\<close>

definition bitbang_probe :: "kenv \<Rightarrow> ktime_api \<Rightarrow> 'f \<Rightarrow> 'f \<Rightarrow> int \<Rightarrow> int \<Rightarrow> u32 \<Rightarrow>
    (int \<times> 'f bitbang_priv) kprog" where
  "bitbang_probe E T fz f0 tx_gpio rx_gpio period_ms = do {
     let priv = \<lparr>bp_uart = None, bp_proc_entry = False, bp_tx_gpio = tx_gpio, bp_rx_gpio = rx_gpio,
                 bp_period_ms = (if period_ms = 0 then PERIOD_MS else period_ms)\<rparr>;
     r \<leftarrow> kdo E Devm_kzalloc;
     if r \<noteq> 0 then State_Monad.return (- ENOMEM, priv) else do {
     ret \<leftarrow> kdo E Alloc_chrdev_region;
     if ret \<noteq> 0 then State_Monad.return (ret, priv) else do {
     ret \<leftarrow> kdo E Cdev_add;
     if ret \<noteq> 0 then do {
       _ \<leftarrow> kseq E [Unregister_chrdev_region];
       State_Monad.return (ret, priv) } else do {
     ret \<leftarrow> kdo E Class_create;
     if ret \<noteq> 0 then do {
       _ \<leftarrow> kseq E [Cdev_del, Unregister_chrdev_region];
       State_Monad.return (ret, priv) } else do {
     ret \<leftarrow> kdo E Device_create;
     if ret \<noteq> 0 then do {
       _ \<leftarrow> kseq E [Class_destroy, Cdev_del, Unregister_chrdev_region];
       State_Monad.return (ret, priv) } else do {
     ret \<leftarrow> bitbang_sysfs_init E;
     if ret \<noteq> 0 then do {
       _ \<leftarrow> kseq E [Device_destroy, Class_destroy, Cdev_del, Unregister_chrdev_region];
       State_Monad.return (ret, priv) } else do {
     (_, priv) \<leftarrow> bitbang_proc_init E priv;
     (ret, priv) \<leftarrow> bitbang_uart_init E T fz f0 priv;
     if ret \<noteq> 0 then do {
       _ \<leftarrow> bitbang_proc_exit E priv;
       _ \<leftarrow> bitbang_sysfs_exit E;
       _ \<leftarrow> kseq E [Device_destroy, Class_destroy, Cdev_del, Unregister_chrdev_region];
       State_Monad.return (ret, priv) }
     else State_Monad.return (ret, priv) }}}}}}}"

definition bitbang_remove :: "kenv \<Rightarrow> 'f bitbang_priv \<Rightarrow> unit kprog" where
  "bitbang_remove E priv = do {
     _ \<leftarrow> bitbang_uart_exit E (the (bp_uart priv));
     _ \<leftarrow> bitbang_proc_exit E priv;
     _ \<leftarrow> bitbang_sysfs_exit E;
     kseq E [Device_destroy, Class_destroy, Cdev_del, Unregister_chrdev_region] }"

text \<open>\<^verbatim>\<open>mod_init\<close> and \<^verbatim>\<open>mod_exit\<close>.\<close>

definition bitbang_mod_init :: "kenv \<Rightarrow> (int \<times> unit) kprog" where
  "bitbang_mod_init E = do {
     r \<leftarrow> kdo E Platform_device_register;
     if r \<noteq> 0 then State_Monad.return (r, ()) else do {
     ret \<leftarrow> kdo E Platform_driver_register;
     if ret \<noteq> 0 then do {
       _ \<leftarrow> kseq E [Platform_device_unregister];
       State_Monad.return (ret, ()) }
     else State_Monad.return (0, ()) }}"

definition bitbang_mod_exit :: "kenv \<Rightarrow> unit \<Rightarrow> unit kprog" where
  "bitbang_mod_exit E _ = kseq E [Platform_driver_unregister, Platform_device_unregister]"

section \<open>Reading, writing and the bit period\<close>

context kfifo
begin

lemma read_result:
  assumes "valid (ub_rx_fifo d)" and "n \<le> w" and "contents (ub_rx_fifo d) \<noteq> []"
  shows "\<exists>f. bitbang_read K d nonblock ws n w =
      Some (int (min n (length (contents (ub_rx_fifo d)))), take n (contents (ub_rx_fifo d)),
            d\<lparr>ub_rx_fifo := f\<rparr>) \<and>
    valid f \<and> contents f = drop n (contents (ub_rx_fifo d))"
  using bitbang_rx_data [OF assms(1,3,2), of ws] assms(1,3)
  by (auto simp: bitbang_read_def bitbang_uart_rx_buffer_empty_def is_empty_iff)

lemma read_empty:
  assumes "valid (ub_rx_fifo d)" and "contents (ub_rx_fifo d) = []"
  shows "bitbang_read K d True ws n w = Some (- EAGAIN, [], d)"
    and "bitbang_read K d False [] n w = None"
    and "bitbang_read K d False ((ret, d') # ws) n w =
      (if ret \<noteq> 0 then Some (ret, [], d') else bitbang_read K d' False ws n w)"
  using assms
  by (simp_all add: bitbang_read_def bitbang_uart_rx_buffer_empty_def bitbang_rx_def is_empty_iff
      rx_wait.simps)

lemma write_result:
  assumes "valid (ub_tx_fifo d)" and "n \<le> length bs" and "length (contents (ub_tx_fifo d)) < size"
  shows "\<exists>f. bitbang_write K d nonblock ws bs n active =
      Some (int (min n (size - length (contents (ub_tx_fifo d)))), d\<lparr>ub_tx_fifo := f\<rparr>,
            if 0 < n \<and> \<not> active then [Start_timer ''tx'' (ub_period d)] else []) \<and>
    valid f \<and>
    contents f = contents (ub_tx_fifo d) @ take (min n (size - length (contents (ub_tx_fifo d)))) bs"
proof -
  have "bitbang_write K d nonblock ws bs n active = bitbang_tx K d ws bs n active"
    using assms(1,3) by (simp add: bitbang_write_def bitbang_uart_tx_buffer_full_def is_full_iff)
  then show ?thesis
    by (simp only:) (rule bitbang_tx_room [OF assms(1,3,2)], blast)
qed

lemma write_full:
  assumes "valid (ub_tx_fifo d)" and "length (contents (ub_tx_fifo d)) = size"
  shows "bitbang_write K d True ws bs n active = Some (- EAGAIN, d, [])"
    and "bitbang_write K d False [] bs n active = None"
    and "bitbang_write K d False ((ret, d') # ws) bs n active =
      (if ret \<noteq> 0 then Some (ret, d', []) else bitbang_write K d' False ws bs n active)"
  using assms
  by (simp_all add: bitbang_write_def bitbang_uart_tx_buffer_full_def bitbang_tx_def is_full_iff
      tx_wait.simps)

end

section \<open>Life cycle\<close>

text \<open>What set-up relies on: a GPIO that was granted accepts its direction, and 0 is not a valid
  interrupt number.\<close>

definition bb_env :: "kenv \<Rightarrow> bool" where
  "bb_env E \<longleftrightarrow> (\<forall>tr p. E tr (Gpio_direction_input p) = 0) \<and>
     (\<forall>tr p v. E tr (Gpio_direction_output p v) = 0) \<and> (\<forall>tr p. E tr (Gpio_to_irq p) \<noteq> 0)"

lemma gpio_init_spec:
  assumes "bb_env E"
  shows "kspec H (gpio_init E pin out) (\<lambda>ret H'. H' = (if ret = 0 then add_mset (R_gpio pin) H else H))"
proof -
  have "kdo E (Gpio_direction_input pin) = kans (Gpio_direction_input pin) 0"
    "kdo E (Gpio_direction_output pin 1) = kans (Gpio_direction_output pin 1) 0"
    using assms by (auto simp: bb_env_def intro: kdo_known)
  then show ?thesis
    by (auto simp: gpio_init_def intro!: kspec_rules)
qed

lemma irq_init_spec:
  assumes "bb_env E"
  shows "kspec H (irq_init E d) (\<lambda>(ret, d') H'.
    if ret = 0 then \<exists>i. i \<noteq> 0 \<and> d' = d\<lparr>ub_irq := i\<rparr> \<and> H' = add_mset (R_irq i) H else H' = H)"
proof -
  have nz: "E tr (Gpio_to_irq (ub_rx_gpio d)) \<noteq> 0" for tr
    using assms by (simp add: bb_env_def)
  show ?thesis
    unfolding irq_init_def
    by (rule kspec_bind, rule kspec_do_that [where P = "\<lambda>r. r \<noteq> 0"], rule nz)
       (auto intro!: kspec_rules)
qed

text \<open>The UART that \<^verbatim>\<open>bitbang_uart_init\<close> leaves behind: the pins of the module parameters and, when
  there is a receive pin, an interrupt.\<close>

lemma uart_init_spec:
  assumes "bb_env E"
  shows "kspec H (bitbang_uart_init E T fz f0 priv) (\<lambda>(ret, priv') H'.
    bp_proc_entry priv' = bp_proc_entry priv \<and>
    (if ret = 0 then \<exists>d. bp_uart priv' = Some d \<and>
       ub_tx_gpio d = bp_tx_gpio priv \<and> ub_rx_gpio d = bp_rx_gpio priv \<and>
       (bp_rx_gpio priv \<noteq> 0 \<longrightarrow> ub_irq d \<noteq> 0) \<and>
       H' = H + (if bp_rx_gpio priv \<noteq> 0 then {#R_gpio (bp_rx_gpio priv), R_irq (ub_irq d)#} else {#}) +
            (if bp_tx_gpio priv \<noteq> 0 then {#R_gpio (bp_tx_gpio priv)#} else {#})
     else H' = H))"
proof -
  note gpio = kspec_mono [OF gpio_init_spec [OF assms]]
  note irq = kspec_mono [OF irq_init_spec [OF assms]]
  show ?thesis
    unfolding bitbang_uart_init_def Let_def bitbang_uart_set_period_def
    by (auto intro!: kspec_return kspec_bind kspec_if kspec_do kspec_kseq_Nil kspec_kseq_Cons gpio irq
        simp: zeroed_uart_def ENOMEM_def)
qed

interpretation uart_life: driver_lifecycle bb_env "\<lambda>E. bitbang_uart_init E T fz f0 priv"
    "\<lambda>E p. bitbang_uart_exit E (the (bp_uart p))"
proof
  fix E H
  assume "bb_env E" "quiet H"
  then show "kspec H (bitbang_uart_init E T fz f0 priv) (\<lambda>(ret, p) H'. if ret = 0
      then kspec H' (bitbang_uart_exit E (the (bp_uart p))) (\<lambda>_ H''. H'' = H) else H' = H)"
    by (intro kspec_mono [OF uart_init_spec])
       (auto simp: bitbang_uart_exit_def quiet_def intro!: kspec_rules split: if_splits)
qed

interpretation mod_life: driver_lifecycle "\<lambda>_. True" bitbang_mod_init bitbang_mod_exit
  by unfold_locales (auto simp: bitbang_mod_init_def bitbang_mod_exit_def intro!: kspec_rules)

lemma probe_spec:
  assumes "bb_env E" and "quiet H"
  shows "kspec H (bitbang_probe E T fz f0 tx rx ms) (\<lambda>(ret, p) H'. if ret = 0
    then kspec H' (bitbang_remove E p) (\<lambda>_ H''. H'' = add_mset (R_attr ''dbg'') H)
    else H' = H \<or> H' = add_mset (R_attr ''dbg'') H)"
proof -
  note uart = kspec_mono [OF uart_init_spec [OF assms(1)]]
  have quiet: "R_timer t \<notin># H" for t
    using assms(2) by (simp add: quiet_def)
  show ?thesis
    unfolding bitbang_probe_def Let_def bitbang_sysfs_init_def bitbang_proc_init_def
    by (auto intro!: kspec_return kspec_bind kspec_if kspec_do kspec_kseq_Nil kspec_kseq_Cons uart
        simp: bitbang_remove_def bitbang_uart_exit_def bitbang_proc_exit_def bitbang_sysfs_exit_def
          ENOMEM_def quiet)
qed

section \<open>Properties\<close>

text \<open>A kernel in which every call succeeds, interrupt numbers included.\<close>

definition good_kernel :: kenv where
  "good_kernel tr c = (case c of Gpio_to_irq p \<Rightarrow> 40 | _ \<Rightarrow> 0)"

lemma good_kernel_bb_env: "bb_env good_kernel"
  by (simp add: bb_env_def good_kernel_def)

text \<open>
  Set-up and tear-down of the UART are balanced. If the kernel accepts the direction of
  a GPIO it has granted, then \<^verbatim>\<open>bitbang_uart_init\<close> either fails and leaves nothing behind, whichever
  call failed, or succeeds and \<^verbatim>\<open>bitbang_uart_exit\<close> gives back exactly what was taken, without ever
  releasing a resource that is not held.
\<close>

theorem bitbang_uart_balanced:
  assumes "bb_env E" and "quiet H" and "held tr = Some H"
    and "run_state (bitbang_uart_init E T fz f0 priv) tr = ((ret, p), tr1)"
  shows "(ret \<noteq> 0 \<longrightarrow> held tr1 = Some H) \<and>
    (ret = 0 \<longrightarrow> held (snd (run_state (bitbang_uart_exit E (the (bp_uart p))) tr1)) = Some H)"
  using uart_life.attach_fails_clean [OF assms] uart_life.detach_undoes_attach [OF assms(1-3), of T fz f0 priv p tr1 tr1]
    assms(4) by auto

definition sample_priv :: "u8 list bitbang_priv" where
  "sample_priv = \<lparr>bp_uart = None, bp_proc_entry = False, bp_tx_gpio = TX_GPIO, bp_rx_gpio = RX_GPIO,
     bp_period_ms = PERIOD_MS\<rparr>"

theorem bitbang_uart_balanced_witness:
  "held (snd (run_state (bitbang_uart_exit good_kernel (the (bp_uart (snd (fst
      (run_state (bitbang_uart_init good_kernel ktime_ns [] [] sample_priv) []))))))
    (snd (run_state (bitbang_uart_init good_kernel ktime_ns [] [] sample_priv) [])))) = Some {#}"
proof -
  obtain ret p tr1 where run:
    "run_state (bitbang_uart_init good_kernel ktime_ns [] [] sample_priv) [] = ((ret, p), tr1)"
    by (metis surj_pair)
  then have "ret = 0"
    by (auto simp: bitbang_uart_init_def gpio_init_def irq_init_def kdo_def good_kernel_def Let_def
        sample_priv_def RX_GPIO_def TX_GPIO_def bitbang_uart_set_period_def PERIOD_MS_def
        State_Monad.bind_def zeroed_uart_def State_Monad.return_def)
  with bitbang_uart_balanced [OF good_kernel_bb_env _ _ run, of "{#}"] run show ?thesis
    by (simp add: quiet_def held_def)
qed

text \<open>
  Probe and remove of the platform driver, with every failing call. A probe that fails
  leaves nothing behind except possibly the \<^verbatim>\<open>dbg\<close> attribute; after a successful probe, remove gives
  back everything except the \<^verbatim>\<open>dbg\<close> attribute, which \<^verbatim>\<open>bitbang_sysfs_exit\<close> does not remove.
\<close>

theorem bitbang_probe_remove:
  assumes "bb_env E" and "quiet H" and "held tr = Some H"
    and "run_state (bitbang_probe E T fz f0 tx rx ms) tr = ((ret, p), tr1)"
  shows "if ret = 0
    then held (snd (run_state (bitbang_remove E p) tr1)) = Some (add_mset (R_attr ''dbg'') H)
    else held tr1 = Some H \<or> held tr1 = Some (add_mset (R_attr ''dbg'') H)"
  using kspecD [OF probe_spec [OF assms(1,2)] assms(3,4)] by (fastforce simp: kspec_def)

theorem bitbang_probe_remove_witness:
  "held (snd (run_state (bitbang_remove good_kernel (snd (fst
      (run_state (bitbang_probe good_kernel ktime_ns ([] :: u8 list) [] TX_GPIO RX_GPIO 10) []))))
    (snd (run_state (bitbang_probe good_kernel ktime_ns ([] :: u8 list) [] TX_GPIO RX_GPIO 10) [])))) =
   Some {#R_attr ''dbg''#}"
proof -
  obtain ret p tr1 where run:
    "run_state (bitbang_probe good_kernel ktime_ns ([] :: u8 list) [] TX_GPIO RX_GPIO 10) [] =
      ((ret, p), tr1)"
    by (metis surj_pair)
  then have "ret = 0"
    by (auto simp: bitbang_probe_def bitbang_sysfs_init_def bitbang_proc_init_def
        bitbang_uart_init_def gpio_init_def irq_init_def kdo_def good_kernel_def Let_def
        RX_GPIO_def TX_GPIO_def bitbang_uart_set_period_def
        State_Monad.bind_def zeroed_uart_def State_Monad.return_def)
  with bitbang_probe_remove [OF good_kernel_bb_env _ _ run, of "{#}"] run show ?thesis
    by (simp add: quiet_def held_def)
qed

text \<open>
  \<^verbatim>\<open>read\<close>. With data in the fifo it returns at once with the oldest bytes, as many as
  asked for and available, and removes exactly those. With an empty fifo a non-blocking read returns
  \<open>-EAGAIN\<close> and a blocking one waits: it returns the error of an interrupted wait with the device
  untouched, and otherwise goes on as a read of the device it finds after the wait.
\<close>

theorem bitbang_read_correct:
  assumes "kfifo K contents valid cap" and "valid (ub_rx_fifo d)" and "n \<le> w"
  shows "if contents (ub_rx_fifo d) \<noteq> []
    then \<exists>f. bitbang_read K d nonblock ws n w =
        Some (int (min n (length (contents (ub_rx_fifo d)))), take n (contents (ub_rx_fifo d)),
              d\<lparr>ub_rx_fifo := f\<rparr>) \<and>
      valid f \<and> contents f = drop n (contents (ub_rx_fifo d))
    else bitbang_read K d nonblock ws n w =
      (if nonblock then Some (- EAGAIN, [], d)
       else case ws of [] \<Rightarrow> None
            | (ret, d') # ws' \<Rightarrow>
                if ret \<noteq> 0 then Some (ret, [], d') else bitbang_read K d' False ws' n w)"
  using kfifo.read_result [OF assms] kfifo.read_empty [OF assms(1,2)]
  by (cases nonblock; cases ws) (auto split: prod.splits)

theorem bitbang_read_correct_witness:
  "bitbang_read (list_kfifo 4) idle_uart False [(0, idle_uart\<lparr>ub_rx_fifo := [7, 8]\<rparr>)] 1 1 =
     Some (1, [7], idle_uart\<lparr>ub_rx_fifo := [8]\<rparr>)"
proof -
  have "\<exists>f. bitbang_read (list_kfifo 4) (idle_uart\<lparr>ub_rx_fifo := [7, 8]\<rparr>) False [] 1 1 =
      Some (1, [7], idle_uart\<lparr>ub_rx_fifo := f\<rparr>) \<and> f = [8]"
    using bitbang_read_correct [OF kfifo_list, of 4 "idle_uart\<lparr>ub_rx_fifo := [7, 8]\<rparr>" 1 1 False "[]"]
    by (auto simp: list_valid_def)
  moreover have "bitbang_read (list_kfifo 4) idle_uart False [(0, idle_uart\<lparr>ub_rx_fifo := [7, 8]\<rparr>)] 1 1 =
      bitbang_read (list_kfifo 4) (idle_uart\<lparr>ub_rx_fifo := [7, 8]\<rparr>) False [] 1 1"
    using bitbang_read_correct [OF kfifo_list, of 4 idle_uart 1 1 False] by (simp add: list_valid_def)
  ultimately show ?thesis by auto
qed

text \<open>
  \<^verbatim>\<open>write\<close>. With room in the fifo it returns at once, having appended as many bytes as fit,
  and starts the transmit timer when it is idle and something was to be written. With a full fifo a
  non-blocking write returns \<open>-EAGAIN\<close> and a blocking one waits, as for \<^verbatim>\<open>read\<close>.
\<close>

theorem bitbang_write_correct:
  assumes "kfifo K contents valid cap" and "valid (ub_tx_fifo d)" and "n \<le> length bs"
  shows "if length (contents (ub_tx_fifo d)) < cap
    then \<exists>f. bitbang_write K d nonblock ws bs n active =
        Some (int (min n (cap - length (contents (ub_tx_fifo d)))), d\<lparr>ub_tx_fifo := f\<rparr>,
              if 0 < n \<and> \<not> active then [Start_timer ''tx'' (ub_period d)] else []) \<and>
      valid f \<and>
      contents f = contents (ub_tx_fifo d) @ take (min n (cap - length (contents (ub_tx_fifo d)))) bs
    else bitbang_write K d nonblock ws bs n active =
      (if nonblock then Some (- EAGAIN, d, [])
       else case ws of [] \<Rightarrow> None
            | (ret, d') # ws' \<Rightarrow>
                if ret \<noteq> 0 then Some (ret, d', []) else bitbang_write K d' False ws' bs n active)"
proof (cases "length (contents (ub_tx_fifo d)) < cap")
  case True
  then show ?thesis using kfifo.write_result [OF assms True] by simp
next
  case False
  then have "length (contents (ub_tx_fifo d)) = cap"
    using kfifo.bounded [OF assms(1,2)] by simp
  from kfifo.write_full [OF assms(1,2) this] False show ?thesis
    by (cases nonblock; cases ws) (auto split: prod.splits)
qed

theorem bitbang_write_correct_witness:
  "\<exists>d. bitbang_write (list_kfifo 2) (idle_uart\<lparr>ub_tx_fifo := [9]\<rparr>) True [] [1, 2, 3] 3 False =
     Some (1, d, [Start_timer ''tx'' 10000000]) \<and> ub_tx_fifo d = [9, 1]"
  using bitbang_write_correct [OF kfifo_list, of 2 "idle_uart\<lparr>ub_tx_fifo := [9]\<rparr>" 3 "[1, 2, 3]" True "[]" False]
  by (auto simp: list_valid_def)

text \<open>
  The period attribute. A store of the text that \<^verbatim>\<open>period_show\<close> prints for a period of
  1 to 1000 ms is accepted, sets the bit period to that many milliseconds and the half period to half
  of it, and is what \<^verbatim>\<open>period_show\<close> then prints; a parse error or a value out of range is refused and
  changes nothing. The kernel's parser is assumed to read decimal numbers, its time unit to be the
  nanosecond.
\<close>

theorem period_roundtrip:
  assumes parse: "\<And>n. n < 2 ^ 32 \<Longrightarrow> kstrtouint (dec n @ newline) = Inr (of_nat n)"
    and time: "\<And>ms. ms_to_ktime T ms = uint ms * 1000000" "\<And>t n. ktime_divns T t n = t div n"
    and priv: "bp_uart priv = Some d" and ms: "ms < 2 ^ 32"
  shows "period_store T kstrtouint priv (dec ms @ newline) =
      (if ms \<in> {1..1000}
       then (int (length (dec ms @ newline)), priv\<lparr>bp_period_ms := of_nat ms,
         bp_uart := Some (d\<lparr>ub_period := int ms * 1000000, ub_half_period := int ms * 500000\<rparr>)\<rparr>)
       else (- ERANGE, priv)) \<and>
    (ms \<in> {1..1000} \<longrightarrow>
      period_show (snd (period_store T kstrtouint priv (dec ms @ newline))) = dec ms @ newline) \<and>
    (\<forall>buf e. kstrtouint buf = Inl e \<longrightarrow> period_store T kstrtouint priv buf = (e, priv))"
proof -
  have word: "unat (of_nat ms :: u32) = ms" "uint (of_nat ms :: u32) = int ms"
    using ms by (simp_all add: unat_of_nat uint_nat)
  have "of_nat ms < (1 :: u32) \<longleftrightarrow> ms = 0" "of_nat ms > (1000 :: u32) \<longleftrightarrow> ms > 1000"
    "of_nat ms = (0 :: u32) \<longleftrightarrow> ms = 0"
    using word by (simp_all add: word_less_nat_alt unat_eq_0 [symmetric] del: unat_eq_zero)
  then show ?thesis
    using parse [OF ms] priv word
    by (auto simp: period_store_def period_show_def bitbang_uart_set_period_def time Let_def)
qed

text \<open>A parser that reads decimal numbers followed by a newline and refuses the empty string.\<close>

definition decimal_parser :: "string \<Rightarrow> int + u32" where
  "decimal_parser s = (if s = [] then Inl (- EINVAL) else Inr (of_nat (dec_value (butlast s))))"

theorem period_roundtrip_witness:
  "period_show (snd (period_store ktime_ns decimal_parser (sample_priv\<lparr>bp_uart := Some idle_uart\<rparr>)
     (dec 250 @ newline))) = dec 250 @ newline"
  using period_roundtrip [of decimal_parser ktime_ns "sample_priv\<lparr>bp_uart := Some idle_uart\<rparr>" idle_uart 250]
  by (auto simp: decimal_parser_def dec_value_dec newline_def ktime_ns_def)

end
