(* ===== verification/Gpio_Drivers.thy ===== *)
theory Gpio_Drivers
  imports Kernel_Trace
begin

text \<open>
  The GPIO interrupt drivers of \<^verbatim>\<open>openwrt/kernel\<close>: \<^verbatim>\<open>mygpio_single.c\<close> (in \<^verbatim>\<open>gpt\<close> and, with another
  pin, in \<^verbatim>\<open>gpio_single\<close>), \<^verbatim>\<open>mygpio_full.c\<close> with its debounced interrupt handler and character device,
  \<^verbatim>\<open>pdrv_gpio_sysfs.c\<close> (in \<^verbatim>\<open>gpt\<close> and, with another pin, in \<^verbatim>\<open>pdev\<close>) and \<^verbatim>\<open>pdrv_sysfs.c\<close>. The pin is an
  argument; the global \<^verbatim>\<open>gpio_irq\<close> is what probe returns beside its return code and remove receives.
\<close>

section \<open>mygpio_single.c\<close>

text \<open>The handlers of \<^verbatim>\<open>mygpio_single.c\<close> and \<^verbatim>\<open>pdrv_gpio_sysfs.c\<close> only log the level.\<close>

definition mygpio_single_probe :: "int \<Rightarrow> kenv \<Rightarrow> (int \<times> int) kprog" where
  "mygpio_single_probe gpio_num E = do {
     ret \<leftarrow> kdo E (Gpio_request gpio_num);
     if ret \<noteq> 0 then State_Monad.return (ret, -1) else do {
     ret \<leftarrow> kdo E (Gpio_direction_input gpio_num);
     if ret \<noteq> 0 then do {
       _ \<leftarrow> kseq E [Gpio_free gpio_num];
       State_Monad.return (ret, -1) } else do {
     gpio_irq \<leftarrow> kdo E (Gpio_to_irq gpio_num);
     if gpio_irq < 0 then do {
       _ \<leftarrow> kseq E [Gpio_free gpio_num];
       State_Monad.return (gpio_irq, gpio_irq) } else do {
     ret \<leftarrow> kdo E (Request_irq gpio_irq);
     if ret \<noteq> 0 then do {
       _ \<leftarrow> kseq E [Gpio_free gpio_num];
       State_Monad.return (ret, gpio_irq) }
     else State_Monad.return (0, gpio_irq) }}}}"

definition mygpio_single_remove :: "int \<Rightarrow> kenv \<Rightarrow> int \<Rightarrow> unit kprog" where
  "mygpio_single_remove gpio_num E gpio_irq = do {
     _ \<leftarrow> (if gpio_irq \<ge> 0 then kseq E [Free_irq gpio_irq] else State_Monad.return ());
     kseq E [Gpio_free gpio_num] }"

definition mygpio_single_init :: "kenv \<Rightarrow> (int \<times> unit) kprog" where
  "mygpio_single_init E = do {
     r \<leftarrow> kdo E Platform_device_register;
     if r \<noteq> 0 then State_Monad.return (r, ()) else do {
     ret \<leftarrow> kdo E Platform_driver_register;
     if ret \<noteq> 0 then do {
       _ \<leftarrow> kseq E [Platform_device_unregister];
       State_Monad.return (ret, ()) }
     else State_Monad.return (0, ()) }}"

definition mygpio_single_exit :: "kenv \<Rightarrow> unit \<Rightarrow> unit kprog" where
  "mygpio_single_exit E _ = kseq E [Platform_driver_unregister, Platform_device_unregister]"

section \<open>pdrv_gpio_sysfs.c and pdrv_sysfs.c\<close>

definition pdrv_gpio_probe :: "int \<Rightarrow> kenv \<Rightarrow> (int \<times> int) kprog" where
  "pdrv_gpio_probe gpio_num E = do {
     ret \<leftarrow> kdo E (Gpio_request gpio_num);
     if ret \<noteq> 0 then State_Monad.return (ret, -1) else do {
     ret \<leftarrow> kdo E (Gpio_direction_input gpio_num);
     if ret \<noteq> 0 then do {
       _ \<leftarrow> kseq E [Gpio_free gpio_num];
       State_Monad.return (ret, -1) } else do {
     gpio_irq \<leftarrow> kdo E (Gpio_to_irq gpio_num);
     if gpio_irq < 0 then do {
       _ \<leftarrow> kseq E [Gpio_free gpio_num];
       State_Monad.return (gpio_irq, gpio_irq) } else do {
     ret \<leftarrow> kdo E (Request_irq gpio_irq);
     if ret \<noteq> 0 then do {
       _ \<leftarrow> kseq E [Gpio_free gpio_num];
       State_Monad.return (ret, gpio_irq) }
     else State_Monad.return (0, gpio_irq) }}}}"

definition pdrv_gpio_remove :: "int \<Rightarrow> kenv \<Rightarrow> int \<Rightarrow> unit kprog" where
  "pdrv_gpio_remove gpio_num E gpio_irq = do {
     _ \<leftarrow> (if gpio_irq \<ge> 0 then kseq E [Free_irq gpio_irq] else State_Monad.return ());
     kseq E [Gpio_free gpio_num] }"

definition pdrv_probe :: "kenv \<Rightarrow> (int \<times> unit) kprog" where
  "pdrv_probe E = State_Monad.return (0, ())"

definition pdrv_remove :: "kenv \<Rightarrow> unit \<Rightarrow> unit kprog" where
  "pdrv_remove E _ = State_Monad.return ()"

text \<open>\<^verbatim>\<open>gpio_single/mygpio_single.c\<close> and \<^verbatim>\<open>pdev/pdev-main.c\<close> are the same drivers for pin 532.\<close>

definition GPIO_NUMBER :: int where "GPIO_NUMBER = 532"

definition gpio_single_probe :: "kenv \<Rightarrow> (int \<times> int) kprog" where
  "gpio_single_probe = mygpio_single_probe GPIO_NUMBER"

definition gpio_single_remove :: "kenv \<Rightarrow> int \<Rightarrow> unit kprog" where
  "gpio_single_remove = mygpio_single_remove GPIO_NUMBER"

definition gpio_single_init :: "kenv \<Rightarrow> (int \<times> unit) kprog" where
  "gpio_single_init = mygpio_single_init"

definition gpio_single_exit :: "kenv \<Rightarrow> unit \<Rightarrow> unit kprog" where
  "gpio_single_exit = mygpio_single_exit"

definition pdev_probe :: "kenv \<Rightarrow> (int \<times> int) kprog" where
  "pdev_probe = pdrv_gpio_probe GPIO_NUMBER"

definition pdev_remove :: "kenv \<Rightarrow> int \<Rightarrow> unit kprog" where
  "pdev_remove = pdrv_gpio_remove GPIO_NUMBER"

section \<open>mygpio_full.c\<close>

text \<open>\<^verbatim>\<open>time_before(a, b)\<close> of \<^verbatim>\<open>linux/jiffies.h\<close> is \<^verbatim>\<open>(long)(a - b) < 0\<close>; \<^verbatim>\<open>unsigned long\<close> is a word of
  any length, 32 or 64 bits on the targets.\<close>

definition time_before :: "'l::len word \<Rightarrow> 'l word \<Rightarrow> bool" where
  "time_before a b \<longleftrightarrow> sint (a - b) < 0"

record 'j mygpio =
  last_jiffies :: 'j
  gpio_val :: int

text \<open>\<open>wait\<close> is \<^verbatim>\<open>msecs_to_jiffies(debounce_ms)\<close>, \<open>level\<close> the level of the pin.\<close>

definition mygpio_irq_handler :: "'l::len word \<Rightarrow> 'l word \<Rightarrow> int \<Rightarrow>
    'l word mygpio \<Rightarrow> 'l word mygpio" where
  "mygpio_irq_handler wait now level g =
     (if time_before now (last_jiffies g + wait) then g
      else g\<lparr>last_jiffies := now, gpio_val := level\<rparr>)"

definition mygpio_text :: "int \<Rightarrow> string" where
  "mygpio_text val = dec_int val @ newline"

text \<open>\<^verbatim>\<open>snprintf\<close> returns the length of the whole text and stores what fits in the four bytes of
  \<^verbatim>\<open>tmp\<close>. \<open>w\<close> bytes of the user buffer are writable. The result is the return value, the bytes
  copied and the new offset; \<open>None\<close> is a copy from beyond \<^verbatim>\<open>tmp\<close>.\<close>

definition mygpio_read :: "int \<Rightarrow> nat \<Rightarrow> nat \<Rightarrow> nat \<Rightarrow> (int \<times> string \<times> nat) option" where
  "mygpio_read val w cnt offset =
     (let text = mygpio_text val;
          len = length text;
          tmp = take 3 text @ [CHR 0x00]
      in if offset \<ge> len then Some (0, [], offset)
         else let cnt = (if cnt > len - offset then len - offset else cnt)
              in if offset + cnt > 4 then None
                 else if w < cnt then Some (- EFAULT, take w (take cnt (drop offset tmp)), offset)
                 else Some (int cnt, take cnt (drop offset tmp), offset + cnt))"

definition mygpio_full_probe :: "int \<Rightarrow> kenv \<Rightarrow> (int \<times> int) kprog" where
  "mygpio_full_probe gpio_num E = do {
     ret \<leftarrow> kdo E (Gpio_request gpio_num);
     if ret \<noteq> 0 then State_Monad.return (ret, -1) else do {
     ret \<leftarrow> kdo E (Gpio_direction_input gpio_num);
     if ret \<noteq> 0 then do {
       _ \<leftarrow> kseq E [Gpio_free gpio_num];
       State_Monad.return (ret, -1) } else do {
     gpio_irq \<leftarrow> kdo E (Gpio_to_irq gpio_num);
     if gpio_irq < 0 then do {
       _ \<leftarrow> kseq E [Gpio_free gpio_num];
       State_Monad.return (gpio_irq, gpio_irq) } else do {
     ret \<leftarrow> kdo E (Request_irq gpio_irq);
     if ret \<noteq> 0 then do {
       _ \<leftarrow> kseq E [Gpio_free gpio_num];
       State_Monad.return (ret, gpio_irq) } else do {
     ret \<leftarrow> kdo E Alloc_chrdev_region;
     if ret \<noteq> 0 then do {
       _ \<leftarrow> kseq E [Free_irq gpio_irq, Gpio_free gpio_num];
       State_Monad.return (ret, gpio_irq) } else do {
     ret \<leftarrow> kdo E Cdev_add;
     if ret \<noteq> 0 then do {
       _ \<leftarrow> kseq E [Unregister_chrdev_region, Free_irq gpio_irq, Gpio_free gpio_num];
       State_Monad.return (ret, gpio_irq) }
     else State_Monad.return (0, gpio_irq) }}}}}}"

definition mygpio_full_remove :: "int \<Rightarrow> kenv \<Rightarrow> int \<Rightarrow> unit kprog" where
  "mygpio_full_remove gpio_num E gpio_irq = do {
     _ \<leftarrow> kseq E [Cdev_del, Unregister_chrdev_region];
     _ \<leftarrow> (if gpio_irq \<ge> 0 then kseq E [Free_irq gpio_irq] else State_Monad.return ());
     kseq E [Gpio_free gpio_num] }"

definition mygpio_full_init :: "kenv \<Rightarrow> (int \<times> unit) kprog" where
  "mygpio_full_init E = do {
     r \<leftarrow> kdo E Platform_device_register;
     if r \<noteq> 0 then State_Monad.return (r, ()) else do {
     ret \<leftarrow> kdo E Platform_driver_register;
     if ret \<noteq> 0 then do {
       _ \<leftarrow> kseq E [Platform_device_unregister];
       State_Monad.return (ret, ()) }
     else State_Monad.return (0, ()) }}"

definition mygpio_full_exit :: "kenv \<Rightarrow> unit \<Rightarrow> unit kprog" where
  "mygpio_full_exit E _ = kseq E [Platform_driver_unregister, Platform_device_unregister]"

section \<open>Life cycles\<close>

text \<open>The module entry points of \<^verbatim>\<open>mygpio_single.c\<close> and \<^verbatim>\<open>mygpio_full.c\<close> and the probe and remove
  functions meet the contract for every kernel.\<close>

interpretation single: driver_lifecycle "\<lambda>_. True" "mygpio_single_probe g" "mygpio_single_remove g"
  by unfold_locales
     (auto simp: mygpio_single_probe_def mygpio_single_remove_def intro!: kspec_rules)

interpretation single_mod: driver_lifecycle "\<lambda>_. True" mygpio_single_init mygpio_single_exit
  by unfold_locales (auto simp: mygpio_single_init_def mygpio_single_exit_def intro!: kspec_rules)

interpretation pdrv_gpio: driver_lifecycle "\<lambda>_. True" "pdrv_gpio_probe g" "pdrv_gpio_remove g"
  by unfold_locales (auto simp: pdrv_gpio_probe_def pdrv_gpio_remove_def intro!: kspec_rules)

interpretation pdrv: driver_lifecycle "\<lambda>_. True" pdrv_probe pdrv_remove
  by unfold_locales (auto simp: pdrv_probe_def pdrv_remove_def intro!: kspec_rules)

interpretation full: driver_lifecycle "\<lambda>_. True" "mygpio_full_probe g" "mygpio_full_remove g"
  by unfold_locales (auto simp: mygpio_full_probe_def mygpio_full_remove_def intro!: kspec_rules)

interpretation full_mod: driver_lifecycle "\<lambda>_. True" mygpio_full_init mygpio_full_exit
  by unfold_locales (auto simp: mygpio_full_init_def mygpio_full_exit_def intro!: kspec_rules)

section \<open>Debouncing\<close>

text \<open>Time as it really passes, in jiffies since boot, without wrap-around.\<close>

lemma time_before_exact:
  fixes now last d :: nat
  assumes "last \<le> now" and "now - last < 2 ^ (LENGTH('l) - 1)" and "d < 2 ^ (LENGTH('l) - 1)"
  shows "time_before (of_nat now) (of_nat last + of_nat d :: 'l::len word) \<longleftrightarrow> now < last + d"
proof -
  let ?z = "int now - int last - int d"
  have w: "(of_nat now - (of_nat last + of_nat d) :: 'l word) = word_of_int ?z"
    by simp
  have bound: "int (now - last) < 2 ^ (LENGTH('l) - 1)" "int d < 2 ^ (LENGTH('l) - 1)"
    using assms(2,3) by (simp_all only: of_nat_less_numeral_power_cancel_iff)
  have "- (2 ^ (LENGTH('l) - 1)) \<le> ?z" "?z < 2 ^ (LENGTH('l) - 1)"
    using assms(1) bound of_nat_diff [OF assms(1), where 'a = int] by linarith+
  then have "signed_take_bit (LENGTH('l) - 1) ?z = ?z"
    by (rule signed_take_bit_int_eq_self)
  then have "sint (word_of_int ?z :: 'l word) = ?z"
    by (simp only: sint_sbintrunc')
  then have "time_before (of_nat now) (of_nat last + of_nat d :: 'l word) \<longleftrightarrow> ?z < 0"
    by (simp only: time_before_def w)
  then show ?thesis by linarith
qed

text \<open>The reference: an edge counts if at least \<open>d\<close> jiffies have passed since the last one that
  counted. The state is the time of that edge and the level it had.\<close>

fun debounce :: "nat \<Rightarrow> (nat \<times> int) list \<Rightarrow> nat \<times> int \<Rightarrow> nat \<times> int" where
  "debounce d [] s = s"
| "debounce d ((t, v) # es) (l, x) = debounce d es (if t < l + d then (l, x) else (t, v))"

text \<open>Times that do not decrease and never leave a gap of more than \<open>g\<close>.\<close>

fun steady :: "nat \<Rightarrow> nat \<Rightarrow> nat list \<Rightarrow> bool" where
  "steady g p [] \<longleftrightarrow> True"
| "steady g p (t # ts) \<longleftrightarrow> p \<le> t \<and> t - p \<le> g \<and> steady g t ts"

definition mygpio_edges :: "nat \<Rightarrow> (nat \<times> int) list \<Rightarrow> 'l::len word mygpio \<Rightarrow> 'l word mygpio" where
  "mygpio_edges d es g = fold (\<lambda>(t, v). mygpio_irq_handler (of_nat d) (of_nat t) v) es g"

lemma mygpio_edges_debounce:
  assumes "steady g p (map fst es)" and "l \<le> p" and "p - l \<le> d" and "d + g < 2 ^ (LENGTH('l) - 1)"
  shows "mygpio_edges d es \<lparr>last_jiffies = of_nat l :: 'l::len word, gpio_val = x\<rparr> =
    (case debounce d es (l, x) of (l', x') \<Rightarrow> \<lparr>last_jiffies = of_nat l', gpio_val = x'\<rparr>)"
  using assms
proof (induction es arbitrary: p l x)
  case Nil
  then show ?case by (simp add: mygpio_edges_def)
next
  case (Cons e es)
  obtain t v where e: "e = (t, v)" by (cases e)
  have t: "p \<le> t" "t - p \<le> g" "steady g t (map fst es)"
    using Cons.prems(1) e by auto
  have "time_before (of_nat t) (of_nat l + of_nat d :: 'l word) \<longleftrightarrow> t < l + d"
    using t Cons.prems by (intro time_before_exact) auto
  then show ?case
    using Cons.IH [OF t(3), of l x] Cons.IH [OF t(3), of t v] t Cons.prems(2-4)
    by (simp add: e mygpio_edges_def mygpio_irq_handler_def)
qed

section \<open>Reading the value\<close>

text \<open>A reader that asks for \<open>n\<close> bytes again and again until end of file.\<close>

fun mygpio_read_all :: "nat \<Rightarrow> int \<Rightarrow> nat \<Rightarrow> nat \<Rightarrow> string option" where
  "mygpio_read_all 0 val n off = None"
| "mygpio_read_all (Suc fuel) val n off =
     (case mygpio_read val n n off of
        None \<Rightarrow> None
      | Some (r, out, off') \<Rightarrow>
          if r < 0 then None else if r = 0 then Some []
          else map_option (\<lambda>rest. out @ rest) (mygpio_read_all fuel val n off'))"

lemma mygpio_read_chunk:
  assumes "length (mygpio_text val) \<le> 3"
  shows "mygpio_read val n n off =
    (if length (mygpio_text val) \<le> off then Some (0, [], off)
     else let c = min n (length (mygpio_text val) - off)
          in Some (int c, take c (drop off (mygpio_text val)), off + c))"
  using assms by (auto simp: mygpio_read_def Let_def min_def)

lemma mygpio_read_all_text:
  assumes "length (mygpio_text val) \<le> 3" and "0 < n" and "length (mygpio_text val) - off < fuel"
  shows "mygpio_read_all fuel val n off = Some (drop off (mygpio_text val))"
  using assms(3)
proof (induction fuel arbitrary: off)
  case (Suc fuel)
  let ?t = "mygpio_text val"
  show ?case
  proof (cases "length ?t \<le> off")
    case True
    then show ?thesis
      by (simp add: mygpio_read_chunk [OF assms(1)])
  next
    case False
    let ?c = "min n (length ?t - off)"
    have "mygpio_read_all fuel val n (off + ?c) = Some (drop (off + ?c) ?t)"
      using Suc.prems False assms(2) by (intro Suc.IH) auto
    moreover have "take ?c (drop off ?t) @ drop (off + ?c) ?t = drop off ?t"
      using append_take_drop_id [of ?c "drop off ?t"] by (simp add: add.commute)
    ultimately show ?thesis
      using False assms(2) by (simp add: mygpio_read_chunk [OF assms(1)] Let_def)
  qed
qed simp

section \<open>Properties\<close>

text \<open>
  Property C18: debouncing is exact although jiffies wrap around. For edges that do not go back in time
  and leave no gap of half the range of \<^verbatim>\<open>unsigned long\<close>, the handler ends in the state of a reference
  that works on unbounded time: an edge counts if at least the debounce time has passed since the last
  one that counted. The number of edges is not bounded, so jiffies may wrap any number of times.
\<close>

theorem mygpio_debounce_exact:
  assumes "steady g l (map fst es)" and "d + g < 2 ^ (LENGTH('l) - 1)"
  shows "mygpio_edges d es \<lparr>last_jiffies = of_nat l :: 'l::len word, gpio_val = x\<rparr> =
    (case debounce d es (l, x) of (l', x') \<Rightarrow> \<lparr>last_jiffies = of_nat l', gpio_val = x'\<rparr>)"
  by (rule mygpio_edges_debounce [OF assms(1) order_refl _ assms(2)]) simp

theorem mygpio_debounce_exact_witness:
  "mygpio_edges 5 [(250, 1), (252, 0), (258, 0), (262, 1), (300, 0)]
     \<lparr>last_jiffies = 240 :: 10 word, gpio_val = 0\<rparr> = \<lparr>last_jiffies = 300, gpio_val = 0\<rparr>"
  using mygpio_debounce_exact [where 'l = 10, of 50 240 "[(250, 1), (252, 0), (258, 0), (262, 1), (300, 0)]" 5 0]
  by simp

text \<open>
  Reading the device node. A reader with chunks of any positive size gets the value in
  decimal and a newline, then end of file, without a copy from beyond the four bytes of \<^verbatim>\<open>tmp\<close>, as long
  as the text has at most three characters; the levels 0 and 1 of a pin always do.
\<close>

theorem mygpio_read_text:
  assumes "length (mygpio_text val) \<le> 3" and "0 < n"
  shows "mygpio_read_all 4 val n 0 = Some (mygpio_text val)"
  using mygpio_read_all_text [OF assms, of 0 4] assms(1) by simp

theorem mygpio_read_text_witness:
  "mygpio_read_all 4 1 1 0 = Some [CHR ''1'', CHR 0x0A]"
proof -
  have "mygpio_text 1 = [CHR ''1'', CHR 0x0A]"
    by code_simp
  with mygpio_read_text [of 1 1] show ?thesis by simp
qed

text \<open>
  With a 32-bit \<^verbatim>\<open>unsigned long\<close> the handler ignores every edge while jiffies are negative
  as a signed number, because \<^verbatim>\<open>last_jiffies\<close> starts at 0: the kernel starts jiffies at minus five
  minutes, so the driver is deaf for the first five minutes after boot.
\<close>

theorem mygpio_deaf_after_boot:
  fixes now wait :: u32
  assumes "- (2 ^ 30) \<le> sint now" and "sint now < 0" and "0 \<le> sint wait" and "sint wait \<le> 2 ^ 30"
  shows "mygpio_irq_handler wait now level \<lparr>last_jiffies = 0, gpio_val = v\<rparr> =
    \<lparr>last_jiffies = 0, gpio_val = v\<rparr>"
proof -
  have "sint (now - wait) = sint now - sint wait"
    using assms by (simp add: sint_word_diff signed_take_bit_int_eq_self)
  then show ?thesis
    using assms by (simp add: mygpio_irq_handler_def time_before_def)
qed

theorem mygpio_deaf_after_boot_witness:
  "mygpio_irq_handler 5 (- 30000) 1 \<lparr>last_jiffies = 0 :: u32, gpio_val = 0\<rparr> =
    \<lparr>last_jiffies = 0, gpio_val = 0\<rparr>"
  by (rule mygpio_deaf_after_boot) code_simp+

end
