(* ===== verification/Gpio_Uart_Tty.thy ===== *)
theory Gpio_Uart_Tty
  imports Byte_Fifo Kernel_Trace
begin

text \<open>
  The TTY driver \<^verbatim>\<open>openwrt/kernel/soft_uart/gpt/gpio_uart_tty.c\<close>: transmission by busy waiting,
  reception by an hrtimer that polls the line, configuration through termios and sysfs, and the
  module's set-up and tear-down. The global \<^verbatim>\<open>GU\<close> is the state passed to every function.
\<close>

section \<open>State\<close>

record gu_cfg =
  baud :: u32
  parity :: u8
  stopbits :: u8
  invert :: bool
  tx_enable :: bool
  rx_enable :: bool

record gu_stats =
  tx_bytes :: u64
  rx_bytes :: u64
  framing_errors :: u64
  rx_errors :: u64
  overrun_errors :: u64

text \<open>The timer, the lock, the tty driver and port and the proc and sysfs handles are kernel
  objects. \<open>gu_tx\<close> names the transmit line.\<close>

record gpio_uart =
  gu_tx :: int
  cfg :: gu_cfg
  st :: gu_stats
  bit_period :: int
  rx_busy :: bool
  rx_byte :: u8
  rx_bitpos :: int

definition NSEC_PER_SEC :: int where "NSEC_PER_SEC = 1000000000"

section \<open>Levels and transmission\<close>

text \<open>\<open>v\<close> is what \<^verbatim>\<open>gpiod_get_value\<close> returns.\<close>

definition get_rx_level :: "gpio_uart \<Rightarrow> int \<Rightarrow> int" where
  "get_rx_level g v = (if invert (cfg g) then (if v = 0 then 1 else 0) else v)"

definition set_tx_level :: "gpio_uart \<Rightarrow> int \<Rightarrow> kact" where
  "set_tx_level g v =
     Gpio_set_value (gu_tx g) (if invert (cfg g) then (if v = 0 then 1 else 0) else v)"

definition parity_bit_out :: "u8 \<Rightarrow> u8 \<Rightarrow> int" where
  "parity_bit_out b parity_mode =
     (let pop = popcount b mod 2
      in if parity_mode = 1 then (if pop \<noteq> 0 then 0 else 1)
         else if parity_mode = 2 then (if pop \<noteq> 0 then 1 else 0)
         else 0)"

definition uart_tx_byte :: "gpio_uart \<Rightarrow> u8 \<Rightarrow> gpio_uart \<times> kact list" where
  "uart_tx_byte g b =
     (if \<not> tx_enable (cfg g) then (g, [])
      else if baud (cfg g) = 0 then (g, [])
      else
        let bit_us = 1000000 div baud (cfg g);
            out = (\<lambda>v. [set_tx_level g v, Udelay bit_us]);
            data = concat (map (\<lambda>i. out (bit_level b i)) [0..<8]);
            pop = popcount b mod 2;
            pbit = (if parity (cfg g) = 2 then (if pop \<noteq> 0 then 1 else 0)
                    else (if pop \<noteq> 0 then 0 else 1));
            par = (if parity (cfg g) \<noteq> 0 then out pbit else []);
            stop = concat (replicate (unat (stopbits (cfg g))) (out 1))
        in (g\<lparr>st := (st g)\<lparr>tx_bytes := tx_bytes (st g) + 1\<rparr>\<rparr>, out 0 @ data @ par @ stop))"

section \<open>Reception\<close>

text \<open>\<open>v\<close> is the level of the line during the call, \<open>initialized\<close> what \<^verbatim>\<open>tty_port_initialized\<close>
  answers.\<close>

definition gu_rx_timer_cb :: "ktime_api \<Rightarrow> bool \<Rightarrow> int \<Rightarrow> gpio_uart \<Rightarrow>
    hrtimer_restart \<times> gpio_uart \<times> kact list" where
  "gu_rx_timer_cb T initialized v g =
     (if \<not> rx_enable (cfg g) then (HRTIMER_NORESTART, g, [])
      else if \<not> rx_busy g then
        (if get_rx_level g v = 0
         then (HRTIMER_RESTART, g\<lparr>rx_busy := True, rx_bitpos := -1, rx_byte := 0\<rparr>,
               [Forward_timer ''rx'' (ktime_divns T (bit_period g) 2)])
         else (HRTIMER_RESTART, g, []))
      else
        let g = g\<lparr>rx_bitpos := rx_bitpos g + 1\<rparr>
        in if rx_bitpos g \<ge> 0 \<and> rx_bitpos g < 8 then
             (HRTIMER_RESTART,
              g\<lparr>rx_byte := rx_byte g OR of_int (push_bit (nat (rx_bitpos g)) (get_rx_level g v))\<rparr>,
              [Forward_timer ''rx'' (bit_period g)])
           else if parity (cfg g) \<noteq> 0 \<and> rx_bitpos g = 8 then
             (HRTIMER_RESTART, g, [Forward_timer ''rx'' (bit_period g)])
           else if rx_bitpos g \<ge> 8 + (if parity (cfg g) \<noteq> 0 then 1 else 0) then
             (if get_rx_level g v \<noteq> 1
              then (HRTIMER_RESTART,
                    g\<lparr>st := (st g)\<lparr>framing_errors := framing_errors (st g) + 1\<rparr>, rx_busy := False\<rparr>, [])
              else (HRTIMER_RESTART,
                    g\<lparr>st := (st g)\<lparr>rx_bytes := rx_bytes (st g) + 1\<rparr>, rx_busy := False\<rparr>,
                    if initialized then [Tty_flip_char (rx_byte g), Tty_flip_push] else []))
           else (HRTIMER_RESTART, g\<lparr>rx_busy := False\<rparr>, []))"

section \<open>TTY operations\<close>

text \<open>\<open>ret\<close> is the result of \<^verbatim>\<open>tty_port_open\<close>; the flag says whether \<^verbatim>\<open>driver_data\<close> was set.\<close>

definition gu_tty_open :: "int \<Rightarrow> int \<times> bool" where
  "gu_tty_open ret = (if ret \<noteq> 0 then (ret, False) else (0, True))"

fun gu_tx_bytes :: "gpio_uart \<Rightarrow> u8 list \<Rightarrow> gpio_uart \<times> kact list" where
  "gu_tx_bytes g [] = (g, [])"
| "gu_tx_bytes g (b # bs) =
     (case uart_tx_byte g b of
        (g', as) \<Rightarrow> (case gu_tx_bytes g' bs of (g'', as') \<Rightarrow> (g'', as @ as')))"

definition gu_tty_write :: "gpio_uart \<Rightarrow> u8 list \<Rightarrow> int \<times> gpio_uart \<times> kact list" where
  "gu_tty_write g buf =
     (if \<not> tx_enable (cfg g) then (- EIO, g, [])
      else (case gu_tx_bytes g buf of (g', as) \<Rightarrow> (int (length buf), g', as)))"

definition gu_tty_write_room :: int where "gu_tty_write_room = 4096"

definition PARENB :: u32 where "PARENB = 256"
definition PARODD :: u32 where "PARODD = 512"
definition CSTOPB :: u32 where "CSTOPB = 64"

text \<open>\<open>rate\<close> is the result of \<^verbatim>\<open>tty_get_baud_rate\<close>.\<close>

definition gu_set_termios :: "ktime_api \<Rightarrow> u32 \<Rightarrow> u32 \<Rightarrow> gpio_uart \<Rightarrow> gpio_uart" where
  "gu_set_termios T rate cflag g =
     (let baud_new = (if rate = 0 then baud (cfg g) else rate);
          par = (if cflag AND PARENB \<noteq> 0 then (if cflag AND PARODD \<noteq> 0 then 1 else 2) else 0);
          stop = (if cflag AND CSTOPB \<noteq> 0 then 2 else 1);
          g = g\<lparr>cfg := (cfg g)\<lparr>baud := baud_new, parity := par, stopbits := stop\<rparr>\<rparr>
      in if baud (cfg g) \<noteq> 0
         then g\<lparr>bit_period := ktime_set T 0 (NSEC_PER_SEC div uint (baud (cfg g)))\<rparr> else g)"

section \<open>Proc and sysfs\<close>

definition gu_proc_show :: "gpio_uart \<Rightarrow> string" where
  "gu_proc_show g =
     ''gpio_uart stats:'' @ newline @
     '' tx_bytes:       '' @ dec (unat (tx_bytes (st g))) @ newline @
     '' rx_bytes:       '' @ dec (unat (rx_bytes (st g))) @ newline @
     '' framing_errors: '' @ dec (unat (framing_errors (st g))) @ newline @
     '' rx_errors:      '' @ dec (unat (rx_errors (st g))) @ newline @
     '' overrun_errors: '' @ dec (unat (overrun_errors (st g))) @ newline @
     '' baud:           '' @ dec (unat (baud (cfg g))) @ newline @
     '' parity:         '' @ dec (unat (parity (cfg g))) @ newline @
     '' stopbits:       '' @ dec (unat (stopbits (cfg g))) @ newline"

text \<open>\<open>kstrtoul\<close> is the kernel's parser of an \<^verbatim>\<open>unsigned long\<close>. A store returns the return value and
  the new state; \<open>None\<close> is a division by zero.\<close>

type_synonym kstrtoul = "string \<Rightarrow> int + u64"

definition baud_show :: "gpio_uart \<Rightarrow> string" where
  "baud_show g = dec (unat (baud (cfg g))) @ newline"

definition baud_store :: "ktime_api \<Rightarrow> kstrtoul \<Rightarrow> string \<Rightarrow> gpio_uart \<Rightarrow> (int \<times> gpio_uart) option" where
  "baud_store T kstrtoul buf g =
     (case kstrtoul buf of
        Inl _ \<Rightarrow> Some (- EINVAL, g)
      | Inr v \<Rightarrow>
          let g = g\<lparr>cfg := (cfg g)\<lparr>baud := (if v \<noteq> 0 then ucast v else baud (cfg g))\<rparr>\<rparr>
          in if baud (cfg g) = 0 then None
             else Some (int (length buf),
                        g\<lparr>bit_period := ktime_set T 0 (NSEC_PER_SEC div uint (baud (cfg g)))\<rparr>))"

definition parity_show :: "gpio_uart \<Rightarrow> string" where
  "parity_show g = dec (unat (parity (cfg g))) @ newline"

definition parity_store :: "kstrtoul \<Rightarrow> string \<Rightarrow> gpio_uart \<Rightarrow> int \<times> gpio_uart" where
  "parity_store kstrtoul buf g =
     (case kstrtoul buf of
        Inl _ \<Rightarrow> (- EINVAL, g)
      | Inr v \<Rightarrow> (int (length buf), g\<lparr>cfg := (cfg g)\<lparr>parity := ucast v\<rparr>\<rparr>))"

definition stop_show :: "gpio_uart \<Rightarrow> string" where
  "stop_show g = dec (unat (stopbits (cfg g))) @ newline"

definition stop_store :: "kstrtoul \<Rightarrow> string \<Rightarrow> gpio_uart \<Rightarrow> int \<times> gpio_uart" where
  "stop_store kstrtoul buf g =
     (case kstrtoul buf of
        Inl _ \<Rightarrow> (- EINVAL, g)
      | Inr v \<Rightarrow>
          if v < 1 \<or> v > 2 then (- EINVAL, g)
          else (int (length buf), g\<lparr>cfg := (cfg g)\<lparr>stopbits := ucast v\<rparr>\<rparr>))"

definition txen_show :: "gpio_uart \<Rightarrow> string" where
  "txen_show g = dec (of_bool (tx_enable (cfg g))) @ newline"

definition txen_store :: "kstrtoul \<Rightarrow> string \<Rightarrow> gpio_uart \<Rightarrow> int \<times> gpio_uart" where
  "txen_store kstrtoul buf g =
     (case kstrtoul buf of
        Inl _ \<Rightarrow> (- EINVAL, g)
      | Inr v \<Rightarrow> (int (length buf), g\<lparr>cfg := (cfg g)\<lparr>tx_enable := (v \<noteq> 0)\<rparr>\<rparr>))"

definition rxen_show :: "gpio_uart \<Rightarrow> string" where
  "rxen_show g = dec (of_bool (rx_enable (cfg g))) @ newline"

definition rxen_store :: "kstrtoul \<Rightarrow> string \<Rightarrow> gpio_uart \<Rightarrow> int \<times> gpio_uart" where
  "rxen_store kstrtoul buf g =
     (case kstrtoul buf of
        Inl _ \<Rightarrow> (- EINVAL, g)
      | Inr v \<Rightarrow> (int (length buf), g\<lparr>cfg := (cfg g)\<lparr>rx_enable := (v \<noteq> 0)\<rparr>\<rparr>))"

section \<open>Module init and exit\<close>

text \<open>What exit needs: the device and whether the proc entry and the kobject exist.\<close>

record gu_module =
  gm_uart :: gpio_uart
  gm_proc :: bool
  gm_kobj :: bool

definition gu_default :: "ktime_api \<Rightarrow> int \<Rightarrow> u32 \<Rightarrow> gpio_uart" where
  "gu_default T tx default_baud =
     (let b = (if default_baud = 0 then 9600 else default_baud)
      in \<lparr>gu_tx = tx,
          cfg = \<lparr>baud = b, parity = 0, stopbits = 1, invert = False, tx_enable = True,
                 rx_enable = True\<rparr>,
          st = \<lparr>tx_bytes = 0, rx_bytes = 0, framing_errors = 0, rx_errors = 0, overrun_errors = 0\<rparr>,
          bit_period = ktime_set T 0 (NSEC_PER_SEC div uint b),
          rx_busy = False, rx_byte = 0, rx_bitpos = 0\<rparr>)"

definition gpio_uart_init :: "ktime_api \<Rightarrow> int \<Rightarrow> int \<Rightarrow> u32 \<Rightarrow> kenv \<Rightarrow> (int \<times> gu_module) kprog" where
  "gpio_uart_init T tx_gpio rx_gpio default_baud E = do {
     let g = gu_default T tx_gpio default_baud;
     let m = \<lparr>gm_uart = g, gm_proc = False, gm_kobj = False\<rparr>;
     r \<leftarrow> kdo E (Kzalloc ''GU'');
     if r \<noteq> 0 then State_Monad.return (- ENOMEM, m)
     else if tx_gpio < 0 \<or> rx_gpio < 0 then do {
       _ \<leftarrow> kseq E [Kfree ''GU''];
       State_Monad.return (- EINVAL, m) } else do {
     tx \<leftarrow> kdo E (Gpio_to_desc tx_gpio);
     rx \<leftarrow> kdo E (Gpio_to_desc rx_gpio);
     if tx \<noteq> 0 \<or> rx \<noteq> 0 then do {
       _ \<leftarrow> kseq E [Kfree ''GU''];
       State_Monad.return (- EINVAL, m) } else do {
     ret \<leftarrow> kdo E (Gpiod_direction_output ''tx'' 1);
     if ret \<noteq> 0 then do {
       _ \<leftarrow> kseq E [Kfree ''GU''];
       State_Monad.return (ret, m) } else do {
     ret \<leftarrow> kdo E (Gpiod_direction_input ''rx'');
     if ret \<noteq> 0 then do {
       _ \<leftarrow> kseq E [Kfree ''GU''];
       State_Monad.return (ret, m) } else do {
     _ \<leftarrow> kdo E (Hrtimer_start ''rx'' (bit_period g));
     r \<leftarrow> kdo E Alloc_tty_driver;
     if r \<noteq> 0 then do {
       _ \<leftarrow> kseq E [Hrtimer_cancel ''rx'', Kfree ''GU''];
       State_Monad.return (- ENOMEM, m) } else do {
     ret \<leftarrow> kdo E Tty_register_driver;
     if ret \<noteq> 0 then do {
       _ \<leftarrow> kseq E [Put_tty_driver, Hrtimer_cancel ''rx'', Kfree ''GU''];
       State_Monad.return (ret, m) } else do {
     _ \<leftarrow> kdo E Tty_port_init;
     dev \<leftarrow> kdo E Tty_register_device;
     if dev \<noteq> 0 then do {
       _ \<leftarrow> kseq E [Tty_unregister_driver, Put_tty_driver, Hrtimer_cancel ''rx'', Kfree ''GU''];
       State_Monad.return (dev, m) } else do {
     p \<leftarrow> kdo E Proc_create;
     k \<leftarrow> kdo E Kobject_create;
     _ \<leftarrow> (if k = 0 then kseq E [Sysfs_create_group] else State_Monad.return ());
     State_Monad.return (0, m\<lparr>gm_proc := (p = 0), gm_kobj := (k = 0)\<rparr>) }}}}}}}}"

definition gpio_uart_exit :: "kenv \<Rightarrow> gu_module \<Rightarrow> unit kprog" where
  "gpio_uart_exit E m = do {
     _ \<leftarrow> (if gm_kobj m then kseq E [Sysfs_remove_group, Kobject_put] else State_Monad.return ());
     _ \<leftarrow> (if gm_proc m then kseq E [Proc_remove] else State_Monad.return ());
     _ \<leftarrow> kseq E [Hrtimer_cancel ''rx'', Tty_unregister_device, Tty_unregister_driver, Put_tty_driver,
                 Tty_port_destroy];
     _ \<leftarrow> kdo E (Gpiod_set_value ''tx'' (if invert (cfg (gm_uart m)) then 1 else 0));
     kseq E [Kfree ''GU''] }"

section \<open>What is sent\<close>

text \<open>The levels of one character under a configuration, before a possible inversion, and after.\<close>

definition gu_parity_level :: "u8 \<Rightarrow> u8 \<Rightarrow> int" where
  "gu_parity_level mode b = (if mode = 2 then of_bool (odd (popcount b)) else of_bool (even (popcount b)))"

definition gu_levels :: "gu_cfg \<Rightarrow> u8 \<Rightarrow> int list" where
  "gu_levels c b = 0 # data_levels b @ (if parity c \<noteq> 0 then [gu_parity_level (parity c) b] else []) @
     replicate (unat (stopbits c)) 1"

definition gu_inv :: "gu_cfg \<Rightarrow> int \<Rightarrow> int" where
  "gu_inv c v = (if invert c then 1 - v else v)"

definition gu_frame :: "gu_cfg \<Rightarrow> u8 \<Rightarrow> int list" where
  "gu_frame c b = map (gu_inv c) (gu_levels c b)"

definition hold :: "int \<Rightarrow> u32 \<Rightarrow> int \<Rightarrow> kact list" where
  "hold pin us v = [Gpio_set_value pin v, Udelay us]"

lemma gu_parity_level_01: "gu_parity_level m b = 0 \<or> gu_parity_level m b = 1"
  by (simp add: gu_parity_level_def)

lemma gu_levels_01: "v \<in> set (gu_levels c b) \<Longrightarrow> v = 0 \<or> v = 1"
  using gu_parity_level_01 [of "parity c" b]
  by (auto simp: gu_levels_def data_levels_def bit_level_of_bool split: if_splits)

lemma set_tx_level_01:
  "v = 0 \<or> v = 1 \<Longrightarrow> set_tx_level g v = Gpio_set_value (gu_tx g) (gu_inv (cfg g) v)"
  by (auto simp: set_tx_level_def gu_inv_def)

lemma parity_choice:
  "(if m = 2 then (if popcount b mod 2 \<noteq> 0 then 1 else 0) else (if popcount b mod 2 \<noteq> 0 then 0 else 1)) =
    gu_parity_level m b"
  by (auto simp: gu_parity_level_def even_iff_mod_2_eq_zero)

lemma uart_tx_byte_levels:
  assumes "tx_enable (cfg g)" and "baud (cfg g) \<noteq> 0"
  shows "uart_tx_byte g b = (g\<lparr>st := (st g)\<lparr>tx_bytes := tx_bytes (st g) + 1\<rparr>\<rparr>,
    concat (map (hold (gu_tx g) (1000000 div baud (cfg g))) (gu_frame (cfg g) b)))"
proof -
  have level: "[set_tx_level g v, Udelay us] = hold (gu_tx g) us (gu_inv (cfg g) v)"
    if "v = 0 \<or> v = 1" for v us
    using set_tx_level_01 [OF that] by (simp add: hold_def)
  have bits: "bit_level b i = 0 \<or> bit_level b i = 1" for i
    by (simp add: bit_level_of_bool)
  show ?thesis
    using assms unfolding uart_tx_byte_def Let_def parity_choice
    by (simp add: gu_frame_def gu_levels_def data_levels_def level [OF bits]
        level [OF gu_parity_level_01] level comp_def map_replicate_const)
qed

text \<open>Sending a list of bytes.\<close>

lemma gu_tx_bytes_levels:
  assumes "tx_enable (cfg g)" and "baud (cfg g) \<noteq> 0"
  shows "gu_tx_bytes g bs =
    (g\<lparr>st := (st g)\<lparr>tx_bytes := tx_bytes (st g) + of_nat (length bs)\<rparr>\<rparr>,
     concat (map (hold (gu_tx g) (1000000 div baud (cfg g))) (concat (map (gu_frame (cfg g)) bs))))"
  using assms
proof (induction bs arbitrary: g)
  case (Cons b bs)
  let ?g = "g\<lparr>st := (st g)\<lparr>tx_bytes := tx_bytes (st g) + 1\<rparr>\<rparr>"
  show ?case
    using Cons.IH [of ?g] Cons.prems by (simp add: uart_tx_byte_levels add.assoc)
qed simp

section \<open>What is received\<close>

text \<open>The bytes given to the tty layer.\<close>

fun delivered :: "kact list \<Rightarrow> u8 list" where
  "delivered [] = []"
| "delivered (Tty_flip_char b # as) = b # delivered as"
| "delivered (_ # as) = delivered as"

lemma delivered_append: "delivered (as @ bs) = delivered as @ delivered bs"
  by (induction as rule: delivered.induct) auto

text \<open>The callback on successive sampled levels.\<close>

fun gu_rx_run :: "ktime_api \<Rightarrow> bool \<Rightarrow> int list \<Rightarrow> gpio_uart \<Rightarrow> gpio_uart \<times> kact list" where
  "gu_rx_run T ini [] g = (g, [])"
| "gu_rx_run T ini (v # vs) g =
     (case gu_rx_timer_cb T ini v g of
        (_, g', as) \<Rightarrow> (case gu_rx_run T ini vs g' of (g'', as') \<Rightarrow> (g'', as @ as')))"

fun gather :: "nat \<Rightarrow> int list \<Rightarrow> u8 \<Rightarrow> u8" where
  "gather i [] x = x"
| "gather i (v # vs) x = gather (Suc i) vs (x OR of_int (push_bit i v))"

lemma bit_gather:
  assumes "\<forall>v \<in> set vs. v = 0 \<or> v = 1" and "j < 8"
  shows "bit (gather i vs x) j \<longleftrightarrow> bit x j \<or> i \<le> j \<and> j < i + length vs \<and> vs ! (j - i) = 1"
  using assms(1)
proof (induction vs arbitrary: i x)
  case (Cons v vs)
  have "bit (of_int (push_bit i v) :: u8) j \<longleftrightarrow> v = 1 \<and> i = j"
    using Cons.prems assms(2) by (auto simp: bit_simps bit_1_iff)
  moreover have "(v # vs) ! (j - i) = vs ! (j - Suc i)" if "Suc i \<le> j"
    using that by (simp add: nth_Cons')
  ultimately show ?case
    using Cons.IH [of "Suc i" "x OR of_int (push_bit i v)"] Cons.prems
    by (cases "j = i") (auto simp: bit_or_iff nth_Cons')
qed auto

lemma get_rx_level_upd [simp]:
  "get_rx_level (g\<lparr>rx_bitpos := p\<rparr>) = get_rx_level g"
  "get_rx_level (g\<lparr>rx_byte := x\<rparr>) = get_rx_level g"
  "get_rx_level (g\<lparr>rx_busy := y\<rparr>) = get_rx_level g"
  by (auto simp: get_rx_level_def)

lemma gu_rx_data:
  assumes "rx_enable (cfg g)" and "rx_busy g" and "rx_bitpos g = int i - 1" and "i + length vs = 8"
  shows "\<exists>as. gu_rx_run T ini (vs @ ws) g =
      (case gu_rx_run T ini ws (g\<lparr>rx_bitpos := 7, rx_byte := gather i (map (get_rx_level g) vs) (rx_byte g)\<rparr>)
       of (g', as') \<Rightarrow> (g', as @ as')) \<and> delivered as = []"
  using assms
proof (induction vs arbitrary: g i)
  case Nil
  then have "g\<lparr>rx_bitpos := 7, rx_byte := rx_byte g\<rparr> = g" by simp
  then show ?case by (intro exI [of _ "[]"]) simp
next
  case (Cons v vs)
  let ?g = "g\<lparr>rx_bitpos := int i, rx_byte := rx_byte g OR of_int (push_bit i (get_rx_level g v))\<rparr>"
  have "gu_rx_timer_cb T ini v g = (HRTIMER_RESTART, ?g, [Forward_timer ''rx'' (bit_period g)])"
    using Cons.prems by (simp add: gu_rx_timer_cb_def Let_def)
  moreover obtain as where "gu_rx_run T ini (vs @ ws) ?g =
      (case gu_rx_run T ini ws (?g\<lparr>rx_bitpos := 7,
          rx_byte := gather (Suc i) (map (get_rx_level ?g) vs) (rx_byte ?g)\<rparr>)
       of (g', as') \<Rightarrow> (g', as @ as'))" "delivered as = []"
    using Cons.IH [of ?g "Suc i"] Cons.prems by auto
  ultimately show ?case
    by (intro exI [of _ "Forward_timer ''rx'' (bit_period g) # as"]) (auto split: prod.splits)
qed

text \<open>The state after a character: \<open>b\<close> is the byte gathered, \<open>v\<close> the stop level.\<close>

definition gu_rx_done :: "gpio_uart \<Rightarrow> u8 \<Rightarrow> int \<Rightarrow> int \<Rightarrow> gpio_uart" where
  "gu_rx_done g b p v = g\<lparr>rx_busy := False, rx_bitpos := p, rx_byte := b,
     st := (if v = 1 then (st g)\<lparr>rx_bytes := rx_bytes (st g) + 1\<rparr>
            else (st g)\<lparr>framing_errors := framing_errors (st g) + 1\<rparr>)\<rparr>"

lemma gu_rx_character:
  assumes g: "rx_enable (cfg g)" "\<not> rx_busy g" and start: "get_rx_level g s = 0" and "length vs = 8"
    and ps: "length ps = (if parity (cfg g) \<noteq> 0 then 1 else 0)"
  shows "\<exists>as. gu_rx_run T ini (s # vs @ ps @ [v]) g =
      (gu_rx_done g (gather 0 (map (get_rx_level g) vs) 0) (8 + int (length ps)) (get_rx_level g v), as) \<and>
    delivered as =
      (if get_rx_level g v = 1 \<and> ini then [gather 0 (map (get_rx_level g) vs) 0] else [])"
proof -
  let ?b = "gather 0 (map (get_rx_level g) vs) 0"
  let ?busy = "g\<lparr>rx_busy := True, rx_bitpos := -1, rx_byte := 0\<rparr>"
  have "gu_rx_timer_cb T ini s g =
      (HRTIMER_RESTART, ?busy, [Forward_timer ''rx'' (ktime_divns T (bit_period g) 2)])"
    using g start by (simp add: gu_rx_timer_cb_def)
  moreover obtain as where "gu_rx_run T ini (vs @ ps @ [v]) ?busy =
      (case gu_rx_run T ini (ps @ [v]) (?busy\<lparr>rx_bitpos := 7, rx_byte := ?b\<rparr>) of
        (g', as') \<Rightarrow> (g', as @ as'))" "delivered as = []"
    using gu_rx_data [of ?busy 0 vs T ini "ps @ [v]"] g assms(4) by auto
  moreover have "\<exists>as'. gu_rx_run T ini (ps @ [v]) (?busy\<lparr>rx_bitpos := 7, rx_byte := b\<rparr>) =
      (gu_rx_done g b (8 + int (length ps)) (get_rx_level g v), as') \<and>
    delivered as' = (if get_rx_level g v = 1 \<and> ini then [b] else [])" for b
  proof (cases "parity (cfg g) = 0")
    case True
    with ps have "ps = []" by simp
    with True g show ?thesis
      by (cases g) (auto simp: gu_rx_timer_cb_def Let_def gu_rx_done_def get_rx_level_def)
  next
    case False
    with ps obtain p where "ps = [p]" by (auto simp: length_Suc_conv)
    with False g show ?thesis
      by (cases g) (auto simp: gu_rx_timer_cb_def Let_def gu_rx_done_def get_rx_level_def)
  qed
  note this [of ?b]
  ultimately show ?thesis
    by (auto simp: delivered_append)
qed

section \<open>When the samples are taken\<close>







section \<open>Frames and samples together\<close>

lemma get_rx_level_01: "v = 0 \<or> v = 1 \<Longrightarrow> get_rx_level g v = gu_inv (cfg g) v"
  by (auto simp: get_rx_level_def gu_inv_def)

lemma gu_inv_inv [simp]: "gu_inv c (gu_inv c v) = v"
  by (simp add: gu_inv_def)

lemma get_rx_level_inv: "v = 0 \<or> v = 1 \<Longrightarrow> get_rx_level g (gu_inv (cfg g) v) = v"
  by (auto simp: get_rx_level_def gu_inv_def)

lemma data_levels_01: "v \<in> set (data_levels b) \<Longrightarrow> v = 0 \<or> v = 1"
  by (auto simp: data_levels_def bit_level_of_bool)

lemma gather_data: "gather 0 (data_levels b) 0 = b"
  unfolding byte_eq_iff
proof
  fix i :: nat
  assume "i \<in> {0, 1, 2, 3, 4, 5, 6, 7}"
  then have i: "i < 8" by auto
  moreover have "\<forall>v \<in> set (data_levels b). v = 0 \<or> v = 1" using data_levels_01 by blast
  ultimately show "bit (gather 0 (data_levels b) 0) i = bit b i"
    by (simp add: bit_gather data_levels_def bit_level_of_bool)
qed


lemma gu_rx_idle:
  assumes "rx_enable (cfg g)" and "\<not> rx_busy g"
  shows "gu_rx_run T ini (replicate n (gu_inv (cfg g) 1)) g = (g, [])"
  using assms by (induction n) (simp_all add: gu_rx_timer_cb_def get_rx_level_inv)

text \<open>A frame of the same configuration, sampled once per bit.\<close>

lemma gu_rx_frame:
  assumes "rx_enable (cfg g)" and "\<not> rx_busy g" and "stopbits (cfg g) \<noteq> 0"
  shows "\<exists>g' as. gu_rx_run T ini (gu_frame (cfg g) b @ ws) g =
      (case gu_rx_run T ini ws g' of (g'', as') \<Rightarrow> (g'', as @ as')) \<and>
    delivered as = (if ini then [b] else []) \<and> \<not> rx_busy g' \<and> cfg g' = cfg g \<and>
    st g' = (st g)\<lparr>rx_bytes := rx_bytes (st g) + 1\<rparr>"
proof -
  let ?i = "gu_inv (cfg g)"
  define ps where "ps = (if parity (cfg g) \<noteq> 0 then [?i (gu_parity_level (parity (cfg g)) b)] else [])"
  obtain n where n: "unat (stopbits (cfg g)) = Suc n"
    using assms(3) by (metis not0_implies_Suc unat_eq_zero)
  have frame: "gu_frame (cfg g) b @ ws =
      (?i 0 # map ?i (data_levels b) @ ps @ [?i 1]) @ replicate n (?i 1) @ ws"
    by (simp add: gu_frame_def gu_levels_def ps_def n)
  have data: "map (get_rx_level g) (map ?i (data_levels b)) = data_levels b"
    by (auto intro!: map_idI get_rx_level_inv data_levels_01)
  let ?g = "gu_rx_done g b (8 + int (length ps)) 1"
  have ps: "length ps = (if parity (cfg g) \<noteq> 0 then 1 else 0)"
    by (simp add: ps_def)
  have "get_rx_level g (?i 0) = 0" "length (map ?i (data_levels b)) = 8" "get_rx_level g (?i 1) = 1"
    by (simp_all add: get_rx_level_inv)
  from gu_rx_character [OF assms(1,2) this(1,2) ps, of T ini "?i 1", unfolded data gather_data this(3)]
  obtain as where as: "gu_rx_run T ini (?i 0 # map ?i (data_levels b) @ ps @ [?i 1]) g = (?g, as)"
      "delivered as = (if ini then [b] else [])"
    by auto
  have app: "gu_rx_run T ini (xs @ ys) g = (case gu_rx_run T ini xs g of (g', as) \<Rightarrow>
      (case gu_rx_run T ini ys g' of (g'', as') \<Rightarrow> (g'', as @ as')))" for xs ys g
    by (induction xs arbitrary: g) (auto split: prod.splits)
  have "gu_rx_run T ini (replicate n (?i 1)) ?g = (?g, [])"
    using gu_rx_idle [of ?g T ini n] assms(1) by (simp add: gu_rx_done_def)
  then have "gu_rx_run T ini (gu_frame (cfg g) b @ ws) g =
      (case gu_rx_run T ini ws ?g of (g'', as') \<Rightarrow> (g'', as @ as'))"
    unfolding frame app by (simp add: as del: gu_rx_run.simps split: prod.splits)
  moreover have "\<not> rx_busy ?g \<and> cfg ?g = cfg g \<and> st ?g = (st g)\<lparr>rx_bytes := rx_bytes (st g) + 1\<rparr>"
    by (simp add: gu_rx_done_def)
  ultimately show ?thesis using as(2) by blast
qed

lemma gu_rx_frames:
  assumes "rx_enable (cfg g)" and "\<not> rx_busy g" and "stopbits (cfg g) \<noteq> 0"
  shows "\<exists>g' as. gu_rx_run T True (concat (map (gu_frame (cfg g)) bs)) g = (g', as) \<and>
    delivered as = bs \<and> \<not> rx_busy g' \<and> cfg g' = cfg g \<and>
    st g' = (st g)\<lparr>rx_bytes := rx_bytes (st g) + of_nat (length bs)\<rparr>"
  using assms
proof (induction bs arbitrary: g)
  case (Cons b bs)
  obtain g1 as1 where 1: "gu_rx_run T True (gu_frame (cfg g) b @ concat (map (gu_frame (cfg g)) bs)) g =
      (case gu_rx_run T True (concat (map (gu_frame (cfg g)) bs)) g1 of (g'', as') \<Rightarrow> (g'', as1 @ as'))"
      "delivered as1 = [b]" "\<not> rx_busy g1" "cfg g1 = cfg g"
      "st g1 = (st g)\<lparr>rx_bytes := rx_bytes (st g) + 1\<rparr>"
    using gu_rx_frame [OF Cons.prems, of T True b "concat (map (gu_frame (cfg g)) bs)"] by (auto simp only: if_True)
  obtain g2 as2 where "gu_rx_run T True (concat (map (gu_frame (cfg g)) bs)) g1 = (g2, as2)"
      "delivered as2 = bs" "\<not> rx_busy g2" "cfg g2 = cfg g1"
      "st g2 = (st g1)\<lparr>rx_bytes := rx_bytes (st g1) + of_nat (length bs)\<rparr>"
    using Cons.IH [of g1] Cons.prems 1(3,4) by auto
  with 1 show ?case
    by (auto simp: delivered_append)
qed simp

section \<open>Life cycle\<close>

text \<open>What set-up relies on: the calls whose failure it handles incompletely succeed.\<close>

definition gu_env :: "kenv \<Rightarrow> bool" where
  "gu_env E \<longleftrightarrow> (\<forall>tr. E tr Tty_register_device = 0) \<and> (\<forall>tr. E tr Sysfs_create_group = 0)"

interpretation gu_life: driver_lifecycle gu_env "gpio_uart_init T tx rx b" gpio_uart_exit
proof
  fix E H
  assume E: "gu_env E" and "quiet H"
  then have q: "R_timer t \<notin># H" for t by (simp add: quiet_def)
  have ans: "kdo E Tty_register_device = kans Tty_register_device 0"
    "kdo E Sysfs_create_group = kans Sysfs_create_group 0"
    using E by (auto simp: gu_env_def intro: kdo_known)
  show "kspec H (gpio_uart_init T tx rx b E) (\<lambda>(ret, m) H'. if ret = 0
      then kspec H' (gpio_uart_exit E m) (\<lambda>_ H''. H'' = H) else H' = H)"
    unfolding gpio_uart_init_def Let_def gpio_uart_exit_def
    by (auto simp: ans q ENOMEM_def EINVAL_def intro!: kspec_rules)
qed

lemma gu_init_leak:
  assumes "quiet H"
  shows "kspec H (gpio_uart_init T tx rx b E) (\<lambda>(ret, m) H'.
    ret \<noteq> 0 \<longrightarrow> H' = H \<or> H' = add_mset R_tty_port H)"
proof -
  have q: "R_timer t \<notin># H" for t using assms by (simp add: quiet_def)
  show ?thesis
    unfolding gpio_uart_init_def Let_def
    by (auto simp: q ENOMEM_def EINVAL_def intro!: kspec_rules)
qed

section \<open>Properties\<close>

text \<open>
  Property C19: transmission. With transmission enabled and a baud rate other than 0, \<^verbatim>\<open>write\<close> returns the
  number of bytes, counts them, and puts on the line, for every byte in order, the frame of the
  configuration: a start bit, eight data bits from the least significant, the parity bit of the
  chosen mode if any, and the chosen number of stop bits, inverted if so configured, each level held
  for \<open>1000000 / baud\<close> microseconds. Together with the parity bit the number of one bits is even in
  mode 2 and odd in the other modes.
\<close>

theorem gu_tty_write_frames:
  assumes "tx_enable (cfg g)" and "baud (cfg g) \<noteq> 0"
  shows "gu_tty_write g bs = (int (length bs),
      g\<lparr>st := (st g)\<lparr>tx_bytes := tx_bytes (st g) + of_nat (length bs)\<rparr>\<rparr>,
      concat (map (hold (gu_tx g) (1000000 div baud (cfg g))) (concat (map (gu_frame (cfg g)) bs)))) \<and>
    even (int (popcount b) + gu_parity_level m b) = (m = 2)"
  using gu_tx_bytes_levels [OF assms, of bs] assms(1)
  by (auto simp: gu_tty_write_def gu_parity_level_def)

definition sample_uart :: gpio_uart where
  "sample_uart = gu_default ktime_ns 17 9600"

lemma sample_uart_simps [simp]:
  "gu_tx sample_uart = 17" "bit_period sample_uart = 104166" "\<not> rx_busy sample_uart"
  "cfg sample_uart = \<lparr>baud = 9600, parity = 0, stopbits = 1, invert = False, tx_enable = True,
     rx_enable = True\<rparr>"
  by (simp_all add: sample_uart_def gu_default_def ktime_ns_def NSEC_PER_SEC_def)

theorem gu_tty_write_frames_witness:
  "\<exists>g' as. gu_tty_write sample_uart [65] = (1, g', as) \<and>
     as = concat (map (hold 17 104) [0, 1, 0, 0, 0, 0, 0, 1, 0, 1])"
proof -
  have "gu_frame (cfg sample_uart) 65 = [0, 1, 0, 0, 0, 0, 0, 1, 0, 1]" by code_simp
  moreover have "(1000000 :: u32) div 9600 = 104" by code_simp
  ultimately show ?thesis
    using gu_tty_write_frames [of sample_uart "[65]" 0 2] by simp
qed

text \<open>
  Property C11: the receiver decodes what the transmitter sends when each level is sampled once. For any
  configuration with a stop bit, the callback called once per bit of the frames of a list of bytes
  delivers exactly these bytes to the tty layer, in order, counts them and is idle again.
\<close>

theorem gu_frames_received:
  assumes "rx_enable (cfg g)" and "\<not> rx_busy g" and "stopbits (cfg g) \<noteq> 0"
  shows "\<exists>g' as. gu_rx_run T True (concat (map (gu_frame (cfg g)) bs)) g = (g', as) \<and>
    delivered as = bs \<and> \<not> rx_busy g' \<and> cfg g' = cfg g \<and>
    st g' = (st g)\<lparr>rx_bytes := rx_bytes (st g) + of_nat (length bs)\<rparr>"
  using assms by (rule gu_rx_frames)

theorem gu_frames_received_witness:
  "\<exists>g' as. gu_rx_run ktime_ns True (concat (map (gu_frame (cfg sample_uart)) [72, 105])) sample_uart =
     (g', as) \<and> delivered as = [72, 105] \<and> \<not> rx_busy g'"
  using gu_frames_received [of sample_uart ktime_ns "[72, 105]"] by auto



text \<open>
  \<^verbatim>\<open>set_termios\<close>. A baud rate that was not 0 stays different from 0, the bit period is the
  one of the new rate, and the frame format is that of the flags: \<^verbatim>\<open>PARENB\<close> (bit 8) adds a parity bit,
  odd if \<^verbatim>\<open>PARODD\<close> (bit 9) is set, and \<^verbatim>\<open>CSTOPB\<close> (bit 6) a second stop bit.
\<close>

theorem gu_set_termios_format:
  assumes "baud (cfg g) \<noteq> 0" and "\<And>n. ktime_set T 0 n = n"
  shows "let g' = gu_set_termios T rate cflag g in
    baud (cfg g') = (if rate = 0 then baud (cfg g) else rate) \<and> baud (cfg g') \<noteq> 0 \<and>
    bit_period g' = 1000000000 div uint (baud (cfg g')) \<and>
    parity (cfg g') = (if bit cflag 8 then if bit cflag 9 then 1 else 2 else 0) \<and>
    length (gu_frame (cfg g') b) = 10 + of_bool (bit cflag 8) + of_bool (bit cflag 6) \<and>
    st g' = st g"
proof -
  have mask: "cflag AND 256 \<noteq> 0 \<longleftrightarrow> bit cflag 8" "cflag AND 512 \<noteq> 0 \<longleftrightarrow> bit cflag 9"
    "cflag AND 64 \<noteq> 0 \<longleftrightarrow> bit cflag 6"
    using and_exp_eq_0_iff_not_bit [of cflag 8] and_exp_eq_0_iff_not_bit [of cflag 9]
      and_exp_eq_0_iff_not_bit [of cflag 6] by simp_all
  show ?thesis
    using assms
    by (simp add: gu_set_termios_def Let_def PARENB_def PARODD_def CSTOPB_def NSEC_PER_SEC_def mask
        gu_frame_def gu_levels_def)
qed

theorem gu_set_termios_format_witness:
  "length (gu_frame (cfg (gu_set_termios ktime_ns 115200 (256 OR 64) sample_uart)) 7) = 12"
  using gu_set_termios_format [of sample_uart ktime_ns 115200 "256 OR 64" 7]
  by (simp add: ktime_ns_def Let_def bit_simps)

text \<open>
  Storing the baud rate. The division by the new rate is a division by zero exactly for
  the values different from 0 whose low 32 bits are 0, because the parsed \<^verbatim>\<open>unsigned long\<close> is tested before it
  is truncated to the \<^verbatim>\<open>unsigned int\<close> of the configuration. Every other value sets the rate and the bit
  period, 0 leaves the rate alone, and a text that does not parse changes nothing.
\<close>

theorem gu_baud_store:
  assumes "baud (cfg g) \<noteq> 0"
  shows "(\<forall>v. kstrtoul buf = Inr v \<longrightarrow>
      (baud_store T kstrtoul buf g = None \<longleftrightarrow> v \<noteq> 0 \<and> unat v mod 2 ^ 32 = 0) \<and>
      (unat v mod 2 ^ 32 \<noteq> 0 \<or> v = 0 \<longrightarrow>
        (let r = (if v = 0 then baud (cfg g) else of_nat (unat v mod 2 ^ 32)) in
         baud_store T kstrtoul buf g = Some (int (length buf),
           g\<lparr>cfg := (cfg g)\<lparr>baud := r\<rparr>, bit_period := ktime_set T 0 (1000000000 div uint r)\<rparr>)))) \<and>
    (\<forall>e. kstrtoul buf = Inl e \<longrightarrow> baud_store T kstrtoul buf g = Some (- EINVAL, g))"
proof -
  have trunc: "(ucast v :: u32) = of_nat (unat v mod 2 ^ 32)" for v :: u64
  proof -
    have "unat (ucast v :: u32) = unat v mod 2 ^ 32"
      by (simp add: unsigned_ucast_eq take_bit_eq_mod)
    then show ?thesis by (metis of_nat_unat ucast_id)
  qed
  have zero: "(of_nat (n mod 4294967296) :: u32) = 0 \<longleftrightarrow> n mod 4294967296 = 0" for n
    by (simp add: word_of_nat_eq_0_iff dvd_eq_mod_eq_0)
  show ?thesis
    using assms by (auto simp: baud_store_def Let_def trunc zero NSEC_PER_SEC_def)
qed

theorem gu_baud_store_witness:
  "baud_store ktime_ns (\<lambda>_. Inr 4294967296) ''4294967296'' sample_uart = None"
  using gu_baud_store [of sample_uart "\<lambda>_. Inr 4294967296" "''4294967296''" ktime_ns] by simp

text \<open>
  Init and exit are balanced for every kernel in which registering the tty device and
  creating the attribute group succeed. Without that assumption, a failing init leaves at most the
  initialised tty port behind, which the error path does not destroy.
\<close>

theorem gu_module_lifecycle:
  "balanced gu_env (gpio_uart_init T tx rx b) gpio_uart_exit \<and>
   (quiet H \<longrightarrow> held tr = Some H \<longrightarrow> run_state (gpio_uart_init T tx rx b E) tr = ((ret, m), tr') \<longrightarrow>
    ret \<noteq> 0 \<longrightarrow> held tr' = Some H \<or> held tr' = Some (add_mset R_tty_port H))"
  using gu_life.balanced [of T tx rx b] kspecD [OF gu_init_leak, of H tr T tx rx b E "(ret, m)" tr']
  by auto

theorem gu_module_lifecycle_witness:
  "held (snd (run_state (gpio_uart_init ktime_ns (- 1) 27 9600 (\<lambda>_ _. 0)) [])) = Some {#} \<or>
   held (snd (run_state (gpio_uart_init ktime_ns (- 1) 27 9600 (\<lambda>_ _. 0)) [])) = Some {#R_tty_port#}"
proof -
  obtain ret m tr' where run:
    "run_state (gpio_uart_init ktime_ns (- 1) 27 9600 (\<lambda>_ _. 0)) [] = ((ret, m), tr')"
    by (metis surj_pair)
  then have "ret = - EINVAL"
    by (auto simp: gpio_uart_init_def Let_def kdo_def State_Monad.bind_def State_Monad.return_def)
  then have "ret \<noteq> 0" by (simp add: EINVAL_def)
  then show ?thesis
    using gu_module_lifecycle [of ktime_ns "- 1" 27 9600 "{#}" "[]" "\<lambda>_ _. 0" ret m tr'] run
    by (simp add: quiet_def held_def)
qed

end
