(* ===== verification/Gpio_Uart_Machine.thy ===== *)
theory Gpio_Uart_Machine
  imports Gpio_Uart_Tty
begin

text \<open>
  The GPIO UART of \<^verbatim>\<open>gpio_uart_tty.c\<close> as a machine: the receive timer, writes, termios calls and stores to
  the attributes in any order. A callback, a write and a store are one step each; the code takes a lock only
  in the callback, and a write touches nothing that the callback uses.

  The kernel's timer is its expiry time: the callback can run once that time has come, \<^verbatim>\<open>hrtimer_forward_now\<close>
  moves it, and returning \<open>HRTIMER_RESTART\<close> keeps the timer as it is.
\<close>

record gu_world =
  gw_uart :: gpio_uart
  gw_now :: int
  gw_expires :: "int option"
  gw_out :: "u8 list"
  gw_sent :: nat
  gw_frames :: nat
  gw_age :: nat

text \<open>The last three count the bytes written, the frames received, and the callbacks in the present frame.\<close>

datatype gu_step =
    Rx_timer int bool | Tick nat | Write "u8 list" | Termios u32 u32
  | Store_baud string | Store_parity string | Store_stop string | Store_txen string | Store_rxen string

text \<open>\<open>fwd now expires interval\<close> is the new expiry time of the kernel's function.\<close>

definition forwarded :: "(int \<Rightarrow> int \<Rightarrow> int \<Rightarrow> int) \<Rightarrow> int \<Rightarrow> kact list \<Rightarrow> int \<Rightarrow> int" where
  "forwarded fwd now = fold (\<lambda>a e. case a of Forward_timer _ i \<Rightarrow> fwd now e i | _ \<Rightarrow> e)"

definition rx_step :: "ktime_api \<Rightarrow> (int \<Rightarrow> int \<Rightarrow> int \<Rightarrow> int) \<Rightarrow> int \<Rightarrow> bool \<Rightarrow> gu_world \<Rightarrow> gu_world option" where
  "rx_step T fwd v initialized w =
     (case gw_expires w of
        None \<Rightarrow> None
      | Some e \<Rightarrow>
          if gw_now w < e then None
          else (case gu_rx_timer_cb T initialized v (gw_uart w) of
             (r, g, as) \<Rightarrow>
               Some (w\<lparr>gw_uart := g,
                 gw_expires := (if r = HRTIMER_RESTART then Some (forwarded fwd (gw_now w) as e) else None),
                 gw_out := gw_out w @ delivered as,
                 gw_frames := gw_frames w + (if rx_busy (gw_uart w) \<and> \<not> rx_busy g then 1 else 0),
                 gw_age := (if \<not> rx_busy (gw_uart w) then 0 else if r = HRTIMER_RESTART then gw_age w + 1 else gw_age w)\<rparr>)))"

definition gu_step_fun :: "ktime_api \<Rightarrow> (int \<Rightarrow> int \<Rightarrow> int \<Rightarrow> int) \<Rightarrow> kstrtoul \<Rightarrow> gu_step \<Rightarrow> gu_world \<Rightarrow> gu_world option" where
  "gu_step_fun T fwd kstrtoul a w =
     (case a of
        Rx_timer v initialized \<Rightarrow> rx_step T fwd v initialized w
      | Tick n \<Rightarrow> Some (w\<lparr>gw_now := gw_now w + int n\<rparr>)
      | Write bs \<Rightarrow>
          (case gu_tty_write (gw_uart w) bs of
             (ret, g, as) \<Rightarrow> Some (w\<lparr>gw_uart := g, gw_sent := gw_sent w + nat ret\<rparr>))
      | Termios rate cflag \<Rightarrow> Some (w\<lparr>gw_uart := gu_set_termios T rate cflag (gw_uart w)\<rparr>)
      | Store_baud buf \<Rightarrow>
          map_option (\<lambda>(ret, g). w\<lparr>gw_uart := g\<rparr>) (baud_store T kstrtoul buf (gw_uart w))
      | Store_parity buf \<Rightarrow> Some (w\<lparr>gw_uart := snd (parity_store kstrtoul buf (gw_uart w))\<rparr>)
      | Store_stop buf \<Rightarrow> Some (w\<lparr>gw_uart := snd (stop_store kstrtoul buf (gw_uart w))\<rparr>)
      | Store_txen buf \<Rightarrow> Some (w\<lparr>gw_uart := snd (txen_store kstrtoul buf (gw_uart w))\<rparr>)
      | Store_rxen buf \<Rightarrow> Some (w\<lparr>gw_uart := snd (rxen_store kstrtoul buf (gw_uart w))\<rparr>))"

fun gu_run :: "ktime_api \<Rightarrow> (int \<Rightarrow> int \<Rightarrow> int \<Rightarrow> int) \<Rightarrow> kstrtoul \<Rightarrow> gu_step list \<Rightarrow> gu_world \<Rightarrow> gu_world option" where
  "gu_run T fwd ks [] w = Some w"
| "gu_run T fwd ks (a # as) w = Option.bind (gu_step_fun T fwd ks a w) (gu_run T fwd ks as)"

text \<open>The device after \<^verbatim>\<open>gpio_uart_init\<close> at time \<open>t\<close>.\<close>

definition gu_boot :: "ktime_api \<Rightarrow> int \<Rightarrow> u32 \<Rightarrow> int \<Rightarrow> gu_world" where
  "gu_boot T tx default_baud t =
     \<lparr>gw_uart = gu_default T tx default_baud, gw_now = t,
      gw_expires = Some (t + bit_period (gu_default T tx default_baud)),
      gw_out = [], gw_sent = 0, gw_frames = 0, gw_age = 0\<rparr>"

section \<open>The invariant\<close>















section \<open>The timer\<close>


text \<open>A callback that finds the line idle leaves everything as it is.\<close>

lemma rx_step_idle:
  assumes "gw_expires w = Some e" and "e \<le> gw_now w" and "rx_enable (cfg (gw_uart w))"
    and "\<not> rx_busy (gw_uart w)" and "get_rx_level (gw_uart w) v \<noteq> 0"
  shows "rx_step T fwd v i w = Some (w\<lparr>gw_age := 0\<rparr>)"
  using assms by (simp add: rx_step_def gu_rx_timer_cb_def forwarded_def)

text \<open>A dead timer stays dead, and nothing is received.\<close>

lemma dead_step:
  assumes "gw_expires w = None" and "gu_step_fun T fwd ks a w = Some w'"
  shows "gw_expires w' = None \<and> gw_out w' = gw_out w \<and> gw_frames w' = gw_frames w"
  using assms by (cases a) (auto simp: gu_step_fun_def rx_step_def split: prod.splits)

lemma dead_run:
  "gu_run T fwd ks as w = Some w' \<Longrightarrow> gw_expires w = None \<Longrightarrow>
   gw_expires w' = None \<and> gw_out w' = gw_out w \<and> gw_frames w' = gw_frames w"
proof (induction as arbitrary: w)
  case (Cons a as)
  then obtain w1 where w1: "gu_step_fun T fwd ks a w = Some w1" "gu_run T fwd ks as w1 = Some w'"
    by (auto simp: bind_eq_Some_conv)
  with dead_step [OF Cons.prems(2) w1(1)] Cons.IH [OF w1(2)] show ?case by simp
qed simp

text \<open>
  Property C16: the receive timer, once its time has come. A callback moves the expiry time exactly if it
  leaves the receiver in a frame: by half a bit period after a start bit and by a bit period within the frame. So
  on an idle line the callback runs again and again at the same time, any number of times. And
  if it runs while reception is disabled, the timer is dead: whatever happens afterwards, also if
  reception is enabled again, it never runs and nothing is received until the module is loaded again.
\<close>

theorem gu_timer_traps:
  assumes "gw_expires w = Some e" and "e \<le> gw_now w"
  shows "(rx_enable (cfg (gw_uart w)) \<longrightarrow>
      (\<exists>w'. gu_step_fun T fwd ks (Rx_timer v i) w = Some w' \<and>
        gw_expires w' = Some (
          if rx_busy (gw_uart w')
          then fwd (gw_now w) e (if rx_busy (gw_uart w) then bit_period (gw_uart w)
                                 else ktime_divns T (bit_period (gw_uart w)) 2)
          else e))) \<and>
    (rx_enable (cfg (gw_uart w)) \<and> \<not> rx_busy (gw_uart w) \<and> get_rx_level (gw_uart w) v \<noteq> 0 \<longrightarrow>
      (\<forall>n. gu_run T fwd ks (replicate n (Rx_timer v i)) w = Some (w\<lparr>gw_age := if n = 0 then gw_age w else 0\<rparr>))) \<and>
    (\<not> rx_enable (cfg (gw_uart w)) \<longrightarrow>
      (\<forall>as w'. gu_run T fwd ks (Rx_timer v i # as) w = Some w' \<longrightarrow>
        gw_expires w' = None \<and> gw_out w' = gw_out w \<and> gw_frames w' = gw_frames w))"
proof (intro conjI impI allI)
  assume "rx_enable (cfg (gw_uart w))"
  then show "\<exists>w'. gu_step_fun T fwd ks (Rx_timer v i) w = Some w' \<and>
        gw_expires w' = Some (
          if rx_busy (gw_uart w')
          then fwd (gw_now w) e (if rx_busy (gw_uart w) then bit_period (gw_uart w)
                                 else ktime_divns T (bit_period (gw_uart w)) 2)
          else e)"
    using assms by (auto simp: gu_step_fun_def rx_step_def gu_rx_timer_cb_def forwarded_def Let_def)
next
  fix n
  assume idle: "rx_enable (cfg (gw_uart w)) \<and> \<not> rx_busy (gw_uart w) \<and> get_rx_level (gw_uart w) v \<noteq> 0"
  show "gu_run T fwd ks (replicate n (Rx_timer v i)) w = Some (w\<lparr>gw_age := if n = 0 then gw_age w else 0\<rparr>)"
    using assms idle
  proof (induction n arbitrary: w)
    case (Suc n)
    from Suc.IH [of "w\<lparr>gw_age := 0\<rparr>"] Suc.prems show ?case
      by (simp add: gu_step_fun_def rx_step_idle)
  qed simp
next
  fix as w'
  assume off: "\<not> rx_enable (cfg (gw_uart w))" and run: "gu_run T fwd ks (Rx_timer v i # as) w = Some w'"
  from off assms have "gu_step_fun T fwd ks (Rx_timer v i) w = Some (w\<lparr>gw_expires := None,
      gw_age := (if rx_busy (gw_uart w) then gw_age w else 0)\<rparr>)"
    by (simp add: gu_step_fun_def rx_step_def gu_rx_timer_cb_def)
  with dead_run [of T fwd ks as] run
  show "gw_expires w' = None" "gw_out w' = gw_out w" "gw_frames w' = gw_frames w"
    by fastforce+
qed

text \<open>Concrete runs: a parser that reads the two texts used, and a timer that is moved one interval ahead of now.\<close>

definition bool_parser :: kstrtoul where
  "bool_parser s = (if s = ''0'' then Inr 0 else if s = ''1'' then Inr 1 else Inl 22)"



theorem gu_timer_traps_witness:
  "(let w = gu_boot ktime_ns 17 9600 0\<lparr>gw_now := 200000\<rparr> in
     gu_run ktime_ns (\<lambda>now e i. now + i) bool_parser (replicate 1000 (Rx_timer 1 True)) w = Some w) \<and>
   (let g = sample_uart\<lparr>cfg := (cfg sample_uart)\<lparr>rx_enable := False\<rparr>\<rparr>;
        w = gu_boot ktime_ns 17 9600 0\<lparr>gw_now := 200000, gw_uart := g\<rparr> in
    \<forall>as w'. gu_run ktime_ns (\<lambda>now e i. now + i) bool_parser (Rx_timer 1 True # Store_rxen ''1'' # as) w = Some w' \<longrightarrow>
      gw_out w' = [])"
proof -
  have exp: "gw_expires (gu_boot ktime_ns 17 9600 0) = Some 104166" "gw_age (gu_boot ktime_ns 17 9600 0) = 0"
    "gw_out (gu_boot ktime_ns 17 9600 0) = []" "gw_uart (gu_boot ktime_ns 17 9600 0) = sample_uart"
    by (simp_all add: gu_boot_def flip: sample_uart_def)
  show ?thesis
    using gu_timer_traps [of "gu_boot ktime_ns 17 9600 0\<lparr>gw_now := 200000\<rparr>" 104166 ktime_ns "\<lambda>now e i. now + i"
        bool_parser 1 True]
      gu_timer_traps [of "gu_boot ktime_ns 17 9600 0\<lparr>gw_now := 200000,
          gw_uart := sample_uart\<lparr>cfg := (cfg sample_uart)\<lparr>rx_enable := False\<rparr>\<rparr>\<rparr>" 104166 ktime_ns "\<lambda>now e i. now + i"
        bool_parser 1 True]
    by (simp add: exp get_rx_level_def)
qed

end
