(* ===== verification/Gpio_Uart_Gpiod.thy ===== *)
theory Gpio_Uart_Gpiod
  imports Tx_Ring Kernel_Trace
begin

text \<open>
  The variant \<^verbatim>\<open>openwrt/kernel/soft_uart/gpt/gpio_uart_tty_gpiod.c\<close> of the TTY driver: \<^verbatim>\<open>write\<close> puts
  the bytes into a ring buffer, and reception differs from \<^verbatim>\<open>gpio_uart_tty.c\<close> in the handling of the
  parity bit. The ring is that of theory \<open>Tx_Ring\<close>, embedded in the device as in the source. Nothing
  in the file calls \<^verbatim>\<open>tx_ring_get\<close> or \<^verbatim>\<open>uart_tx_byte\<close>.
\<close>

section \<open>State\<close>

record gd_cfg =
  gd_baud :: u32
  gd_parity :: u8
  gd_stopbits :: u8
  gd_tx_enable :: bool
  gd_rx_enable :: bool

record gd_stats =
  gd_tx_bytes :: u64
  gd_rx_bytes :: u64
  gd_framing_errors :: u64
  gd_rx_errors :: u64

record gd_uart =
  gd_tx :: int
  gd_cfg :: gd_cfg
  gd_st :: gd_stats
  gd_bit_period :: int
  gd_rx_busy :: bool
  gd_rx_byte :: u8
  gd_rx_bitpos :: int
  gd_tx_ring :: tx_ring

section \<open>Operations\<close>

definition gd_tx_ring_init :: "gd_uart \<Rightarrow> gd_uart" where
  "gd_tx_ring_init gu = gu\<lparr>gd_tx_ring := tx_ring_init (gd_tx_ring gu)\<rparr>"

definition gd_tx_ring_put :: "gd_uart \<Rightarrow> u8 \<Rightarrow> bool \<times> gd_uart" where
  "gd_tx_ring_put gu byte =
     (case tx_ring_put (gd_tx_ring gu) byte of (ok, r) \<Rightarrow> (ok, gu\<lparr>gd_tx_ring := r\<rparr>))"

definition gd_tx_ring_get :: "gd_uart \<Rightarrow> u8 option \<times> gd_uart" where
  "gd_tx_ring_get gu =
     (case tx_ring_get (gd_tx_ring gu) of (b, r) \<Rightarrow> (b, gu\<lparr>gd_tx_ring := r\<rparr>))"

definition gd_uart_tx_byte :: "gd_uart \<Rightarrow> u8 \<Rightarrow> gd_uart \<times> kact list" where
  "gd_uart_tx_byte g b =
     (if \<not> gd_tx_enable (gd_cfg g) \<or> gd_baud (gd_cfg g) = 0 then (g, [])
      else
        let bit_us = 1000000 div gd_baud (gd_cfg g);
            out = (\<lambda>v. [Gpio_set_value (gd_tx g) v, Udelay bit_us]);
            pop = popcount b mod 2;
            pbit = (if gd_parity (gd_cfg g) = 2 then (if pop \<noteq> 0 then 1 else 0)
                    else (if pop \<noteq> 0 then 0 else 1))
        in (g\<lparr>gd_st := (gd_st g)\<lparr>gd_tx_bytes := gd_tx_bytes (gd_st g) + 1\<rparr>\<rparr>,
            out 0 @ concat (map (\<lambda>i. out (bit_level b i)) [0..<8]) @
            (if gd_parity (gd_cfg g) \<noteq> 0 then out pbit else []) @
            concat (replicate (unat (gd_stopbits (gd_cfg g))) (out 1))))"

definition gd_rx_timer_cb :: "ktime_api \<Rightarrow> bool \<Rightarrow> int \<Rightarrow> gd_uart \<Rightarrow>
    hrtimer_restart \<times> gd_uart \<times> kact list" where
  "gd_rx_timer_cb T initialized v g =
     (if \<not> gd_rx_enable (gd_cfg g) then (HRTIMER_RESTART, g, [])
      else if \<not> gd_rx_busy g then
        (if v = 0
         then (HRTIMER_RESTART, g\<lparr>gd_rx_busy := True, gd_rx_bitpos := -1, gd_rx_byte := 0\<rparr>,
               [Forward_timer ''rx'' (ktime_divns T (gd_bit_period g) 2)])
         else (HRTIMER_RESTART, g, [Forward_timer ''rx'' (gd_bit_period g)]))
      else
        let g = g\<lparr>gd_rx_bitpos := gd_rx_bitpos g + 1\<rparr>
        in if gd_rx_bitpos g \<ge> 0 \<and> gd_rx_bitpos g < 8 then
             (HRTIMER_RESTART,
              g\<lparr>gd_rx_byte := gd_rx_byte g OR of_int (push_bit (nat (gd_rx_bitpos g)) v)\<rparr>,
              [Forward_timer ''rx'' (gd_bit_period g)])
           else if gd_rx_bitpos g \<ge> 8 + (if gd_parity (gd_cfg g) \<noteq> 0 then 1 else 0) then
             (if v \<noteq> 1
              then (HRTIMER_RESTART,
                    g\<lparr>gd_st := (gd_st g)\<lparr>gd_framing_errors := gd_framing_errors (gd_st g) + 1\<rparr>,
                      gd_rx_busy := False\<rparr>, [])
              else if initialized
              then (HRTIMER_RESTART,
                    g\<lparr>gd_st := (gd_st g)\<lparr>gd_rx_bytes := gd_rx_bytes (gd_st g) + 1\<rparr>,
                      gd_rx_busy := False\<rparr>,
                    [Tty_flip_char (gd_rx_byte g), Tty_flip_push])
              else (HRTIMER_RESTART, g\<lparr>gd_rx_busy := False\<rparr>, []))
           else (HRTIMER_RESTART, g\<lparr>gd_rx_busy := False\<rparr>, []))"

definition gd_tty_open :: "int \<Rightarrow> int \<times> bool" where
  "gd_tty_open ret = (if ret \<noteq> 0 then (ret, False) else (0, True))"

fun gd_put_all :: "gd_uart \<Rightarrow> u8 list \<Rightarrow> gd_uart" where
  "gd_put_all g [] = g"
| "gd_put_all g (b # bs) = gd_put_all (snd (gd_tx_ring_put g b)) bs"

definition gd_tty_write :: "gd_uart \<Rightarrow> u8 list \<Rightarrow> int \<times> gd_uart" where
  "gd_tty_write g buf = (int (length buf), gd_put_all g buf)"

definition gd_tty_write_room :: int where "gd_tty_write_room = 4096"

text \<open>\<open>parenb\<close>, \<open>parodd\<close> and \<open>cstopb\<close> are the tests of the flags in \<^verbatim>\<open>c_cflag\<close>.\<close>

definition gd_set_termios :: "ktime_api \<Rightarrow> u32 \<Rightarrow> bool \<Rightarrow> bool \<Rightarrow> bool \<Rightarrow> gd_uart \<Rightarrow> gd_uart" where
  "gd_set_termios T rate parenb parodd cstopb g =
     (let baud_new = (if rate = 0 then gd_baud (gd_cfg g) else rate);
          g = g\<lparr>gd_cfg := (gd_cfg g)\<lparr>gd_baud := baud_new,
                 gd_parity := (if parenb then (if parodd then 1 else 2) else 0),
                 gd_stopbits := (if cstopb then 2 else 1)\<rparr>\<rparr>
      in if gd_baud (gd_cfg g) \<noteq> 0
         then g\<lparr>gd_bit_period := ktime_set T 0 (1000000000 div uint (gd_baud (gd_cfg g)))\<rparr> else g)"

definition gd_proc_show :: "gd_uart \<Rightarrow> string" where
  "gd_proc_show g =
     ''tx_bytes: '' @ dec (unat (gd_tx_bytes (gd_st g))) @ newline @
     ''rx_bytes: '' @ dec (unat (gd_rx_bytes (gd_st g))) @ newline @
     ''framing_errors: '' @ dec (unat (gd_framing_errors (gd_st g))) @ newline @
     ''baud: '' @ dec (unat (gd_baud (gd_cfg g))) @ newline @
     ''parity: '' @ dec (unat (gd_parity (gd_cfg g))) @ newline @
     ''stopbits: '' @ dec (unat (gd_stopbits (gd_cfg g))) @ newline"

definition gd_baud_show :: "gd_uart \<Rightarrow> string" where
  "gd_baud_show g = dec (unat (gd_baud (gd_cfg g))) @ newline"

text \<open>\<open>None\<close> is a division by zero.\<close>

definition gd_baud_store :: "ktime_api \<Rightarrow> (string \<Rightarrow> int + u64) \<Rightarrow> string \<Rightarrow> gd_uart \<Rightarrow>
    (int \<times> gd_uart) option" where
  "gd_baud_store T kstrtoul buf g =
     (case kstrtoul buf of
        Inl _ \<Rightarrow> Some (- EINVAL, g)
      | Inr v \<Rightarrow>
          let g = g\<lparr>gd_cfg := (gd_cfg g)\<lparr>gd_baud := (if v \<noteq> 0 then ucast v else gd_baud (gd_cfg g))\<rparr>\<rparr>
          in if gd_baud (gd_cfg g) = 0 then None
             else Some (int (length buf),
               g\<lparr>gd_bit_period := ktime_set T 0 (1000000000 div uint (gd_baud (gd_cfg g)))\<rparr>))"

section \<open>Module init and exit\<close>

text \<open>\<open>None\<close> is a crash: a division by zero for a default rate of 0, or a \<^verbatim>\<open>NULL\<close> tty driver, which the
  code does not test. The flags tell exit whether the proc entry and the kobject exist.\<close>

definition gd_init :: "ktime_api \<Rightarrow> u32 \<Rightarrow> kenv \<Rightarrow> (int \<times> bool \<times> bool) option kprog" where
  "gd_init T default_baud E = do {
     r \<leftarrow> kdo E (Kzalloc ''GU'');
     if r \<noteq> 0 then State_Monad.return (Some (- ENOMEM, False, False))
     else if default_baud = 0 then State_Monad.return None else do {
     _ \<leftarrow> kdo E (Hrtimer_start ''rx'' (ktime_set T 0 (1000000000 div uint default_baud)));
     r \<leftarrow> kdo E Alloc_tty_driver;
     if r \<noteq> 0 then State_Monad.return None else do {
     ret \<leftarrow> kdo E Tty_register_driver;
     if ret \<noteq> 0 then State_Monad.return (Some (ret, False, False)) else do {
     _ \<leftarrow> kdo E Tty_port_init;
     dev \<leftarrow> kdo E Tty_register_device;
     if dev \<noteq> 0 then State_Monad.return (Some (dev, False, False)) else do {
     p \<leftarrow> kdo E Proc_create;
     k \<leftarrow> kdo E Kobject_create;
     _ \<leftarrow> (if k = 0 then kseq E [Sysfs_create_group] else State_Monad.return ());
     State_Monad.return (Some (0, p = 0, k = 0)) }}}}}"

definition gd_exit :: "kenv \<Rightarrow> bool \<Rightarrow> bool \<Rightarrow> unit kprog" where
  "gd_exit E proc kobj = do {
     _ \<leftarrow> (if kobj then kseq E [Sysfs_remove_group, Kobject_put] else State_Monad.return ());
     _ \<leftarrow> (if proc then kseq E [Proc_remove] else State_Monad.return ());
     kseq E [Hrtimer_cancel ''rx'', Tty_unregister_device, Tty_unregister_driver, Put_tty_driver,
             Tty_port_destroy, Kfree ''GU''] }"

section \<open>Reception with a parity bit\<close>

fun gd_rx_run :: "ktime_api \<Rightarrow> bool \<Rightarrow> int list \<Rightarrow> gd_uart \<Rightarrow> gd_uart \<times> kact list" where
  "gd_rx_run T ini [] g = (g, [])"
| "gd_rx_run T ini (v # vs) g =
     (case gd_rx_timer_cb T ini v g of
        (_, g', as) \<Rightarrow> (case gd_rx_run T ini vs g' of (g'', as') \<Rightarrow> (g'', as @ as')))"

text \<open>Between calls the position is at most 7 while a character is under way.\<close>

definition gd_rx_ok :: "gd_uart \<Rightarrow> bool" where
  "gd_rx_ok g \<longleftrightarrow> (gd_rx_busy g \<longrightarrow> gd_rx_bitpos g \<in> {-1..7})"

lemma gd_rx_parity_step:
  assumes "gd_parity (gd_cfg g) \<noteq> 0" and "gd_rx_ok g" and "gd_rx_timer_cb T ini v g = (ret, g', as)"
  shows "gd_rx_ok g' \<and> gd_cfg g' = gd_cfg g \<and> gd_st g' = gd_st g \<and> (\<forall>b. Tty_flip_char b \<notin> set as)"
  using assms by (auto simp: gd_rx_timer_cb_def gd_rx_ok_def Let_def split: if_splits)

lemma gd_rx_parity_run:
  assumes "gd_parity (gd_cfg g) \<noteq> 0" and "gd_rx_ok g" and "gd_rx_run T ini vs g = (g', as)"
  shows "gd_st g' = gd_st g \<and> (\<forall>b. Tty_flip_char b \<notin> set as)"
  using assms
proof (induction vs arbitrary: g as)
  case (Cons v vs)
  obtain r g1 as1 where 1: "gd_rx_timer_cb T ini v g = (r, g1, as1)" by (metis surj_pair)
  obtain g2 as2 where 2: "gd_rx_run T ini vs g1 = (g2, as2)" by fastforce
  from gd_rx_parity_step [OF Cons.prems(1,2) 1] Cons.IH [OF _ _ 2 [THEN trans]] 1 2 Cons.prems
  show ?case by (auto simp: Cons.IH)
qed simp

section \<open>Writing\<close>

lemma gd_put_all_ring:
  assumes "ring_valid (gd_tx_ring g)"
  shows "ring_valid (gd_tx_ring (gd_put_all g bs)) \<and>
    ring_bytes (gd_tx_ring (gd_put_all g bs)) =
      ring_bytes (gd_tx_ring g) @ take (TX_BUF_SIZE - 1 - length (ring_bytes (gd_tx_ring g))) bs"
  using assms
proof (induction bs arbitrary: g)
  case (Cons b bs)
  let ?r = "gd_tx_ring g"
  show ?case
    by (rule ring.put_cases [OF Cons.prems, of b])
       (use Cons in \<open>auto simp: gd_tx_ring_put_def take_Cons' Suc_diff_Suc simp del: length_ring_bytes\<close>)
qed simp

section \<open>Set-up\<close>

lemma gd_init_spec:
  assumes "quiet H" and "b \<noteq> 0" and "\<And>tr. E tr Sysfs_create_group = 0"
  shows "kspec H (gd_init T b E) (\<lambda>res H'. case res of
      None \<Rightarrow> H' = H + {#R_mem ''GU'', R_timer ''rx''#}
    | Some (ret, p, k) \<Rightarrow>
        if ret = 0 then kspec H' (gd_exit E p k) (\<lambda>_ H''. H'' = H)
        else H' \<in> {H, H + {#R_mem ''GU'', R_timer ''rx'', R_tty_driver#},
          H + {#R_mem ''GU'', R_timer ''rx'', R_tty_driver, R_tty_registered, R_tty_port#}})"
proof -
  have q: "R_timer t \<notin># H" for t using assms(1) by (simp add: quiet_def)
  have ans: "kdo E Sysfs_create_group = kans Sysfs_create_group 0"
    using assms(3) by (rule kdo_known)
  show ?thesis
    unfolding gd_init_def gd_exit_def
    by (auto simp: ans q ENOMEM_def assms(2) intro!: kspec_rules)
qed

section \<open>Properties\<close>

text \<open>
  \<^verbatim>\<open>write\<close> reports success for bytes it drops. It returns the number of bytes it was given,
  but the ring keeps only as many of them as there is room for below 511; as nothing in the driver
  takes bytes out of the ring, at most the first 511 bytes ever written are kept, and none is sent.
\<close>

theorem gd_write_drops:
  assumes "ring_valid (gd_tx_ring g)"
  shows "fst (gd_tty_write g bs) = int (length bs) \<and>
    ring_valid (gd_tx_ring (snd (gd_tty_write g bs))) \<and>
    ring_bytes (gd_tx_ring (snd (gd_tty_write g bs))) =
      ring_bytes (gd_tx_ring g) @ take (511 - length (ring_bytes (gd_tx_ring g))) bs"
  using gd_put_all_ring [OF assms, of bs] by (simp add: gd_tty_write_def TX_BUF_SIZE_def)

definition sample_gd :: gd_uart where
  "sample_gd = \<lparr>gd_tx = 17,
     gd_cfg = \<lparr>gd_baud = 9600, gd_parity = 2, gd_stopbits = 1, gd_tx_enable = True, gd_rx_enable = True\<rparr>,
     gd_st = \<lparr>gd_tx_bytes = 0, gd_rx_bytes = 0, gd_framing_errors = 0, gd_rx_errors = 0\<rparr>,
     gd_bit_period = 104166, gd_rx_busy = False, gd_rx_byte = 0, gd_rx_bitpos = 0,
     gd_tx_ring = ring_empty\<rparr>"

theorem gd_write_drops_witness:
  "fst (gd_tty_write sample_gd (replicate 600 9)) = 600 \<and>
   length (ring_bytes (gd_tx_ring (snd (gd_tty_write sample_gd (replicate 600 9))))) = 511"
proof -
  have r: "ring_valid (gd_tx_ring sample_gd)" "ring_bytes (gd_tx_ring sample_gd) = []"
    using ring_empty_valid by (simp_all add: sample_gd_def)
  show ?thesis
    using gd_write_drops [OF r(1), of "replicate 600 9"] r(2) by (simp del: length_ring_bytes)
qed

text \<open>
  With a parity bit configured the receiver never delivers a byte. Whatever the levels on the
  line, the callback drops every character at the position of the parity bit: nothing reaches the
  tty layer, nothing is counted, not even as an error.
\<close>

theorem gd_parity_never_delivers:
  assumes "gd_parity (gd_cfg g) \<noteq> 0" and "\<not> gd_rx_busy g" and "gd_rx_run T ini vs g = (g', as)"
  shows "(\<forall>b. Tty_flip_char b \<notin> set as) \<and> gd_st g' = gd_st g"
  using gd_rx_parity_run [OF assms(1) _ assms(3)] assms(2) by (auto simp: gd_rx_ok_def)

theorem gd_parity_never_delivers_witness:
  "\<forall>b. Tty_flip_char b \<notin>
     set (snd (gd_rx_run ktime_ns True [0, 1, 0, 0, 0, 0, 0, 1, 0, 0, 1] sample_gd))"
proof -
  have "gd_parity (gd_cfg sample_gd) \<noteq> 0" "\<not> gd_rx_busy sample_gd" by (simp_all add: sample_gd_def)
  from gd_parity_never_delivers [OF this surjective_pairing] show ?thesis by blast
qed

text \<open>
  A failing init leaks. If registering the tty driver or device fails, \<^verbatim>\<open>gpio_uart_init\<close>
  returns the error without undoing anything: the armed timer, the memory it uses and the tty driver
  stay behind. A successful init is undone by exit, provided the attribute group could be created.
\<close>

theorem gd_init_error_leaks:
  assumes "quiet H" and "b \<noteq> 0" and "\<And>tr. E tr Sysfs_create_group = 0" and "held tr = Some H"
    and "run_state (gd_init T b E) tr = (Some (ret, p, k), tr')"
  shows "if ret = 0 then held (snd (run_state (gd_exit E p k) tr')) = Some H
    else held tr' \<in> Some ` {H, H + {#R_mem ''GU'', R_timer ''rx'', R_tty_driver#},
      H + {#R_mem ''GU'', R_timer ''rx'', R_tty_driver, R_tty_registered, R_tty_port#}}"
proof -
  obtain H' where "held tr' = Some H'" and *: "if ret = 0 then kspec H' (gd_exit E p k) (\<lambda>_ H''. H'' = H)
      else H' \<in> {H, H + {#R_mem ''GU'', R_timer ''rx'', R_tty_driver#},
        H + {#R_mem ''GU'', R_timer ''rx'', R_tty_driver, R_tty_registered, R_tty_port#}}"
    using kspecD [OF gd_init_spec [where E = E and T = T and b = b, OF assms(1,2)] assms(4,5)] assms(3) by force
  then show ?thesis
    by (cases "ret = 0") (auto simp: kspec_def)
qed

theorem gd_init_error_leaks_witness:
  "held (snd (run_state (gd_init ktime_ns 9600 (\<lambda>_ c. if c = Tty_register_driver then - 16 else 0)) []))
     \<noteq> None"
proof -
  let ?E = "\<lambda>_ c. if c = Tty_register_driver then - 16 else (0 :: int)"
  let ?r = "run_state (gd_init ktime_ns 9600 ?E) []"
  have "fst ?r = Some (- 16, False, False)"
    by (simp add: gd_init_def kdo_def State_Monad.bind_def State_Monad.return_def)
  then have "?r = (Some (- 16, False, False), snd ?r)"
    by (metis prod.collapse)
  from gd_init_error_leaks [OF _ _ _ _ this, of "{#}"] show ?thesis
    by (auto simp: quiet_def held_def)
qed

end
