(* ===== verification/Gpio_Uart_Gpiod_Machine.thy ===== *)
theory Gpio_Uart_Gpiod_Machine
  imports Gpio_Uart_Gpiod
begin









section \<open>The invariant\<close>







section \<open>The timer and the receiver\<close>









end
