(* ===== verification/Kfifo_Device.thy ===== *)
theory Kfifo_Device
  imports Byte_Fifo Kernel_Trace
begin

text \<open>
  The two character devices of \<^verbatim>\<open>openwrt/kernel/gpt\<close> built on a kfifo. \<^verbatim>\<open>kfifo.c\<close> has one fifo that the
  GPIO interrupt fills, overwriting the oldest byte, and that \<^verbatim>\<open>read\<close> and \<^verbatim>\<open>write\<close> share.
  \<^verbatim>\<open>kfifo_rxtx.c\<close> has a receive and a transmit fifo, a work item that drains the latter, and
  requests its interrupt on the first open only. Open, release and write of the second file are composed of
  their atomic parts, which theory \<open>Kfifo_Machine\<close> interleaves.
\<close>

section \<open>Poll\<close>

datatype poll_flag = POLLIN | POLLRDNORM | POLLOUT | POLLWRNORM

section \<open>kfifo.c\<close>

record 'f kf_dev =
  kd_fifo :: 'f
  kd_irq :: int

text \<open>\<open>level\<close> is what \<^verbatim>\<open>gpiod_get_value\<close> returns.\<close>

definition kf_irq_handler :: "'f kfifo_api \<Rightarrow> int \<Rightarrow> 'f kf_dev \<Rightarrow> 'f kf_dev \<times> kact list" where
  "kf_irq_handler K level d =
     (d\<lparr>kd_fifo := overwrite_in K (kd_fifo d) (of_int level)\<rparr>, [Wake_up ''read_wq''])"

text \<open>\<open>wait\<close> is the outcome of the one wait of the code: its return code and the device the caller
  then finds; \<open>None\<close> if the caller is still blocked. The results are the return value, the bytes
  stored in the user buffer, the device and the wake-ups.\<close>

definition kf_read :: "'f kfifo_api \<Rightarrow> 'f kf_dev \<Rightarrow> bool \<Rightarrow> (int \<times> 'f kf_dev) option \<Rightarrow> nat \<Rightarrow> nat \<Rightarrow>
    (int \<times> u8 list \<times> 'f kf_dev \<times> kact list) option" where
  "kf_read K d nonblock wait len w =
     (let copy = (\<lambda>d. case kf_to_user K (kd_fifo d) len w of
            (f, ret, out) \<Rightarrow> Some (if ret \<noteq> 0 then ret else int (length out), out, d\<lparr>kd_fifo := f\<rparr>,
                                 if out \<noteq> [] then [Wake_up ''write_wq''] else []))
      in if kf_is_empty K (kd_fifo d)
         then if nonblock then Some (- EAGAIN, [], d, [])
              else (case wait of
                      None \<Rightarrow> None
                    | Some (ret, d') \<Rightarrow> if ret \<noteq> 0 then Some (ret, [], d', []) else copy d')
         else copy d)"

definition kf_write :: "'f kfifo_api \<Rightarrow> 'f kf_dev \<Rightarrow> bool \<Rightarrow> (int \<times> 'f kf_dev) option \<Rightarrow> u8 list \<Rightarrow> nat \<Rightarrow>
    (int \<times> 'f kf_dev \<times> kact list) option" where
  "kf_write K d nonblock wait from len =
     (let copy = (\<lambda>d. case kf_from_user K (kd_fifo d) from len of
            (f, ret, copied) \<Rightarrow> Some (if ret \<noteq> 0 then ret else int copied, d\<lparr>kd_fifo := f\<rparr>,
                                    if copied \<noteq> 0 then [Wake_up ''read_wq''] else []))
      in if kf_is_full K (kd_fifo d)
         then if nonblock then Some (- EAGAIN, d, [])
              else (case wait of
                      None \<Rightarrow> None
                    | Some (ret, d') \<Rightarrow> if ret \<noteq> 0 then Some (ret, d', []) else copy d')
         else copy d)"

definition kf_poll :: "'f kfifo_api \<Rightarrow> 'f kf_dev \<Rightarrow> poll_flag list" where
  "kf_poll K d =
     (if \<not> kf_is_empty K (kd_fifo d) then [POLLIN, POLLRDNORM] else []) @
     (if \<not> kf_is_full K (kd_fifo d) then [POLLOUT, POLLWRNORM] else [])"

text \<open>Module init; beside the return value, the interrupt number that exit uses.\<close>

definition kf_init :: "kenv \<Rightarrow> (int \<times> int) kprog" where
  "kf_init E = do {
     r \<leftarrow> kdo E (Kzalloc ''gdev'');
     if r \<noteq> 0 then State_Monad.return (- ENOMEM, 0) else do {
     ret \<leftarrow> kdo E (Gpiod_get ''data-in'');
     if ret \<noteq> 0 then do {
       _ \<leftarrow> kseq E [Kfree ''gdev''];
       State_Monad.return (ret, 0) } else do {
     irq \<leftarrow> kdo E (Gpiod_to_irq ''data-in'');
     if irq < 0 then do {
       _ \<leftarrow> kseq E [Gpiod_put ''data-in'', Kfree ''gdev''];
       State_Monad.return (irq, irq) } else do {
     ret \<leftarrow> kdo E (Request_irq irq);
     if ret \<noteq> 0 then do {
       _ \<leftarrow> kseq E [Gpiod_put ''data-in'', Kfree ''gdev''];
       State_Monad.return (ret, irq) } else do {
     ret \<leftarrow> kdo E Register_chrdev;
     if ret < 0 then do {
       _ \<leftarrow> kseq E [Free_irq irq, Gpiod_put ''data-in'', Kfree ''gdev''];
       State_Monad.return (ret, irq) }
     else State_Monad.return (0, irq) }}}}}"

definition kf_exit :: "kenv \<Rightarrow> int \<Rightarrow> unit kprog" where
  "kf_exit E irq = kseq E [Unregister_chrdev, Free_irq irq, Gpiod_put ''data-in'', Kfree ''gdev'']"

section \<open>kfifo_rxtx.c\<close>

record 'f rxtx_dev =
  rd_rx_fifo :: 'f
  rd_tx_fifo :: 'f
  rd_irq :: int
  rd_open_count :: int

definition hw_rx_read_level :: "int \<Rightarrow> u8" where
  "hw_rx_read_level level = (if level \<noteq> 0 then 1 else 0)"

definition rxtx_irq_handler :: "'f kfifo_api \<Rightarrow> int \<Rightarrow> 'f rxtx_dev \<Rightarrow> 'f rxtx_dev \<times> kact list" where
  "rxtx_irq_handler K level d =
     (d\<lparr>rd_rx_fifo := overwrite_in K (rd_rx_fifo d) (hw_rx_read_level level)\<rparr>, [Wake_up ''rx_wq''])"

text \<open>The endless loop of \<^verbatim>\<open>tx_work_fn\<close>: the fifo at the end and the bytes given to the hardware.\<close>

partial_function (option) tx_work_loop :: "'f kfifo_api \<Rightarrow> 'f \<Rightarrow> ('f \<times> u8 list) option" where
  "tx_work_loop K f =
     (case kf_out K f 1 of
        (f', out) \<Rightarrow>
          if out = [] then Some (f', [])
          else Option.bind (tx_work_loop K f') (\<lambda>(f'', sent). Some (f'', hd out # sent)))"

definition tx_work_fn :: "'f kfifo_api \<Rightarrow> 'f rxtx_dev \<Rightarrow> (u8 list \<times> 'f rxtx_dev \<times> kact list) option" where
  "tx_work_fn K d =
     (case tx_work_loop K (rd_tx_fifo d) of
        None \<Rightarrow> None
      | Some (f, sent) \<Rightarrow>
          Some (sent, d\<lparr>rd_tx_fifo := f\<rparr>, if sent \<noteq> [] then [Wake_up ''tx_wq''] else []))"

definition rxtx_read :: "'f kfifo_api \<Rightarrow> 'f rxtx_dev \<Rightarrow> bool \<Rightarrow> (int \<times> 'f rxtx_dev) option \<Rightarrow> nat \<Rightarrow>
    nat \<Rightarrow> (int \<times> u8 list \<times> 'f rxtx_dev \<times> kact list) option" where
  "rxtx_read K d nonblock wait len w =
     (let copy = (\<lambda>d. case kf_to_user K (rd_rx_fifo d) len w of
            (f, ret, out) \<Rightarrow>
              Some (if ret \<noteq> 0 then (ret, out, d\<lparr>rd_rx_fifo := f\<rparr>, [])
                    else (int (length out), out, d\<lparr>rd_rx_fifo := f\<rparr>,
                          if out \<noteq> [] then [Wake_up ''tx_wq''] else [])))
      in if len = 0 then Some (0, [], d, [])
         else if kf_is_empty K (rd_rx_fifo d)
         then if nonblock then Some (- EAGAIN, [], d, [])
              else (case wait of
                      None \<Rightarrow> None
                    | Some (ret, d') \<Rightarrow> if ret \<noteq> 0 then Some (ret, [], d', []) else copy d')
         else copy d)"

text \<open>The waiting loop of \<^verbatim>\<open>mydev_write\<close>, which tests for a non-blocking file in every turn.\<close>

fun rxtx_tx_wait :: "'f kfifo_api \<Rightarrow> 'f rxtx_dev \<Rightarrow> bool \<Rightarrow> (int \<times> 'f rxtx_dev) list \<Rightarrow>
    (int \<times> 'f rxtx_dev) option" where
  "rxtx_tx_wait K d nonblock ws =
     (if kf_is_full K (rd_tx_fifo d)
      then if nonblock then Some (- EAGAIN, d)
           else (case ws of
                   [] \<Rightarrow> None
                 | (ret, d') # ws' \<Rightarrow>
                     if ret \<noteq> 0 then Some (ret, d') else rxtx_tx_wait K d' nonblock ws')
      else Some (0, d))"

declare rxtx_tx_wait.simps [simp del]

text \<open>The part after the wait.\<close>

definition rxtx_write_copy :: "'f kfifo_api \<Rightarrow> 'f rxtx_dev \<Rightarrow> u8 list \<Rightarrow> nat \<Rightarrow>
    int \<times> 'f rxtx_dev \<times> kact list" where
  "rxtx_write_copy K d from len =
     (case kf_from_user K (rd_tx_fifo d) from len of
        (f, ret, copied) \<Rightarrow>
          if ret \<noteq> 0 then (ret, d\<lparr>rd_tx_fifo := f\<rparr>, [])
          else (int copied, d\<lparr>rd_tx_fifo := f\<rparr>, [Schedule_work ''tx_work'']))"

definition rxtx_write :: "'f kfifo_api \<Rightarrow> 'f rxtx_dev \<Rightarrow> bool \<Rightarrow> (int \<times> 'f rxtx_dev) list \<Rightarrow> u8 list \<Rightarrow>
    nat \<Rightarrow> (int \<times> 'f rxtx_dev \<times> kact list) option" where
  "rxtx_write K d nonblock ws from len =
     (if len = 0 then Some (0, d, [])
      else (case rxtx_tx_wait K d nonblock ws of
              None \<Rightarrow> None
            | Some (ret, d) \<Rightarrow>
                if ret \<noteq> 0 then Some (ret, d, []) else Some (rxtx_write_copy K d from len)))"

definition rxtx_poll :: "'f kfifo_api \<Rightarrow> 'f rxtx_dev \<Rightarrow> poll_flag list" where
  "rxtx_poll K d =
     (if \<not> kf_is_empty K (rd_rx_fifo d) then [POLLIN, POLLRDNORM] else []) @
     (if \<not> kf_is_full K (rd_tx_fifo d) then [POLLOUT, POLLWRNORM] else [])"

text \<open>The two halves of \<^verbatim>\<open>mydev_open\<close>: the atomic increment, which returns the old count, and what follows
  the request of the interrupt; the atomic decrement of \<^verbatim>\<open>mydev_release\<close> and whether it reaches 0.\<close>

definition rxtx_open_add :: "'f rxtx_dev \<Rightarrow> int \<times> 'f rxtx_dev" where
  "rxtx_open_add d =
     (rd_open_count d,
      if rd_open_count d \<noteq> INT_MAX then d\<lparr>rd_open_count := rd_open_count d + 1\<rparr> else d)"

definition rxtx_open_requested :: "int \<Rightarrow> 'f rxtx_dev \<Rightarrow> int \<times> 'f rxtx_dev" where
  "rxtx_open_requested ret d =
     (if ret \<noteq> 0 then (ret, d\<lparr>rd_open_count := rd_open_count d - 1\<rparr>) else (0, d))"

definition rxtx_release_dec :: "'f rxtx_dev \<Rightarrow> bool \<times> 'f rxtx_dev" where
  "rxtx_release_dec d =
     (let d = d\<lparr>rd_open_count := rd_open_count d - 1\<rparr> in (rd_open_count d = 0, d))"

lemmas rxtx_open_defs = rxtx_open_add_def rxtx_open_requested_def rxtx_release_dec_def

definition rxtx_open :: "kenv \<Rightarrow> 'f rxtx_dev \<Rightarrow> (int \<times> 'f rxtx_dev) kprog" where
  "rxtx_open E d =
     (let (old, d) = rxtx_open_add d
      in if old = 0
         then do {
           ret \<leftarrow> kdo E (Request_irq (rd_irq d));
           State_Monad.return (rxtx_open_requested ret d) }
         else State_Monad.return (0, d))"

definition rxtx_release :: "kenv \<Rightarrow> 'f rxtx_dev \<Rightarrow> (int \<times> 'f rxtx_dev) kprog" where
  "rxtx_release E d =
     (let (last, d) = rxtx_release_dec d
      in if last
         then do {
           _ \<leftarrow> kseq E [Disable_irq (rd_irq d), Synchronize_irq (rd_irq d), Free_irq (rd_irq d),
                       Cancel_work_sync ''tx_work''];
           State_Monad.return (0, d) }
         else State_Monad.return (0, d))"

text \<open>
  The placeholder set-up that nothing calls. The results of the requests are ignored; the handlers are
  not real ones, which the trace of calls does not show.
\<close>

definition mydev_hw_init :: "kenv \<Rightarrow> 'f rxtx_dev \<Rightarrow> int kprog" where
  "mydev_hw_init E d = do {
     _ \<leftarrow> kdo E (Request_irq (rd_irq d));
     _ \<leftarrow> kseq E [Free_irq (rd_irq d)];
     _ \<leftarrow> kdo E (Request_irq (rd_irq d));
     _ \<leftarrow> kseq E [Free_irq (rd_irq d)];
     _ \<leftarrow> kdo E (Request_irq (rd_irq d));
     State_Monad.return 0 }"

definition mydev_hw_deinit :: "kenv \<Rightarrow> 'f rxtx_dev \<Rightarrow> unit kprog" where
  "mydev_hw_deinit E d = kseq E [Disable_irq (rd_irq d), Synchronize_irq (rd_irq d), Free_irq (rd_irq d)]"

text \<open>Module init; \<open>f0\<close> is a fifo after \<^verbatim>\<open>kfifo_alloc\<close>.\<close>

definition rxtx_init :: "'f \<Rightarrow> kenv \<Rightarrow> (int \<times> 'f rxtx_dev option) kprog" where
  "rxtx_init f0 E = do {
     r \<leftarrow> kdo E (Kzalloc ''d'');
     if r \<noteq> 0 then State_Monad.return (- ENOMEM, None) else do {
     ret \<leftarrow> kdo E (Kfifo_alloc ''rx'');
     if ret \<noteq> 0 then do {
       _ \<leftarrow> kseq E [Kfree ''d''];
       State_Monad.return (ret, None) } else do {
     ret \<leftarrow> kdo E (Kfifo_alloc ''tx'');
     if ret \<noteq> 0 then do {
       _ \<leftarrow> kseq E [Kfifo_free ''rx'', Kfree ''d''];
       State_Monad.return (ret, None) } else do {
     ret \<leftarrow> kdo E (Gpiod_get ''data-in'');
     if ret \<noteq> 0 then do {
       _ \<leftarrow> kseq E [Kfifo_free ''tx'', Kfifo_free ''rx'', Kfree ''d''];
       State_Monad.return (ret, None) } else do {
     irq \<leftarrow> kdo E (Gpiod_to_irq ''data-in'');
     if irq < 0 then do {
       _ \<leftarrow> kseq E [Gpiod_put ''data-in'', Kfifo_free ''tx'', Kfifo_free ''rx'', Kfree ''d''];
       State_Monad.return (irq, None) } else do {
     ret \<leftarrow> kdo E Alloc_chrdev_region;
     if ret \<noteq> 0 then do {
       _ \<leftarrow> kseq E [Gpiod_put ''data-in'', Kfifo_free ''tx'', Kfifo_free ''rx'', Kfree ''d''];
       State_Monad.return (ret, None) } else do {
     ret \<leftarrow> kdo E Cdev_add;
     if ret \<noteq> 0 then do {
       _ \<leftarrow> kseq E [Unregister_chrdev_region, Gpiod_put ''data-in'', Kfifo_free ''tx'',
                   Kfifo_free ''rx'', Kfree ''d''];
       State_Monad.return (ret, None) }
     else State_Monad.return
       (0, Some \<lparr>rd_rx_fifo = f0, rd_tx_fifo = f0, rd_irq = irq, rd_open_count = 0\<rparr>) }}}}}}}"

text \<open>Module exit; \<open>gdev\<close> is the global pointer. The GPIO descriptor is valid whenever it is set.\<close>

definition rxtx_exit :: "kenv \<Rightarrow> 'f rxtx_dev option \<Rightarrow> unit kprog" where
  "rxtx_exit E gdev =
     (case gdev of
        None \<Rightarrow> State_Monad.return ()
      | Some d \<Rightarrow> do {
          _ \<leftarrow> (if rd_open_count d > 0
               then kseq E [Disable_irq (rd_irq d), Synchronize_irq (rd_irq d), Free_irq (rd_irq d),
                            Cancel_work_sync ''tx_work'']
               else State_Monad.return ());
          kseq E [Cdev_del, Unregister_chrdev_region, Gpiod_put ''data-in'', Kfifo_free ''rx'',
                  Kfifo_free ''tx'', Kfree ''d''] })"

section \<open>Life cycles\<close>

interpretation kf_life: driver_lifecycle "\<lambda>_. True" kf_init kf_exit
  by unfold_locales (auto simp: kf_init_def kf_exit_def ENOMEM_def intro!: kspec_rules)

interpretation rxtx_life: driver_lifecycle "\<lambda>_. True" "rxtx_init f0" rxtx_exit
  by unfold_locales (auto simp: rxtx_init_def rxtx_exit_def ENOMEM_def intro!: kspec_rules)

text \<open>A history of opens and releases; a release without an open cannot happen.\<close>

fun open_close :: "kenv \<Rightarrow> bool list \<Rightarrow> 'f rxtx_dev \<Rightarrow> 'f rxtx_dev kprog" where
  "open_close E [] d = State_Monad.return d"
| "open_close E (True # ops) d = do { (_, d) \<leftarrow> rxtx_open E d; open_close E ops d }"
| "open_close E (False # ops) d =
     (if rd_open_count d > 0
      then do { (_, d) \<leftarrow> rxtx_release E d; open_close E ops d }
      else open_close E ops d)"

definition irq_if_open :: "'f rxtx_dev \<Rightarrow> kres multiset" where
  "irq_if_open d = (if rd_open_count d > 0 then {#R_irq (rd_irq d)#} else {#})"

definition rxtx_counted :: "'f rxtx_dev \<Rightarrow> bool" where
  "rxtx_counted d \<longleftrightarrow> 0 \<le> rd_open_count d \<and> rd_open_count d \<le> INT_MAX"

lemma rxtx_open_spec:
  assumes "rxtx_counted d"
  shows "kspec (H + irq_if_open d) (rxtx_open E d) (\<lambda>(_, d') H'.
    H' = H + irq_if_open d' \<and> rxtx_counted d' \<and> rd_irq d' = rd_irq d)"
  using assms
  by (auto simp: rxtx_open_def rxtx_open_defs Let_def irq_if_open_def rxtx_counted_def INT_MAX_def intro!: kspec_rules)

lemma rxtx_release_spec:
  assumes "rxtx_counted d" and "rd_open_count d > 0"
  shows "kspec (H + irq_if_open d) (rxtx_release E d) (\<lambda>(_, d') H'.
    H' = H + irq_if_open d' \<and> rxtx_counted d' \<and> rd_irq d' = rd_irq d)"
  using assms
  by (auto simp: rxtx_release_def rxtx_open_defs Let_def irq_if_open_def rxtx_counted_def INT_MAX_def intro!: kspec_rules)

lemma open_close_spec:
  assumes "rxtx_counted d"
  shows "kspec (H + irq_if_open d) (open_close E ops d) (\<lambda>d' H'.
    H' = H + irq_if_open d' \<and> rxtx_counted d' \<and> rd_irq d' = rd_irq d)"
  using assms
proof (induction E ops d rule: open_close.induct)
  case (1 E d)
  then show ?case by (simp add: kspec_return)
next
  case (2 E ops d)
  show ?case
    unfolding open_close.simps
    by (rule kspec_bind, rule kspec_mono [OF rxtx_open_spec [OF "2.prems"]])
       (auto intro!: kspec_mono [OF "2.IH"])
next
  case (3 E ops d)
  show ?case
  proof (cases "rd_open_count d > 0")
    case True
    then show ?thesis
      by (simp, intro kspec_bind kspec_mono [OF rxtx_release_spec [OF "3.prems" True]])
         (auto intro!: kspec_mono [OF "3.IH"(1) [OF True]])
  next
    case False
    then show ?thesis using "3.IH"(2) [OF False "3.prems"] by simp
  qed
qed

text \<open>A whole life of the module: load, any history of opens and releases, unload.\<close>

definition rxtx_session :: "'f \<Rightarrow> kenv \<Rightarrow> bool list \<Rightarrow> unit kprog" where
  "rxtx_session f0 E ops = do {
     (ret, g) \<leftarrow> rxtx_init f0 E;
     if ret = 0 then do { d \<leftarrow> open_close E ops (the g); rxtx_exit E (Some d) }
     else State_Monad.return () }"

definition rxtx_res :: "kres multiset" where
  "rxtx_res = {#R_mem ''d'', R_kfifo ''rx'', R_kfifo ''tx'', R_gpiod ''data-in'', R_chrdev, R_cdev#}"

lemma rxtx_init_spec:
  "kspec H (rxtx_init f0 E) (\<lambda>(ret, g) H'. if ret = 0
     then \<exists>irq. g = Some \<lparr>rd_rx_fifo = f0, rd_tx_fifo = f0, rd_irq = irq, rd_open_count = 0\<rparr> \<and>
       H' = H + rxtx_res
     else H' = H)"
  by (auto simp: rxtx_init_def ENOMEM_def rxtx_res_def intro!: kspec_rules)

lemma rxtx_exit_spec:
  "kspec (H + rxtx_res + irq_if_open d) (rxtx_exit E (Some d)) (\<lambda>_ H'. H' = H)"
  by (auto simp: rxtx_exit_def rxtx_res_def irq_if_open_def intro!: kspec_rules)

lemma rxtx_use_spec:
  assumes "rxtx_counted d" and "rd_open_count d = 0"
  shows "kspec (H + rxtx_res) (State_Monad.bind (open_close E ops d) (\<lambda>d. rxtx_exit E (Some d)))
    (\<lambda>_ H'. H' = H)"
proof -
  have "kspec (H + rxtx_res) (open_close E ops d) (\<lambda>d' H'. H' = H + rxtx_res + irq_if_open d')"
    using open_close_spec [OF assms(1), of "H + rxtx_res" E ops] assms(2)
    by (auto simp: irq_if_open_def elim: kspec_mono)
  then show ?thesis
    by (intro kspec_bind) (auto elim!: kspec_mono intro: rxtx_exit_spec)
qed

lemma rxtx_session_spec: "kspec H (rxtx_session f0 E ops) (\<lambda>_ H'. H' = H)"
proof -
  have "kspec H' (if ret = 0 then State_Monad.bind (open_close E ops (the g)) (\<lambda>d. rxtx_exit E (Some d))
      else State_Monad.return ()) (\<lambda>_ H''. H'' = H)"
    if "if ret = 0
      then \<exists>irq. g = Some \<lparr>rd_rx_fifo = f0, rd_tx_fifo = f0, rd_irq = irq, rd_open_count = 0\<rparr> \<and>
        H' = H + rxtx_res
      else H' = H" for ret :: int and g :: "'a rxtx_dev option" and H'
  proof (cases "ret = 0")
    case True
    with that obtain irq where
      "g = Some \<lparr>rd_rx_fifo = f0, rd_tx_fifo = f0, rd_irq = irq, rd_open_count = 0\<rparr>"
      "H' = H + rxtx_res" by auto
    with True rxtx_use_spec [of "the g" H E ops] show ?thesis
      by (simp add: rxtx_counted_def INT_MAX_def)
  qed (use that in \<open>simp add: kspec_return\<close>)
  then show ?thesis
    unfolding rxtx_session_def
    by (intro kspec_bind kspec_mono [OF rxtx_init_spec]) (simp only: prod.case split_paired_all)
qed

section \<open>The data path\<close>

text \<open>The abstract device of \<^verbatim>\<open>kfifo.c\<close>: a byte list of bounded length, non-blocking calls with
  accessible user buffers. A step returns the result of a call and the bytes it delivers.\<close>

datatype kf_event = Kf_irq int | Kf_read nat | Kf_write "u8 list"

fun kf_step :: "'f kfifo_api \<Rightarrow> kf_event \<Rightarrow> 'f kf_dev \<Rightarrow> (int \<times> u8 list) \<times> 'f kf_dev" where
  "kf_step K (Kf_irq v) d = ((0, []), fst (kf_irq_handler K v d))"
| "kf_step K (Kf_read n) d =
     (case kf_read K d True None n n of
        Some (r, out, d', _) \<Rightarrow> ((r, out), d') | None \<Rightarrow> ((0, []), d))"
| "kf_step K (Kf_write bs) d =
     (case kf_write K d True None bs (length bs) of
        Some (r, d', _) \<Rightarrow> ((r, []), d') | None \<Rightarrow> ((0, []), d))"

fun kf_spec :: "nat \<Rightarrow> kf_event \<Rightarrow> u8 list \<Rightarrow> (int \<times> u8 list) \<times> u8 list" where
  "kf_spec cap (Kf_irq v) c = ((0, []), lastn cap (c @ [of_int v]))"
| "kf_spec cap (Kf_read n) c =
     (if c = [] then ((- EAGAIN, []), c) else ((int (min n (length c)), take n c), drop n c))"
| "kf_spec cap (Kf_write bs) c =
     (if length c = cap then ((- EAGAIN, []), c)
      else let m = min (length bs) (cap - length c) in ((int m, []), c @ take m bs))"

fun run_with :: "('e \<Rightarrow> 's \<Rightarrow> 'r \<times> 's) \<Rightarrow> 'e list \<Rightarrow> 's \<Rightarrow> 'r list \<times> 's" where
  "run_with step [] s = ([], s)"
| "run_with step (e # es) s =
     (case step e s of (r, s') \<Rightarrow> (case run_with step es s' of (rs, s'') \<Rightarrow> (r # rs, s'')))"

lemma run_with_refines:
  assumes "\<And>e s. I s \<Longrightarrow> fst (step e s) = fst (spec e (\<alpha> s)) \<and> \<alpha> (snd (step e s)) = snd (spec e (\<alpha> s)) \<and>
      I (snd (step e s))"
    and "I s"
  shows "fst (run_with step es s) = fst (run_with spec es (\<alpha> s)) \<and>
    \<alpha> (snd (run_with step es s)) = snd (run_with spec es (\<alpha> s)) \<and> I (snd (run_with step es s))"
  using assms(2)
proof (induction es arbitrary: s)
  case (Cons e es)
  obtain r s' where s': "step e s = (r, s')" by fastforce
  with assms(1) [OF Cons.prems, of e] have "spec e (\<alpha> s) = (r, \<alpha> s')" "I s'"
    by (metis fst_conv snd_conv prod.collapse)+
  with Cons.IH [of s'] s' show ?case by (auto split: prod.splits)
qed simp

context kfifo
begin

lemma kf_step_refines:
  assumes "valid (kd_fifo d)"
  shows "fst (kf_step K e d) = fst (kf_spec size e (contents (kd_fifo d))) \<and>
    contents (kd_fifo (snd (kf_step K e d))) = snd (kf_spec size e (contents (kd_fifo d))) \<and>
    valid (kd_fifo (snd (kf_step K e d)))"
proof (cases e)
  case (Kf_irq v)
  with overwrite_in_spec [OF assms] show ?thesis by (simp add: kf_irq_handler_def)
next
  case (Kf_read n)
  obtain f where "kf_to_user K (kd_fifo d) n n = (f, 0, take n (contents (kd_fifo d)))" "valid f"
      "contents f = drop n (contents (kd_fifo d))"
    using to_user_exact [OF assms order_refl] by blast
  with Kf_read assms show ?thesis
    by (simp add: kf_read_def is_empty_iff min.commute)
next
  case (Kf_write bs)
  let ?m = "min (length bs) (size - length (contents (kd_fifo d)))"
  obtain f where "kf_from_user K (kd_fifo d) bs (length bs) = (f, 0, ?m)" "valid f"
      "contents f = contents (kd_fifo d) @ take ?m bs"
    using from_user_exact [OF assms order_refl] by blast
  with Kf_write assms show ?thesis
    by (simp add: kf_write_def is_full_iff Let_def)
qed

lemma kf_run_refines:
  assumes "valid (kd_fifo d)"
  shows "fst (run_with (kf_step K) es d) = fst (run_with (kf_spec size) es (contents (kd_fifo d))) \<and>
    contents (kd_fifo (snd (run_with (kf_step K) es d))) =
      snd (run_with (kf_spec size) es (contents (kd_fifo d)))"
  using run_with_refines [of "\<lambda>d. valid (kd_fifo d)" "kf_step K" "kf_spec size" "\<lambda>d. contents (kd_fifo d)",
      OF kf_step_refines assms] by blast

lemma tx_work_loop_drains:
  "valid f \<Longrightarrow> contents f = bs \<Longrightarrow>
    \<exists>f'. tx_work_loop K f = Some (f', bs) \<and> valid f' \<and> contents f' = []"
proof (induction bs arbitrary: f)
  case Nil
  then show ?case
    by (rule_tac out_one [of f]) (auto simp: tx_work_loop.simps [of K f])
next
  case (Cons b bs)
  then obtain g where g: "kf_out K f 1 = (g, [b])" "valid g" "contents g = bs"
    by (rule_tac out_one [of f]) auto
  from Cons.IH [OF g(2,3)] g(1) show ?case
    by (auto simp: tx_work_loop.simps [of K f])
qed

lemma write_then_work:
  assumes "valid (rd_tx_fifo d)" and "length (contents (rd_tx_fifo d)) < size" and "bs \<noteq> []"
  shows "\<exists>d' d''. rxtx_write K d nonblock ws bs (length bs) =
      Some (int (min (length bs) (size - length (contents (rd_tx_fifo d)))), d',
        [Schedule_work ''tx_work'']) \<and>
    tx_work_fn K d' = Some (contents (rd_tx_fifo d) @
        take (min (length bs) (size - length (contents (rd_tx_fifo d)))) bs, d'', [Wake_up ''tx_wq'']) \<and>
    contents (rd_tx_fifo d'') = []"
proof -
  let ?m = "min (length bs) (size - length (contents (rd_tx_fifo d)))"
  obtain f where f: "kf_from_user K (rd_tx_fifo d) bs (length bs) = (f, 0, ?m)" "valid f"
      "contents f = contents (rd_tx_fifo d) @ take ?m bs"
    using from_user_exact [OF assms(1) order_refl] by blast
  obtain f' where f': "tx_work_loop K f = Some (f', contents f)" "contents f' = []"
    using tx_work_loop_drains [OF f(2) refl] by blast
  have "contents f \<noteq> []" using f(3) assms(2,3) by simp
  then show ?thesis
    using assms f f' by (simp add: rxtx_write_def rxtx_write_copy_def rxtx_tx_wait.simps is_full_iff tx_work_fn_def)
qed

end

section \<open>Properties\<close>

text \<open>
  Property C6: the device of \<^verbatim>\<open>kfifo.c\<close> refines a bounded byte list. For every sequence of interrupts,
  non-blocking reads and non-blocking writes, every return value and every delivered byte is that of
  the list: an interrupt on a full fifo drops the oldest byte, a write stores what fits, a read takes
  the oldest bytes, and \<open>-EAGAIN\<close> is returned exactly when nothing can be read or stored.
\<close>

theorem kf_device_refines:
  assumes "kfifo K contents valid cap" and "valid (kd_fifo d)"
  shows "fst (run_with (kf_step K) es d) = fst (run_with (kf_spec cap) es (contents (kd_fifo d))) \<and>
    contents (kd_fifo (snd (run_with (kf_step K) es d))) =
      snd (run_with (kf_spec cap) es (contents (kd_fifo d)))"
  using assms by (rule kfifo.kf_run_refines)

theorem kf_device_refines_witness:
  "fst (run_with (kf_step (list_kfifo 2)) [Kf_irq 1, Kf_irq 0, Kf_irq 1, Kf_write [9], Kf_read 5, Kf_read 1]
     \<lparr>kd_fifo = [], kd_irq = 40\<rparr>) =
   [(0, []), (0, []), (0, []), (- EAGAIN, []), (2, [0, 1]), (- EAGAIN, [])]"
  using kf_device_refines [OF kfifo_list, of 2 "\<lparr>kd_fifo = [], kd_irq = 40\<rparr>"
      "[Kf_irq 1, Kf_irq 0, Kf_irq 1, Kf_write [9], Kf_read 5, Kf_read 1]"]
  by (simp add: list_valid_def lastn_def)

text \<open>
  What is written to the device of \<^verbatim>\<open>kfifo_rxtx.c\<close> reaches the hardware. A write with room
  in the fifo stores what fits and schedules the work item, and the loop of the work item ends after
  having sent everything, in order, and wakes the writers.
\<close>

theorem rxtx_write_reaches_hw:
  assumes "kfifo K contents valid cap" and "valid (rd_tx_fifo d)"
    and "length (contents (rd_tx_fifo d)) < cap" and "bs \<noteq> []"
  shows "\<exists>d' d''. rxtx_write K d nonblock ws bs (length bs) =
      Some (int (min (length bs) (cap - length (contents (rd_tx_fifo d)))), d',
        [Schedule_work ''tx_work'']) \<and>
    tx_work_fn K d' = Some (contents (rd_tx_fifo d) @
        take (min (length bs) (cap - length (contents (rd_tx_fifo d)))) bs, d'', [Wake_up ''tx_wq'']) \<and>
    contents (rd_tx_fifo d'') = []"
  using assms by (rule kfifo.write_then_work)

theorem rxtx_write_reaches_hw_witness:
  "\<exists>d' d''. rxtx_write (list_kfifo 3) \<lparr>rd_rx_fifo = [], rd_tx_fifo = [5], rd_irq = 40, rd_open_count = 1\<rparr>
      True [] [6, 7, 8] 3 = Some (2, d', [Schedule_work ''tx_work'']) \<and>
    tx_work_fn (list_kfifo 3) d' = Some ([5, 6, 7], d'', [Wake_up ''tx_wq'']) \<and> rd_tx_fifo d'' = []"
  using rxtx_write_reaches_hw [OF kfifo_list, of 3
      "\<lparr>rd_rx_fifo = [], rd_tx_fifo = [5], rd_irq = 40, rd_open_count = 1\<rparr>" "[6, 7, 8]" True "[]"]
  by (simp add: list_valid_def numeral_2_eq_2 numeral_3_eq_3)

text \<open>
  The interrupt of \<^verbatim>\<open>kfifo_rxtx.c\<close> is requested exactly while the device is open. After
  any history of opens, failed opens and releases from a closed device, the driver holds its
  interrupt if the open count is positive and holds nothing more otherwise, and has never freed an
  interrupt it did not hold.
\<close>

theorem rxtx_irq_while_open:
  assumes "held tr = Some H" and "rd_open_count d = 0"
    and "run_state (open_close E ops d) tr = (d', tr')"
  shows "held tr' = Some (if rd_open_count d' > 0 then add_mset (R_irq (rd_irq d)) H else H) \<and>
    0 \<le> rd_open_count d'"
proof -
  have d: "rxtx_counted d" "H + irq_if_open d = H"
    using assms(2) by (simp_all add: rxtx_counted_def INT_MAX_def irq_if_open_def)
  obtain H' where "held tr' = Some H'"
      "H' = H + irq_if_open d' \<and> rxtx_counted d' \<and> rd_irq d' = rd_irq d"
    using kspecD [OF open_close_spec [OF d(1), of H E ops, unfolded d(2)] assms(1,3)] by blast
  then show ?thesis
    by (simp add: irq_if_open_def rxtx_counted_def)
qed

theorem rxtx_irq_while_open_witness:
  "held (snd (run_state (open_close (\<lambda>_ _. 0) [True, True, False]
     \<lparr>rd_rx_fifo = [] :: u8 list, rd_tx_fifo = [], rd_irq = 40, rd_open_count = 0\<rparr>) [])) =
   Some {#R_irq 40#}"
proof -
  let ?d = "\<lparr>rd_rx_fifo = [] :: u8 list, rd_tx_fifo = [], rd_irq = 40, rd_open_count = 0\<rparr>"
  let ?p = "open_close (\<lambda>_ _. 0) [True, True, False] ?d"
  have "rd_open_count (fst (run_state ?p [])) = 1"
    by (simp add: rxtx_open_def rxtx_release_def rxtx_open_defs kdo_def INT_MAX_def State_Monad.bind_def
        State_Monad.return_def)
  moreover obtain d' tr' where run: "run_state ?p [] = (d', tr')"
    by (cases "run_state ?p []")
  moreover have "held [] = Some {#}" by (simp add: held_def)
  note rxtx_irq_while_open [OF this _ run]
  ultimately show ?thesis by (simp del: open_close.simps)
qed

text \<open>
  A whole life of the module of \<^verbatim>\<open>kfifo_rxtx.c\<close> is neutral. Loading it, whichever call
  fails, any history of opens and releases, even one that leaves the device open, and unloading it
  give back every resource taken.
\<close>

theorem rxtx_session_neutral:
  assumes "held tr = Some H"
  shows "held (snd (run_state (rxtx_session f0 E ops) tr)) = Some H"
  using rxtx_session_spec [of H f0 E ops] assms by (auto simp: kspec_def)

theorem rxtx_session_neutral_witness:
  "held (snd (run_state (rxtx_session ([] :: u8 list) (\<lambda>_ _. 0) [True, False, True]) [])) = Some {#}"
  by (rule rxtx_session_neutral) (simp add: held_def)

text \<open>Init and exit of the module of \<^verbatim>\<open>kfifo.c\<close> are balanced for every behaviour of the kernel.\<close>

theorem kf_module_balanced: "balanced (\<lambda>_. True) kf_init kf_exit"
  by (rule kf_life.balanced)

text \<open>The placeholder reports success even if every request fails, and then frees an interrupt it does not hold.\<close>

lemma hw_init_frees_nothing:
  "fst (run_state (mydev_hw_init (\<lambda>_ _. - EINVAL) d) []) = 0 \<and>
   held (snd (run_state (mydev_hw_init (\<lambda>_ _. - EINVAL) d) [])) = None"
  by (simp add: mydev_hw_init_def kdo_def State_Monad.bind_def State_Monad.return_def held_def EINVAL_def)

end
