(* ===== verification/Kfifo_Waiters.thy ===== *)
theory Kfifo_Waiters
  imports Kfifo_Device "HOL-Library.Sublist"
begin

text \<open>
  The device of \<^verbatim>\<open>kfifo.c\<close> as a machine in which the interrupt and any number of blocking and non-blocking calls interleave
  between their parts. The copies to and from user space and the handler hold the lock; the tests for an empty and a
  full fifo do not, so they can fall between the handler dropping a byte and storing the new one. A wait is a
  place in the queue of the waiters before the test, so a wake-up between test and sleep is not missed; a process that is woken
  tests again and leaves the wait for the copy, which does not test.
\<close>

text \<open>Where a call is: the first test, the test of the wait, asleep in the wait, the copy, the wake-up of the other side, the end.\<close>

datatype kw_call =
    Kr_test bool nat nat | Kr_wait nat nat | Kr_asleep nat nat | Kr_copy nat nat | Kr_wake int | Kr_done int
  | Kt_test bool "u8 list" nat | Kt_wait "u8 list" nat | Kt_asleep "u8 list" nat | Kt_copy "u8 list" nat | Kt_wake int | Kt_done int

text \<open>Where the handler is: it holds the lock after the drop, and has still to wake the readers after the store.\<close>

datatype kw_irq = Ki_idle | Ki_locked u8 | Ki_wake

record 'f kw_world =
  kw_dev :: "'f kf_dev"
  kw_irq :: kw_irq
  kw_calls :: "kw_call list"
  kw_put :: "u8 list"
  kw_got :: "u8 list"

datatype kw_step = Kw_irq int | Kw_irq_next | Kw_read bool nat nat | Kw_write bool "u8 list" nat | Kw_call nat | Kw_signal nat

text \<open>The parts of a call: where it is then, the device, the bytes put in, the bytes taken out, and wake-ups.\<close>

type_synonym 'f kw_result = "kw_call \<times> 'f kf_dev \<times> u8 list \<times> u8 list \<times> kact list"

fun kw_read_part :: "'f kfifo_api \<Rightarrow> kw_call \<Rightarrow> 'f kf_dev \<Rightarrow> 'f kw_result option" where
  "kw_read_part K (Kr_test nonblock len n) d =
     Some (if kf_is_empty K (kd_fifo d) then (if nonblock then Kr_done (- EAGAIN) else Kr_wait len n) else Kr_copy len n, d, [], [], [])"
| "kw_read_part K (Kr_wait len n) d =
     Some (if kf_is_empty K (kd_fifo d) then Kr_asleep len n else Kr_copy len n, d, [], [], [])"
| "kw_read_part K (Kr_copy len n) d =
     (case kf_to_user K (kd_fifo d) len n of
        (f, ret, out) \<Rightarrow>
          let r = (if ret \<noteq> 0 then ret else int (length out))
          in Some (if out \<noteq> [] then Kr_wake r else Kr_done r, d\<lparr>kd_fifo := f\<rparr>, [], out, []))"
| "kw_read_part K (Kr_wake r) d = Some (Kr_done r, d, [], [], [Wake_up ''write_wq''])"
| "kw_read_part K _ d = None"

fun kw_write_part :: "'f kfifo_api \<Rightarrow> kw_call \<Rightarrow> 'f kf_dev \<Rightarrow> 'f kw_result option" where
  "kw_write_part K (Kt_test nonblock bs len) d =
     Some (if kf_is_full K (kd_fifo d) then (if nonblock then Kt_done (- EAGAIN) else Kt_wait bs len) else Kt_copy bs len, d, [], [], [])"
| "kw_write_part K (Kt_wait bs len) d =
     Some (if kf_is_full K (kd_fifo d) then Kt_asleep bs len else Kt_copy bs len, d, [], [], [])"
| "kw_write_part K (Kt_copy bs len) d =
     (case kf_from_user K (kd_fifo d) bs len of
        (f, ret, copied) \<Rightarrow>
          let r = (if ret \<noteq> 0 then ret else int copied)
          in Some (if copied \<noteq> 0 then Kt_wake r else Kt_done r, d\<lparr>kd_fifo := f\<rparr>, take copied bs, [], []))"
| "kw_write_part K (Kt_wake r) d = Some (Kt_done r, d, [], [], [Wake_up ''read_wq''])"
| "kw_write_part K _ d = None"

text \<open>A signal ends a wait if its condition does not hold.\<close>

fun kw_signal :: "'f kfifo_api \<Rightarrow> kw_call \<Rightarrow> 'f kf_dev \<Rightarrow> kw_call option" where
  "kw_signal K (Kr_wait len n) d = Some (if kf_is_empty K (kd_fifo d) then Kr_done (- ERESTARTSYS) else Kr_copy len n)"
| "kw_signal K (Kr_asleep len n) d = Some (if kf_is_empty K (kd_fifo d) then Kr_done (- ERESTARTSYS) else Kr_copy len n)"
| "kw_signal K (Kt_wait bs len) d = Some (if kf_is_full K (kd_fifo d) then Kt_done (- ERESTARTSYS) else Kt_copy bs len)"
| "kw_signal K (Kt_asleep bs len) d = Some (if kf_is_full K (kd_fifo d) then Kt_done (- ERESTARTSYS) else Kt_copy bs len)"
| "kw_signal K _ d = None"

text \<open>What a wake-up does to a call.\<close>

fun kw_woken :: "kact list \<Rightarrow> kw_call \<Rightarrow> kw_call" where
  "kw_woken as (Kr_asleep len n) = (if Wake_up ''read_wq'' \<in> set as then Kr_wait len n else Kr_asleep len n)"
| "kw_woken as (Kt_asleep bs len) = (if Wake_up ''write_wq'' \<in> set as then Kt_wait bs len else Kt_asleep bs len)"
| "kw_woken as c = c"

fun kw_is_copy :: "kw_call \<Rightarrow> bool" where
  "kw_is_copy (Kr_copy len n) = True" | "kw_is_copy (Kt_copy bs len) = True" | "kw_is_copy _ = False"

text \<open>The first part of the handler takes the lock and makes room, the second stores the level and gives the lock back, the third wakes.\<close>

definition kw_irq_drop :: "'f kfifo_api \<Rightarrow> 'f kf_dev \<Rightarrow> 'f kf_dev" where
  "kw_irq_drop K d = (if kf_is_full K (kd_fifo d) then d\<lparr>kd_fifo := fst (kf_out K (kd_fifo d) 1)\<rparr> else d)"

definition kw_irq_store :: "'f kfifo_api \<Rightarrow> u8 \<Rightarrow> 'f kf_dev \<Rightarrow> 'f kf_dev" where
  "kw_irq_store K b d = d\<lparr>kd_fifo := fst (kf_in K (kd_fifo d) [b])\<rparr>"

fun kw_lock :: "kw_irq \<Rightarrow> bool" where
  "kw_lock (Ki_locked b) = True" | "kw_lock _ = False"

definition kw_part :: "'f kfifo_api \<Rightarrow> kw_call \<Rightarrow> 'f kf_dev \<Rightarrow> 'f kw_result option" where
  "kw_part K c d = (case kw_read_part K c d of None \<Rightarrow> kw_write_part K c d | Some r \<Rightarrow> Some r)"

definition kw_step_fun :: "'f kfifo_api \<Rightarrow> kw_step \<Rightarrow> 'f kw_world \<Rightarrow> 'f kw_world option" where
  "kw_step_fun K a w =
     (case a of
        Kw_irq level \<Rightarrow>
          if kw_irq w = Ki_idle then Some (w\<lparr>kw_dev := kw_irq_drop K (kw_dev w), kw_irq := Ki_locked (of_int level)\<rparr>) else None
      | Kw_irq_next \<Rightarrow>
          (case kw_irq w of
             Ki_idle \<Rightarrow> None
           | Ki_locked b \<Rightarrow> Some (w\<lparr>kw_dev := kw_irq_store K b (kw_dev w), kw_irq := Ki_wake, kw_put := kw_put w @ [b]\<rparr>)
           | Ki_wake \<Rightarrow> Some (w\<lparr>kw_irq := Ki_idle, kw_calls := map (kw_woken [Wake_up ''read_wq'']) (kw_calls w)\<rparr>))
      | Kw_read nonblock len n \<Rightarrow> Some (w\<lparr>kw_calls := kw_calls w @ [Kr_test nonblock len n]\<rparr>)
      | Kw_write nonblock bs len \<Rightarrow> Some (w\<lparr>kw_calls := kw_calls w @ [Kt_test nonblock bs len]\<rparr>)
      | Kw_call i \<Rightarrow>
          if i < length (kw_calls w) \<and> \<not> (kw_is_copy (kw_calls w ! i) \<and> kw_lock (kw_irq w))
          then (case kw_part K (kw_calls w ! i) (kw_dev w) of
                  None \<Rightarrow> None
                | Some (c, d, put, out, as) \<Rightarrow>
                    Some (w\<lparr>kw_dev := d, kw_calls := map (kw_woken as) ((kw_calls w)[i := c]), kw_put := kw_put w @ put, kw_got := kw_got w @ out\<rparr>))
          else None
      | Kw_signal i \<Rightarrow>
          if i < length (kw_calls w)
          then map_option (\<lambda>c. w\<lparr>kw_calls := (kw_calls w)[i := c]\<rparr>) (kw_signal K (kw_calls w ! i) (kw_dev w))
          else None)"

fun kw_run :: "'f kfifo_api \<Rightarrow> (kw_step \<Rightarrow> 'f kw_world \<Rightarrow> bool) \<Rightarrow> kw_step list \<Rightarrow> 'f kw_world \<Rightarrow> 'f kw_world option" where
  "kw_run K G [] w = Some w"
| "kw_run K G (a # as) w = (if G a w then Option.bind (kw_step_fun K a w) (kw_run K G as) else None)"

definition kw_boot :: "'f \<Rightarrow> int \<Rightarrow> 'f kw_world" where
  "kw_boot f0 irq = \<lparr>kw_dev = \<lparr>kd_fifo = f0, kd_irq = irq\<rparr>, kw_irq = Ki_idle, kw_calls = [], kw_put = [], kw_got = []\<rparr>"

text \<open>The parts of the handler are the handler.\<close>

lemma kw_irq_parts: "kw_irq_store K (of_int v) (kw_irq_drop K d) = fst (kf_irq_handler K v d)"
  by (simp add: kw_irq_store_def kw_irq_drop_def kf_irq_handler_def overwrite_in_def Let_def)

text \<open>The parts of a non-blocking call one after the other are the call.\<close>

fun kw_alone :: "'f kfifo_api \<Rightarrow> nat \<Rightarrow> kw_call \<Rightarrow> 'f kf_dev \<Rightarrow> kw_call \<times> u8 list \<times> 'f kf_dev \<times> kact list" where
  "kw_alone K 0 c d = (c, [], d, [])"
| "kw_alone K (Suc k) c d =
     (case kw_part K c d of
        None \<Rightarrow> (c, [], d, [])
      | Some (c, d, put, out, as) \<Rightarrow> (case kw_alone K k c d of (c, out', d, as') \<Rightarrow> (c, out @ out', d, as @ as')))"

lemma kw_read_parts:
  "kf_read K d True None len n = Some (r, out, d', as) \<Longrightarrow> kw_alone K 3 (Kr_test True len n) d = (Kr_done r, out, d', as)"
  by (auto simp: kf_read_def kw_part_def numeral_3_eq_3 Let_def split: if_splits prod.splits)

lemma kw_write_parts:
  "kf_write K d True None bs len = Some (r, d', as) \<Longrightarrow> kw_alone K 3 (Kt_test True bs len) d = (Kt_done r, [], d', as)"
  by (auto simp: kf_write_def kw_part_def numeral_3_eq_3 Let_def split: if_splits prod.splits)

section \<open>No wake-up is lost\<close>

fun kw_asleep_r :: "kw_call \<Rightarrow> bool" where
  "kw_asleep_r (Kr_asleep len n) = True" | "kw_asleep_r _ = False"

fun kw_asleep_w :: "kw_call \<Rightarrow> bool" where
  "kw_asleep_w (Kt_asleep bs len) = True" | "kw_asleep_w _ = False"

text \<open>Calls that have still to wake the readers, and the writers.\<close>

fun kw_wakes_r :: "kw_call \<Rightarrow> bool" where
  "kw_wakes_r (Kt_wake r) = True" | "kw_wakes_r _ = False"

fun kw_wakes_w :: "kw_call \<Rightarrow> bool" where
  "kw_wakes_w (Kr_wake r) = True" | "kw_wakes_w _ = False"

definition kw_inv :: "('f \<Rightarrow> u8 list) \<Rightarrow> ('f \<Rightarrow> bool) \<Rightarrow> nat \<Rightarrow> 'f kw_world \<Rightarrow> bool" where
  "kw_inv contents valid cap w \<longleftrightarrow> (let c = contents (kd_fifo (kw_dev w)) in
     valid (kd_fifo (kw_dev w)) \<and> subseq (kw_got w @ c) (kw_put w) \<and>
     (kw_lock (kw_irq w) \<longrightarrow> length c < cap) \<and>
     (list_ex kw_asleep_r (kw_calls w) \<longrightarrow> c = [] \<or> kw_irq w = Ki_wake \<or> list_ex kw_wakes_r (kw_calls w)) \<and>
     (list_ex kw_asleep_w (kw_calls w) \<longrightarrow> cap \<le> length c + of_bool (kw_lock (kw_irq w)) \<or> list_ex kw_wakes_w (kw_calls w)))"

lemma list_ex_upd:
  "i < length xs \<Longrightarrow> list_ex P (xs[i := c]) \<longleftrightarrow> P c \<or> list_ex P (take i xs @ drop (Suc i) xs)"
  by (auto simp: upd_conv_take_nth_drop)

lemma list_ex_at:
  "i < length xs \<Longrightarrow> list_ex P xs \<longleftrightarrow> P (xs ! i) \<or> list_ex P (take i xs @ drop (Suc i) xs)"
  using list_ex_upd [of i xs P "xs ! i"] by simp

lemma woken_preds:
  "kw_asleep_r (kw_woken as c) = (kw_asleep_r c \<and> Wake_up ''read_wq'' \<notin> set as)"
  "kw_asleep_w (kw_woken as c) = (kw_asleep_w c \<and> Wake_up ''write_wq'' \<notin> set as)"
  "kw_wakes_r (kw_woken as c) = kw_wakes_r c" "kw_wakes_w (kw_woken as c) = kw_wakes_w c"
  by (cases c; simp)+

lemma list_ex_woken:
  "list_ex kw_asleep_r (map (kw_woken as) cs) \<longleftrightarrow> list_ex kw_asleep_r cs \<and> Wake_up ''read_wq'' \<notin> set as"
  "list_ex kw_asleep_w (map (kw_woken as) cs) \<longleftrightarrow> list_ex kw_asleep_w cs \<and> Wake_up ''write_wq'' \<notin> set as"
  "list_ex kw_wakes_r (map (kw_woken as) cs) \<longleftrightarrow> list_ex kw_wakes_r cs"
  "list_ex kw_wakes_w (map (kw_woken as) cs) \<longleftrightarrow> list_ex kw_wakes_w cs"
  by (auto simp: list_ex_iff woken_preds)

lemma kw_woken_nil [simp]: "kw_woken [] = id"
proof
  show "kw_woken [] c = id c" for c by (cases c) simp_all
qed

context kfifo
begin

lemma kw_irq_inv:
  assumes "kw_inv contents valid size w" and "kw_step_fun K (Kw_irq v) w = Some w'"
  shows "kw_inv contents valid size w'"
proof -
  let ?f = "kd_fifo (kw_dev w)"
  have f: "valid ?f" using assms(1) by (simp add: kw_inv_def Let_def)
  obtain f' where f': "kf_out K ?f 1 = (f', take 1 (contents ?f))" "valid f'" "contents f' = drop 1 (contents ?f)"
    using out_law [OF f, of 1] by blast
  have "subseq (xs @ drop 1 ys) zs" if "subseq (xs @ ys) zs" for xs ys zs :: "u8 list"
    using that by (metis subseq_append' subseq_order.trans suffix_drop suffix_imp_subseq)
  with assms f f' bounded [OF f] size_pos show ?thesis
    by (auto simp: kw_step_fun_def kw_irq_drop_def kw_inv_def Let_def is_full_iff split: if_splits)
qed

lemma kw_irq_next_inv:
  assumes "kw_inv contents valid size w" and "kw_step_fun K Kw_irq_next w = Some w'"
  shows "kw_inv contents valid size w'"
proof (cases "kw_irq w")
  case (Ki_locked b)
  let ?f = "kd_fifo (kw_dev w)"
  have f: "valid ?f" "length (contents ?f) < size" using assms(1) Ki_locked by (simp_all add: kw_inv_def Let_def)
  obtain f' where f': "kf_in K ?f [b] = (f', 1)" "valid f'" "contents f' = contents ?f @ [b]"
    using in_law [OF f(1), of "[b]"] f(2) by auto
  have "subseq (kw_got w @ contents ?f) (kw_put w)" using assms(1) by (simp add: kw_inv_def Let_def)
  then have "subseq ((kw_got w @ contents ?f) @ [b]) (kw_put w @ [b])" by (simp only: subseq_append)
  with assms Ki_locked f' show ?thesis
    by (auto simp: kw_step_fun_def kw_irq_store_def kw_inv_def Let_def)
qed (use assms in \<open>auto simp: kw_step_fun_def kw_inv_def Let_def list_ex_woken\<close>)

text \<open>What one part does.\<close>

lemma kw_part_spec:
  assumes f: "valid (kd_fifo d)" and part: "kw_part K c d = Some (c', d', put, out, as)"
  shows "valid (kd_fifo d') \<and> out @ contents (kd_fifo d') = contents (kd_fifo d) @ put \<and>
    \<not> kw_asleep_r c \<and> \<not> kw_asleep_w c \<and>
    (kw_asleep_r c' \<longrightarrow> contents (kd_fifo d) = []) \<and> (kw_asleep_w c' \<longrightarrow> length (contents (kd_fifo d)) = size) \<and>
    (put \<noteq> [] \<longrightarrow> kw_wakes_r c') \<and> (out \<noteq> [] \<longrightarrow> kw_wakes_w c') \<and> (put = [] \<or> out = []) \<and>
    (put @ out \<noteq> [] \<longrightarrow> kw_is_copy c) \<and> (\<not> kw_is_copy c \<longrightarrow> d' = d) \<and>
    (kw_wakes_r c \<longrightarrow> Wake_up ''read_wq'' \<in> set as) \<and> (kw_wakes_w c \<longrightarrow> Wake_up ''write_wq'' \<in> set as)"
proof (cases c)
  case (Kr_copy len n)
  obtain f' ret out' where u: "kf_to_user K (kd_fifo d) len n = (f', ret, out')" "valid f'"
      "out' = take (length out') (contents (kd_fifo d))" "contents f' = drop (length out') (contents (kd_fifo d))"
    using to_user_law [OF f, of len n] by blast
  have "out' @ contents f' = contents (kd_fifo d)" using u(3,4) by (metis append_take_drop_id)
  with Kr_copy part u(1,2) show ?thesis by (auto simp: kw_part_def Let_def split: if_splits)
next
  case (Kt_copy bs len)
  obtain f' ret k where u: "kf_from_user K (kd_fifo d) bs len = (f', ret, k)" "valid f'" "contents f' = contents (kd_fifo d) @ take k bs"
    using from_user_law [OF f, of bs len] by blast
  with Kt_copy part show ?thesis by (auto simp: kw_part_def Let_def split: if_splits)
qed (use f part in \<open>auto simp: kw_part_def is_empty_iff is_full_iff split: if_splits\<close>)

lemma kw_call_inv:
  assumes inv: "kw_inv contents valid size w" and step: "kw_step_fun K (Kw_call i) w = Some w'"
  shows "kw_inv contents valid size w'"
proof -
  let ?c = "kw_calls w ! i" and ?f = "kd_fifo (kw_dev w)"
  obtain c' d' put out as where i: "i < length (kw_calls w)" "\<not> (kw_is_copy ?c \<and> kw_lock (kw_irq w))"
    and part: "kw_part K ?c (kw_dev w) = Some (c', d', put, out, as)"
    and w': "w' = w\<lparr>kw_dev := d', kw_calls := map (kw_woken as) ((kw_calls w)[i := c']), kw_put := kw_put w @ put, kw_got := kw_got w @ out\<rparr>"
    using step by (auto simp: kw_step_fun_def split: if_splits option.splits)
  have f: "valid ?f" and sub: "subseq (kw_got w @ contents ?f) (kw_put w)"
    using inv by (simp_all add: kw_inv_def Let_def)
  note sp = kw_part_spec [OF f part]
  define ys where "ys = take i (kw_calls w) @ drop (Suc i) (kw_calls w)"
  have old: "list_ex P (kw_calls w) \<longleftrightarrow> P ?c \<or> list_ex P ys" for P
    unfolding ys_def by (rule list_ex_at [OF i(1)])
  have new: "list_ex P ((kw_calls w)[i := c']) \<longleftrightarrow> P c' \<or> list_ex P ys" for P
    unfolding ys_def by (rule list_ex_upd [OF i(1)])
  have "subseq ((kw_got w @ contents ?f) @ put) (kw_put w @ put)" using sub by (simp only: subseq_append)
  then have s: "subseq ((kw_got w @ out) @ contents (kd_fifo d')) (kw_put w @ put)" using sp by simp
  have lock: "kw_lock (kw_irq w) \<longrightarrow> length (contents (kd_fifo d')) < size"
    using inv sp i(2) by (auto simp: kw_inv_def Let_def)
  have wake: "list_ex kw_asleep_r (kw_calls w') \<longleftrightarrow> (kw_asleep_r c' \<or> list_ex kw_asleep_r ys) \<and> Wake_up ''read_wq'' \<notin> set as"
    "list_ex kw_asleep_w (kw_calls w') \<longleftrightarrow> (kw_asleep_w c' \<or> list_ex kw_asleep_w ys) \<and> Wake_up ''write_wq'' \<notin> set as"
    "list_ex kw_wakes_r (kw_calls w') \<longleftrightarrow> kw_wakes_r c' \<or> list_ex kw_wakes_r ys"
    "list_ex kw_wakes_w (kw_calls w') \<longleftrightarrow> kw_wakes_w c' \<or> list_ex kw_wakes_w ys"
    by (simp_all add: w' list_ex_woken new)
  have r: "list_ex kw_asleep_r (kw_calls w') \<longrightarrow>
      contents (kd_fifo d') = [] \<or> kw_irq w = Ki_wake \<or> list_ex kw_wakes_r (kw_calls w')"
  proof (cases "put = []")
    case True
    then have "contents ?f = [] \<Longrightarrow> contents (kd_fifo d') = []" using sp by simp
    moreover have "list_ex kw_asleep_r ys \<Longrightarrow> contents ?f = [] \<or> kw_irq w = Ki_wake \<or> kw_wakes_r ?c \<or> list_ex kw_wakes_r ys"
      using inv unfolding kw_inv_def Let_def old by blast
    ultimately show ?thesis using sp unfolding wake by blast
  qed (use sp in \<open>simp add: wake\<close>)
  have t: "list_ex kw_asleep_w (kw_calls w') \<longrightarrow>
      size \<le> length (contents (kd_fifo d')) + of_bool (kw_lock (kw_irq w)) \<or> list_ex kw_wakes_w (kw_calls w')"
  proof (cases "out = []")
    case True
    then have "length (contents ?f) \<le> length (contents (kd_fifo d'))" using sp by simp
    moreover have "list_ex kw_asleep_w ys \<Longrightarrow>
        size \<le> length (contents ?f) + of_bool (kw_lock (kw_irq w)) \<or> kw_wakes_w ?c \<or> list_ex kw_wakes_w ys"
      using inv unfolding kw_inv_def Let_def old by blast
    ultimately show ?thesis using sp unfolding wake by (meson le_trans add_le_mono1 trans_le_add1 order_refl)
  qed (use sp in \<open>simp add: wake\<close>)
  from sp s lock r t show ?thesis by (simp add: kw_inv_def Let_def w')
qed

lemma kw_signal_preds:
  assumes "kw_signal K c d = Some c'"
  shows "\<not> kw_asleep_r c' \<and> \<not> kw_asleep_w c' \<and> \<not> kw_wakes_r c \<and> \<not> kw_wakes_w c"
  using assms by (cases c) (auto split: if_splits)

lemma kw_step_inv:
  assumes inv: "kw_inv contents valid size w" and step: "kw_step_fun K a w = Some w'"
  shows "kw_inv contents valid size w'"
proof (cases a)
  case (Kw_signal i)
  obtain c' where i: "i < length (kw_calls w)" and c': "kw_signal K (kw_calls w ! i) (kw_dev w) = Some c'"
    and w': "w' = w\<lparr>kw_calls := (kw_calls w)[i := c']\<rparr>"
    using step by (auto simp: Kw_signal kw_step_fun_def split: if_splits)
  have calls: "kw_calls w' = (kw_calls w)[i := c']" by (simp add: w')
  have mono: "list_ex P (kw_calls w') \<Longrightarrow> list_ex P (kw_calls w)" if "\<not> P c'" for P
    using that unfolding calls list_ex_upd [OF i] list_ex_at [OF i] by blast
  have keep: "list_ex P (kw_calls w) \<Longrightarrow> list_ex P (kw_calls w')" if "\<not> P (kw_calls w ! i)" for P
    using that unfolding calls list_ex_upd [OF i] list_ex_at [OF i] by blast
  have "kw_dev w' = kw_dev w" "kw_irq w' = kw_irq w" "kw_put w' = kw_put w" "kw_got w' = kw_got w"
    by (simp_all add: w')
  moreover note kw_signal_preds [OF c']
  then have "list_ex kw_asleep_r (kw_calls w') \<Longrightarrow> list_ex kw_asleep_r (kw_calls w)"
    "list_ex kw_asleep_w (kw_calls w') \<Longrightarrow> list_ex kw_asleep_w (kw_calls w)"
    "list_ex kw_wakes_r (kw_calls w) \<Longrightarrow> list_ex kw_wakes_r (kw_calls w')"
    "list_ex kw_wakes_w (kw_calls w) \<Longrightarrow> list_ex kw_wakes_w (kw_calls w')"
    using mono keep by blast+
  ultimately show ?thesis
    using inv by (simp only: kw_inv_def Let_def) blast
next
  case (Kw_irq v)
  with kw_irq_inv [OF inv] step show ?thesis by blast
next
  case Kw_irq_next
  with kw_irq_next_inv [OF inv] step show ?thesis by blast
next
  case (Kw_call i)
  with kw_call_inv [OF inv] step show ?thesis by blast
next
  case (Kw_read nonblock len n)
  with inv step show ?thesis by (auto simp: kw_step_fun_def kw_inv_def Let_def)
next
  case (Kw_write nonblock bs len)
  with inv step show ?thesis by (auto simp: kw_step_fun_def kw_inv_def Let_def)
qed

lemma kw_run_inv:
  "kw_run K G as w = Some w' \<Longrightarrow> kw_inv contents valid size w \<Longrightarrow> kw_inv contents valid size w'"
  by (induction as arbitrary: w) (auto simp: bind_eq_Some_conv intro: kw_step_inv split: if_splits)

lemma kw_boot_inv:
  assumes "valid f0" and "contents f0 = []"
  shows "kw_inv contents valid size (kw_boot f0 irq)"
  using assms by (simp add: kw_inv_def kw_boot_def)

end

section \<open>End of file\<close>

text \<open>Calls of readers that have not yet copied.\<close>

fun kw_reader :: "kw_call \<Rightarrow> bool" where
  "kw_reader (Kr_test nonblock len n) = True" | "kw_reader (Kr_wait len n) = True"
| "kw_reader (Kr_asleep len n) = True" | "kw_reader (Kr_copy len n) = True" | "kw_reader _ = False"

text \<open>A reader whose buffer is good, and that copies only if there is something to copy.\<close>

fun kw_read_ok :: "bool \<Rightarrow> kw_call \<Rightarrow> bool" where
  "kw_read_ok avail (Kr_test nonblock len n) = (0 < len \<and> len \<le> n)"
| "kw_read_ok avail (Kr_wait len n) = (0 < len \<and> len \<le> n)"
| "kw_read_ok avail (Kr_asleep len n) = (0 < len \<and> len \<le> n)"
| "kw_read_ok avail (Kr_copy len n) = (0 < len \<and> len \<le> n \<and> avail)"
| "kw_read_ok avail (Kr_wake r) = (0 < r)"
| "kw_read_ok avail (Kr_done r) = (0 < r \<or> r = - EAGAIN \<or> r = - ERESTARTSYS)"
| "kw_read_ok avail _ = True"

definition kw_one_reader :: "kw_step \<Rightarrow> 'f kw_world \<Rightarrow> bool" where
  "kw_one_reader a w \<longleftrightarrow>
     (case a of Kw_read nonblock len n \<Rightarrow> 0 < len \<and> len \<le> n \<and> \<not> list_ex kw_reader (kw_calls w) | _ \<Rightarrow> True)"

definition kw_single :: "('f \<Rightarrow> u8 list) \<Rightarrow> 'f kw_world \<Rightarrow> bool" where
  "kw_single contents w \<longleftrightarrow>
     list_all (kw_read_ok (contents (kd_fifo (kw_dev w)) \<noteq> [] \<or> kw_lock (kw_irq w))) (kw_calls w) \<and>
     length (filter kw_reader (kw_calls w)) \<le> 1"

lemma read_ok_mono: "kw_read_ok a c \<Longrightarrow> (a \<Longrightarrow> b) \<Longrightarrow> kw_read_ok b c"
  by (cases c) auto

lemma read_ok_other: "\<not> kw_reader c \<Longrightarrow> kw_read_ok a c = kw_read_ok b c"
  by (cases c) auto

lemma reader_woken [simp]: "kw_reader (kw_woken as c) = kw_reader c" "kw_read_ok a (kw_woken as c) = kw_read_ok a c"
  by (cases c; simp)+

lemma reader_woken_comp [simp]: "kw_reader \<circ> kw_woken as = kw_reader"
  by (simp add: fun_eq_iff)

lemma signal_ok:
  assumes "kw_signal K c d = Some c'" and "kw_read_ok a c" and "\<not> kf_is_empty K (kd_fifo d) \<Longrightarrow> a"
  shows "kw_read_ok a c' \<and> (kw_reader c' \<longrightarrow> kw_reader c)"
  using assms by (cases c) (auto split: if_splits)

text \<open>The calls when one of them changes: only its own place, or all of them get more to copy.\<close>

lemma single_upd:
  assumes "i < length cs" and "list_all (kw_read_ok a) cs" and "length (filter kw_reader cs) \<le> 1"
    and "kw_read_ok b c'" and "kw_reader c' \<Longrightarrow> kw_reader (cs ! i)" and "a \<Longrightarrow> b \<or> kw_reader (cs ! i)"
  shows "list_all (kw_read_ok b) (cs[i := c']) \<and> length (filter kw_reader (cs[i := c'])) \<le> 1"
proof -
  let ?ys = "take i cs @ drop (Suc i) cs"
  have cs: "cs = take i cs @ cs ! i # drop (Suc i) cs" using assms(1) by (rule id_take_nth_drop)
  have n: "length (filter kw_reader cs) = length (filter kw_reader ?ys) + of_bool (kw_reader (cs ! i))"
    by (subst cs) simp
  have all: "list_all (kw_read_ok a) ?ys" using assms(2) by (subst (asm) cs) simp
  have "list_all (kw_read_ok b) ?ys"
  proof (cases "kw_reader (cs ! i)")
    case True
    then have "filter kw_reader ?ys = []" using assms(3) n by simp
    then show ?thesis using all read_ok_other [of _ a b] by (auto simp: list_all_iff filter_empty_conv)
  next
    case False
    then show ?thesis using all assms(6) read_ok_mono [of a _ b] by (auto simp: list_all_iff)
  qed
  moreover have "length (filter kw_reader (cs[i := c'])) = length (filter kw_reader ?ys) + of_bool (kw_reader c')"
    using assms(1) by (simp add: upd_conv_take_nth_drop)
  ultimately show ?thesis
    using assms n by (auto simp: upd_conv_take_nth_drop)
qed

context kfifo
begin

lemma kw_part_ok:
  assumes f: "valid (kd_fifo d)" and part: "kw_part K c d = Some (c', d', put, out, as)"
    and "kw_read_ok (contents (kd_fifo d) \<noteq> [] \<or> l) c" and "\<not> (kw_is_copy c \<and> l)"
  shows "kw_read_ok (contents (kd_fifo d') \<noteq> [] \<or> l) c' \<and> (kw_reader c' \<longrightarrow> kw_reader c) \<and>
    (contents (kd_fifo d) \<noteq> [] \<longrightarrow> contents (kd_fifo d') \<noteq> [] \<or> kw_reader c)"
proof (cases c)
  case (Kr_copy len n)
  then have len: "0 < len" "len \<le> n" "contents (kd_fifo d) \<noteq> []" using assms(3,4) by auto
  obtain f' where "kf_to_user K (kd_fifo d) len n = (f', 0, take len (contents (kd_fifo d)))"
    using to_user_exact [OF f len(2)] by blast
  with Kr_copy part len show ?thesis by (auto simp: kw_part_def Let_def split: if_splits)
next
  case (Kt_copy bs len)
  then show ?thesis using kw_part_spec [OF f part] part by (auto simp: kw_part_def Let_def split: if_splits prod.splits)
qed (use assms in \<open>auto simp: kw_part_def is_empty_iff split: if_splits\<close>)

lemma kw_single_step:
  assumes inv: "kw_inv contents valid size w" and one: "kw_single contents w" and guard: "kw_one_reader a w"
    and step: "kw_step_fun K a w = Some w'"
  shows "kw_single contents w'"
proof -
  let ?avail = "\<lambda>w. contents (kd_fifo (kw_dev w)) \<noteq> [] \<or> kw_lock (kw_irq w)"
  have f: "valid (kd_fifo (kw_dev w))" using inv by (simp add: kw_inv_def Let_def)
  have ok: "list_all (kw_read_ok (?avail w)) (kw_calls w)" "length (filter kw_reader (kw_calls w)) \<le> 1"
    using one by (simp_all add: kw_single_def)
  show ?thesis
  proof (cases a)
    case (Kw_call i)
    let ?c = "kw_calls w ! i"
    obtain c' d' put out as where i: "i < length (kw_calls w)" "\<not> (kw_is_copy ?c \<and> kw_lock (kw_irq w))"
      and part: "kw_part K ?c (kw_dev w) = Some (c', d', put, out, as)"
      and w': "w' = w\<lparr>kw_dev := d', kw_calls := map (kw_woken as) ((kw_calls w)[i := c']), kw_put := kw_put w @ put, kw_got := kw_got w @ out\<rparr>"
      using step by (auto simp: Kw_call kw_step_fun_def split: if_splits option.splits)
    have "kw_read_ok (?avail w) ?c" using ok(1) i(1) by (simp add: list_all_length)
    from kw_part_ok [OF f part this i(2)] single_upd [OF i(1) ok, of "?avail w'" c'] show ?thesis
      by (auto simp: kw_single_def w' list_all_iff)
  next
    case (Kw_signal i)
    obtain c' where i: "i < length (kw_calls w)" and c': "kw_signal K (kw_calls w ! i) (kw_dev w) = Some c'"
      and w': "w' = w\<lparr>kw_calls := (kw_calls w)[i := c']\<rparr>"
      using step by (auto simp: Kw_signal kw_step_fun_def split: if_splits)
    have "kw_read_ok (?avail w) (kw_calls w ! i)" using ok(1) i by (simp add: list_all_length)
    from signal_ok [OF c' this] single_upd [OF i ok, of "?avail w" c'] show ?thesis
      by (simp add: kw_single_def w' is_empty_iff [OF f])
  next
    case Kw_irq_next
    show ?thesis
    proof (cases "kw_irq w")
      case (Ki_locked b)
      obtain f' where "kf_in K (kd_fifo (kw_dev w)) [b] = (f', 1)" "contents f' = contents (kd_fifo (kw_dev w)) @ [b]"
        using in_law [OF f, of "[b]"] inv Ki_locked by (auto simp: kw_inv_def Let_def)
      with one step Ki_locked show ?thesis
        by (auto simp: Kw_irq_next kw_step_fun_def kw_irq_store_def kw_single_def)
    qed (use one step in \<open>auto simp: Kw_irq_next kw_step_fun_def kw_single_def list_all_iff\<close>)
  next
    case (Kw_irq v)
    have "list_all (kw_read_ok True) (kw_calls w)"
      using ok(1) read_ok_mono by (auto simp: list_all_iff)
    with one step show ?thesis by (auto simp: Kw_irq kw_step_fun_def kw_single_def split: if_splits)
  next
    case (Kw_read nonblock len n)
    have "filter kw_reader (kw_calls w) = []"
      using guard by (auto simp: Kw_read kw_one_reader_def list_ex_iff filter_empty_conv)
    with ok guard step show ?thesis
      by (auto simp: Kw_read kw_one_reader_def kw_step_fun_def kw_single_def)
  qed (use one step in \<open>auto simp: kw_step_fun_def kw_single_def\<close>)
qed

lemma kw_single_run:
  "kw_run K kw_one_reader as w = Some w' \<Longrightarrow> kw_inv contents valid size w \<Longrightarrow> kw_single contents w \<Longrightarrow> kw_single contents w'"
  by (induction as arbitrary: w) (auto simp: bind_eq_Some_conv intro: kw_step_inv kw_single_step split: if_splits)

end

text \<open>Two readers wait, one byte comes: the one that copies second returns 0.\<close>

definition kw_two_readers :: "kw_step list" where
  "kw_two_readers = [Kw_read False 1 1, Kw_read False 1 1, Kw_call 0, Kw_call 1, Kw_call 0, Kw_call 1,
     Kw_irq 1, Kw_irq_next, Kw_irq_next, Kw_call 0, Kw_call 1, Kw_call 0, Kw_call 1]"

text \<open>A writer fills the fifo; another tests while the handler has dropped a byte, and copies after the handler has stored one.\<close>

definition kw_write_window :: "u8 list \<Rightarrow> kw_step list" where
  "kw_write_window bs = [Kw_write False bs (length bs), Kw_call 0, Kw_call 0, Kw_irq 1, Kw_write False [1] 1, Kw_call 1,
     Kw_irq_next, Kw_call 1]"

context kfifo
begin

lemma two_readers:
  assumes "valid f0" and "contents f0 = []"
  shows "\<exists>w. kw_run K (\<lambda>_ _. True) kw_two_readers (kw_boot f0 irq) = Some w \<and> kw_calls w = [Kr_wake 1, Kr_done 0] \<and> kw_got w = [1]"
proof -
  obtain f1 where f1: "kf_in K f0 [1] = (f1, 1)" "valid f1" "contents f1 = [1]"
    using in_law [OF assms(1), of "[1]"] assms(2) size_pos by (cases size) auto
  obtain f2 where f2: "kf_to_user K f1 1 1 = (f2, 0, [1])" "valid f2" "contents f2 = []"
    using to_user_exact [OF f1(2), of 1 1] f1(3) by force
  obtain f3 where f3: "kf_to_user K f2 1 1 = (f3, 0, [])"
    using to_user_exact [OF f2(2), of 1 1] f2(3) by force
  have e: "kf_is_empty K f0" "\<not> kf_is_full K f0" "\<not> kf_is_empty K f1"
    using assms f1 size_pos by (simp_all add: is_empty_iff is_full_iff)
  show ?thesis
    by (simp add: kw_two_readers_def kw_boot_def kw_step_fun_def kw_part_def kw_irq_drop_def kw_irq_store_def e
        f1(1) f2(1) [simplified] f3 [simplified])
qed

lemma write_window:
  assumes "valid f0" and "contents f0 = []" and "length bs = size"
  shows "\<exists>w. kw_run K (\<lambda>_ _. True) (kw_write_window bs) (kw_boot f0 irq) = Some w \<and>
    kw_calls w = [Kt_wake (int size), Kt_done 0] \<and> kw_put w = bs @ [1]"
proof -
  obtain f1 where f1: "kf_from_user K f0 bs (length bs) = (f1, 0, length bs)" "valid f1" "contents f1 = bs"
    using from_user_exact [OF assms(1) order_refl, of bs] assms(2,3) by auto
  obtain f2 where f2: "kf_out K f1 1 = (f2, take 1 bs)" "valid f2" "contents f2 = drop 1 bs"
    using out_law [OF f1(2), of 1] f1(3) by auto
  have n: "length (drop 1 bs) = size - 1" using assms(3) by simp
  obtain f3 where f3: "kf_in K f2 [1] = (f3, 1)" "valid f3" "contents f3 = drop 1 bs @ [1]"
    using in_law [OF f2(2), of "[1]"] f2(3) n size_pos by auto
  obtain f4 where f4: "kf_from_user K f3 [1] 1 = (f4, 0, 0)"
    using from_user_exact [OF f3(2), of 1 "[1]"] f3(3) n size_pos by force
  have e: "\<not> kf_is_full K f0" "kf_is_full K f1" "\<not> kf_is_full K f2" "bs \<noteq> []"
    using assms f1 f2 n size_pos by (auto simp: is_full_iff)
  show ?thesis
    using e(4) by (simp add: kw_write_window_def kw_boot_def kw_step_fun_def kw_part_def kw_irq_drop_def kw_irq_store_def
        e(1-3) f1(1) [unfolded assms(3)] f2(1) [simplified] f3(1) f4 [simplified] assms(3) size_pos)
qed

end

section \<open>Properties\<close>

text \<open>
  Property C13: blocking calls of the device of \<^verbatim>\<open>kfifo.c\<close> under every interleaving with the interrupt and with each other.
  What was read followed by what can be read is a subsequence of what the interrupt and the writers put in. No wake-up is
  lost: a reader sleeps only next to an empty fifo or while the handler or a writer is about to wake it; a writer only
  next to a full fifo, counting the byte the handler is about to store, or while a reader is about to wake it. If there is one reader
  at a time, with a good buffer, its call returns bytes, \<open>-EAGAIN\<close> or \<open>-ERESTARTSYS\<close>. With two a blocking read can return 0,
  which is end of file; and a blocking write can return 0 because the handler opens a gap in a full fifo for a moment.
\<close>

theorem kfifo_waiters:
  assumes "kfifo K contents valid cap" and "valid f0" and "contents f0 = []"
  shows "(\<forall>as w. kw_run K (\<lambda>_ _. True) as (kw_boot f0 irq) = Some w \<longrightarrow> (let c = contents (kd_fifo (kw_dev w)) in
        subseq (kw_got w @ c) (kw_put w) \<and>
        (list_ex kw_asleep_r (kw_calls w) \<longrightarrow> c = [] \<or> kw_irq w = Ki_wake \<or> list_ex kw_wakes_r (kw_calls w)) \<and>
        (list_ex kw_asleep_w (kw_calls w) \<longrightarrow>
          cap \<le> length c + of_bool (kw_lock (kw_irq w)) \<or> list_ex kw_wakes_w (kw_calls w)))) \<and>
    (\<forall>as w r. kw_run K kw_one_reader as (kw_boot f0 irq) = Some w \<and> Kr_done r \<in> set (kw_calls w) \<longrightarrow>
        0 < r \<or> r = - EAGAIN \<or> r = - ERESTARTSYS) \<and>
    (\<exists>w. kw_run K (\<lambda>_ _. True) kw_two_readers (kw_boot f0 irq) = Some w \<and> kw_calls w = [Kr_wake 1, Kr_done 0] \<and> kw_got w = [1]) \<and>
    (\<exists>w. kw_run K (\<lambda>_ _. True) (kw_write_window (replicate cap 0)) (kw_boot f0 irq) = Some w \<and>
        kw_calls w = [Kt_wake (int cap), Kt_done 0] \<and> kw_put w = replicate cap 0 @ [1])"
proof -
  note boot = kfifo.kw_boot_inv [OF assms]
  have "kw_inv contents valid cap w" if "kw_run K (\<lambda>_ _. True) as (kw_boot f0 irq) = Some w" for as w
    using kfifo.kw_run_inv [OF assms(1) that boot] .
  moreover have "0 < r \<or> r = - EAGAIN \<or> r = - ERESTARTSYS"
    if "kw_run K kw_one_reader as (kw_boot f0 irq) = Some w" "Kr_done r \<in> set (kw_calls w)" for as w r
  proof -
    have "kw_single contents w"
      using kfifo.kw_single_run [OF assms(1) that(1) boot] by (simp add: kw_single_def kw_boot_def)
    with that(2) show ?thesis by (auto simp: kw_single_def list_all_iff)
  qed
  ultimately show ?thesis
    using kfifo.two_readers [OF assms] kfifo.write_window [OF assms, of "replicate cap 0"]
    unfolding kw_inv_def Let_def by (simp del: kw_run.simps) blast
qed

theorem kfifo_waiters_witness:
  "\<exists>w. kw_run (list_kfifo 2) (\<lambda>_ _. True) kw_two_readers (kw_boot [] 40) = Some w \<and> kw_calls w = [Kr_wake 1, Kr_done 0]"
  using kfifo_waiters [OF kfifo_list, of 2 "[]" 40] by (fastforce simp: list_valid_def)

end
