(* ===== verification/Kfifo_Machine.thy ===== *)
theory Kfifo_Machine
  imports Kfifo_Device "HOL-Library.Sublist"
begin

text \<open>
  The device of \<^verbatim>\<open>kfifo_rxtx.c\<close> as a machine: interrupts, readers, writers, the work item and any number of
  processes that open and close the device, in any order. A step is a part of the code that nothing can
  interleave with: what holds the lock, one atomic operation on the open count, one call of the kernel. In between
  a writer has copied its bytes and not yet scheduled the work, the work item is between two turns of
  its loop, an open has counted itself and not yet requested the interrupt, a last close has not yet freed it.

  \<open>rw_running\<close> is the local \<^verbatim>\<open>got\<close> of a running work item. The kernel does not run the item twice at the same time,
  \<^verbatim>\<open>cancel_work_sync\<close> takes a pending item back and waits for a running one, an interrupt that is
  requested cannot be requested again, and a file is closed for the last time only when no call uses it. A
  writer that sleeps is one that found the fifo full; when woken it tests again. Readers that sleep are not
  represented: every interrupt wakes them.
\<close>

record 'f rt_world =
  rw_dev :: "'f rxtx_dev"
  rw_pending :: bool
  rw_running :: "nat option"
  rw_unscheduled :: nat
  rw_asleep :: nat
  rw_irq :: bool
  rw_files :: nat
  rw_opening :: nat
  rw_closing :: nat
  rw_cancelling :: nat
  rw_bad_free :: bool
  rw_levels :: "u8 list"
  rw_read :: "u8 list"
  rw_accepted :: "u8 list"
  rw_sent :: "u8 list"

datatype rt_step =
    Rt_irq int | Rt_read nat nat | Rt_copy "u8 list" nat | Rt_schedule | Rt_sleep
  | Rt_work_start | Rt_work_turn
  | Rt_open_add | Rt_open_request int | Rt_release_dec | Rt_free_irq | Rt_cancel_work

text \<open>One turn of the loop of \<^verbatim>\<open>tx_work_fn\<close>: the byte taken and sent, if there was one. After the loop the writers are woken.\<close>

definition tx_work_turn :: "'f kfifo_api \<Rightarrow> 'f rxtx_dev \<Rightarrow> u8 list \<times> 'f rxtx_dev" where
  "tx_work_turn K d = (case kf_out K (rd_tx_fifo d) 1 of (f, out) \<Rightarrow> (out, d\<lparr>rd_tx_fifo := f\<rparr>))"

definition tx_work_end :: "nat \<Rightarrow> kact list" where
  "tx_work_end got = (if got \<noteq> 0 then [Wake_up ''tx_wq''] else [])"

definition rt_wake :: "kact list \<Rightarrow> nat \<Rightarrow> nat" where
  "rt_wake as n = (if Wake_up ''tx_wq'' \<in> set as then 0 else n)"

text \<open>The steps of interrupts, readers, writers and the work item.\<close>

definition rt_data_step :: "'f kfifo_api \<Rightarrow> rt_step \<Rightarrow> 'f rt_world \<Rightarrow> 'f rt_world option" where
  "rt_data_step K a w =
     (case a of
        Rt_irq v \<Rightarrow>
          if \<not> rw_irq w then None
          else Some (w\<lparr>rw_dev := fst (rxtx_irq_handler K v (rw_dev w)), rw_levels := rw_levels w @ [hw_rx_read_level v]\<rparr>)
      | Rt_read len n \<Rightarrow>
          if rw_files w = 0 then None
          else map_option (\<lambda>(_, out, d, as). w\<lparr>rw_dev := d, rw_read := rw_read w @ out, rw_asleep := rt_wake as (rw_asleep w)\<rparr>)
            (rxtx_read K (rw_dev w) True None len n)
      | Rt_copy from len \<Rightarrow>
          if rw_files w = 0 \<or> len = 0 then None
          else (case rxtx_write_copy K (rw_dev w) from len of
             (_, d, as) \<Rightarrow> Some (w\<lparr>rw_dev := d, rw_unscheduled := rw_unscheduled w + length as,
               rw_accepted := rw_accepted w @ take (snd (snd (kf_from_user K (rd_tx_fifo (rw_dev w)) from len))) from\<rparr>))
      | Rt_schedule \<Rightarrow>
          if rw_unscheduled w = 0 then None else Some (w\<lparr>rw_unscheduled := rw_unscheduled w - 1, rw_pending := True\<rparr>)
      | Rt_sleep \<Rightarrow>
          if rw_files w = 0 \<or> \<not> kf_is_full K (rd_tx_fifo (rw_dev w)) then None else Some (w\<lparr>rw_asleep := rw_asleep w + 1\<rparr>)
      | Rt_work_start \<Rightarrow>
          if rw_pending w \<and> rw_running w = None then Some (w\<lparr>rw_pending := False, rw_running := Some 0\<rparr>) else None
      | Rt_work_turn \<Rightarrow>
          (case rw_running w of
             None \<Rightarrow> None
           | Some got \<Rightarrow>
               (case tx_work_turn K (rw_dev w) of
                  (out, d) \<Rightarrow>
                    Some (if out = [] then w\<lparr>rw_dev := d, rw_running := None, rw_asleep := rt_wake (tx_work_end got) (rw_asleep w)\<rparr>
                          else w\<lparr>rw_dev := d, rw_running := Some (got + 1), rw_sent := rw_sent w @ out\<rparr>)))
      | _ \<Rightarrow> None)"

text \<open>The steps of open and release.\<close>

definition rt_open_step :: "rt_step \<Rightarrow> 'f rt_world \<Rightarrow> 'f rt_world option" where
  "rt_open_step a w =
     (case a of
        Rt_open_add \<Rightarrow>
          (case rxtx_open_add (rw_dev w) of
             (old, d) \<Rightarrow> Some (if old = 0 then w\<lparr>rw_dev := d, rw_opening := rw_opening w + 1\<rparr>
                             else w\<lparr>rw_dev := d, rw_files := rw_files w + 1\<rparr>))
      | Rt_open_request ret \<Rightarrow>
          if rw_opening w = 0 \<or> rw_irq w \<and> ret = 0 then None
          else (case rxtx_open_requested ret (rw_dev w) of
             (r, d) \<Rightarrow> Some (if r = 0
               then w\<lparr>rw_dev := d, rw_opening := rw_opening w - 1, rw_irq := True, rw_files := rw_files w + 1\<rparr>
               else w\<lparr>rw_dev := d, rw_opening := rw_opening w - 1\<rparr>))
      | Rt_release_dec \<Rightarrow>
          if rw_files w = 0 \<or> rw_files w = 1 \<and> (rw_unscheduled w \<noteq> 0 \<or> rw_asleep w \<noteq> 0) then None
          else (case rxtx_release_dec (rw_dev w) of
             (final, d) \<Rightarrow> Some (w\<lparr>rw_dev := d, rw_files := rw_files w - 1,
               rw_closing := rw_closing w + (if final then 1 else 0)\<rparr>))
      | Rt_free_irq \<Rightarrow>
          if rw_closing w = 0 then None
          else Some (w\<lparr>rw_closing := rw_closing w - 1, rw_cancelling := rw_cancelling w + 1,
            rw_bad_free := (rw_bad_free w \<or> \<not> rw_irq w), rw_irq := False\<rparr>)
      | Rt_cancel_work \<Rightarrow>
          if rw_cancelling w = 0 \<or> rw_running w \<noteq> None then None
          else Some (w\<lparr>rw_cancelling := rw_cancelling w - 1, rw_pending := False\<rparr>)
      | _ \<Rightarrow> None)"

definition rt_step_fun :: "'f kfifo_api \<Rightarrow> rt_step \<Rightarrow> 'f rt_world \<Rightarrow> 'f rt_world option" where
  "rt_step_fun K a w = (case rt_data_step K a w of Some w' \<Rightarrow> Some w' | None \<Rightarrow> rt_open_step a w)"

text \<open>A run in which every step also satisfies \<open>G\<close>, an assumption on the surroundings.\<close>

fun rt_run :: "'f kfifo_api \<Rightarrow> (rt_step \<Rightarrow> 'f rt_world \<Rightarrow> bool) \<Rightarrow> rt_step list \<Rightarrow> 'f rt_world \<Rightarrow> 'f rt_world option" where
  "rt_run K G [] w = Some w"
| "rt_run K G (a # as) w = (if G a w then Option.bind (rt_step_fun K a w) (rt_run K G as) else None)"

definition rt_boot :: "'f \<Rightarrow> int \<Rightarrow> 'f rt_world" where
  "rt_boot f0 irq =
     \<lparr>rw_dev = \<lparr>rd_rx_fifo = f0, rd_tx_fifo = f0, rd_irq = irq, rd_open_count = 0\<rparr>, rw_pending = False, rw_running = None,
      rw_unscheduled = 0, rw_asleep = 0, rw_irq = False, rw_files = 0, rw_opening = 0, rw_closing = 0, rw_cancelling = 0,
      rw_bad_free = False, rw_levels = [], rw_read = [], rw_accepted = [], rw_sent = []\<rparr>"

section \<open>The data path\<close>

text \<open>Nothing is lost, made up or reordered, and no writer is left asleep next to a fifo with room.\<close>

definition rt_inv :: "('f \<Rightarrow> u8 list) \<Rightarrow> ('f \<Rightarrow> bool) \<Rightarrow> nat \<Rightarrow> 'f rt_world \<Rightarrow> bool" where
  "rt_inv contents valid cap w \<longleftrightarrow> (let d = rw_dev w in
     valid (rd_rx_fifo d) \<and> valid (rd_tx_fifo d) \<and>
     rw_sent w @ contents (rd_tx_fifo d) = rw_accepted w \<and>
     subseq (rw_read w @ contents (rd_rx_fifo d)) (rw_levels w) \<and>
     (rw_asleep w \<noteq> 0 \<longrightarrow> length (contents (rd_tx_fifo d)) = cap \<or> (\<exists>got. rw_running w = Some (Suc got))))"

text \<open>Bytes that wait are on their way.\<close>

definition rt_live :: "('f \<Rightarrow> u8 list) \<Rightarrow> 'f rt_world \<Rightarrow> bool" where
  "rt_live contents w \<longleftrightarrow> (contents (rd_tx_fifo (rw_dev w)) \<noteq> [] \<longrightarrow>
     rw_pending w \<or> rw_running w \<noteq> None \<or> rw_unscheduled w \<noteq> 0)"

definition rt_clean :: "rt_step \<Rightarrow> bool" where
  "rt_clean a \<longleftrightarrow> (case a of Rt_copy from len \<Rightarrow> len \<le> length from | Rt_cancel_work \<Rightarrow> False | _ \<Rightarrow> True)"

lemma subseq_overwrite:
  assumes "subseq (xs @ ys) zs"
  shows "subseq (xs @ lastn n (ys @ [b])) (zs @ [b])"
proof -
  have "subseq (lastn n (ys @ [b])) (ys @ [b])"
    unfolding lastn_def by (rule suffix_imp_subseq [OF suffix_drop])
  then have "subseq (xs @ lastn n (ys @ [b])) ((xs @ ys) @ [b])"
    by (simp only: subseq_append' append.assoc)
  also have "subseq ((xs @ ys) @ [b]) (zs @ [b])"
    by (simp only: subseq_append assms)
  finally show ?thesis .
qed

lemma rt_step_cases:
  assumes "rt_step_fun K a w = Some w'"
  obtains (data) "rt_data_step K a w = Some w'" | (lifecycle) "rt_open_step a w = Some w'"
  using assms by (auto simp: rt_step_fun_def split: option.splits)

text \<open>What open and release leave alone.\<close>

lemma rt_open_step_frame:
  assumes "rt_open_step a w = Some w'"
  shows "rd_rx_fifo (rw_dev w') = rd_rx_fifo (rw_dev w) \<and> rd_tx_fifo (rw_dev w') = rd_tx_fifo (rw_dev w) \<and>
    rw_running w' = rw_running w \<and> rw_unscheduled w' = rw_unscheduled w \<and> rw_asleep w' = rw_asleep w \<and>
    rw_levels w' = rw_levels w \<and> rw_read w' = rw_read w \<and> rw_accepted w' = rw_accepted w \<and> rw_sent w' = rw_sent w \<and>
    (a \<noteq> Rt_cancel_work \<longrightarrow> rw_pending w' = rw_pending w)"
  using assms by (cases a) (auto simp: rt_open_step_def rxtx_open_defs Let_def split: if_splits)

context kfifo
begin

lemma rt_irq_inv:
  assumes "rt_inv contents valid size w" and "rt_data_step K (Rt_irq v) w = Some w'"
  shows "rt_inv contents valid size w'"
proof -
  let ?f = "rd_rx_fifo (rw_dev w)"
  have o: "valid (overwrite_in K ?f b)" "contents (overwrite_in K ?f b) = lastn size (contents ?f @ [b])" for b
    using overwrite_in_spec [of ?f b] assms(1) by (simp_all add: rt_inv_def Let_def)
  have "w' = w\<lparr>rw_dev := rw_dev w\<lparr>rd_rx_fifo := overwrite_in K ?f (hw_rx_read_level v)\<rparr>, rw_levels := rw_levels w @ [hw_rx_read_level v]\<rparr>"
    using assms(2) by (simp add: rt_data_step_def rxtx_irq_handler_def split: if_splits)
  moreover have "subseq (rw_read w @ contents ?f) (rw_levels w)"
    using assms(1) by (simp add: rt_inv_def Let_def)
  note subseq_overwrite [OF this, of size "hw_rx_read_level v"]
  ultimately show ?thesis
    using assms(1) by (simp add: rt_inv_def Let_def o)
qed

lemma rt_read_inv:
  assumes inv: "rt_inv contents valid size w" and step: "rt_data_step K (Rt_read len n) w = Some w'"
  shows "rt_inv contents valid size w' \<and> rd_tx_fifo (rw_dev w') = rd_tx_fifo (rw_dev w) \<and>
    rw_pending w' = rw_pending w \<and> rw_running w' = rw_running w \<and> rw_unscheduled w' = rw_unscheduled w"
proof -
  let ?f = "rd_rx_fifo (rw_dev w)"
  have f: "valid ?f" using inv by (simp add: rt_inv_def Let_def)
  obtain f' ret out where u: "kf_to_user K ?f len n = (f', ret, out)" "valid f'"
      "out = take (length out) (contents ?f)" "contents f' = drop (length out) (contents ?f)"
    using to_user_law [OF f, of len n] by blast
  have "out @ contents f' = contents ?f"
    using u(3,4) by (metis append_take_drop_id)
  then have "subseq ((rw_read w @ out) @ contents f') (rw_levels w)"
    using inv by (simp add: rt_inv_def Let_def)
  with step inv u(1,2) show ?thesis
    by (auto simp: rt_data_step_def rxtx_read_def rt_wake_def rt_inv_def Let_def split: if_splits)
qed

lemma rt_copy_inv:
  assumes inv: "rt_inv contents valid size w" and step: "rt_data_step K (Rt_copy from len) w = Some w'"
  shows "rt_inv contents valid size w' \<and> rw_pending w' = rw_pending w \<and> rw_running w' = rw_running w \<and>
    rw_unscheduled w \<le> rw_unscheduled w' \<and> (len \<le> length from \<longrightarrow> rw_unscheduled w' \<noteq> 0)"
proof -
  let ?f = "rd_tx_fifo (rw_dev w)"
  have f: "valid ?f" using inv by (simp add: rt_inv_def Let_def)
  obtain f' ret c where u: "kf_from_user K ?f from len = (f', ret, c)" "valid f'"
      "contents f' = contents ?f @ take c from" "len \<le> length from \<longrightarrow> ret = 0"
    using from_user_law [OF f, of "from" len] by blast
  have "length (contents f') = size" if "length (contents ?f) = size"
    using bounded [OF u(2)] u(3) that by simp
  with step inv u show ?thesis
    by (auto simp: rt_data_step_def rxtx_write_copy_def rt_inv_def Let_def split: if_splits)
qed

lemma rt_turn_inv:
  assumes inv: "rt_inv contents valid size w" and step: "rt_data_step K Rt_work_turn w = Some w'"
  shows "rt_inv contents valid size w' \<and> (rw_running w' = None \<longrightarrow> contents (rd_tx_fifo (rw_dev w')) = [])"
proof -
  have f: "valid (rd_tx_fifo (rw_dev w))" using inv by (simp add: rt_inv_def Let_def)
  obtain got where got: "rw_running w = Some got"
    using step by (auto simp: rt_data_step_def split: option.splits)
  show ?thesis
  proof (cases rule: out_one [OF f])
    case (1 f')
    then show ?thesis
      using step inv got size_pos
      by (cases got) (auto simp: rt_data_step_def tx_work_turn_def tx_work_end_def rt_wake_def rt_inv_def Let_def)
  next
    case (2 b f')
    then show ?thesis
      using step inv got by (auto simp: rt_data_step_def tx_work_turn_def rt_inv_def Let_def)
  qed
qed

lemma rt_step_inv:
  assumes inv: "rt_inv contents valid size w" and step: "rt_step_fun K a w = Some w'"
  shows "rt_inv contents valid size w'" and "rt_clean a \<Longrightarrow> rt_live contents w \<Longrightarrow> rt_live contents w'"
proof -
  have "rt_inv contents valid size w' \<and> (rt_clean a \<longrightarrow> rt_live contents w \<longrightarrow> rt_live contents w')"
    using step
  proof (cases rule: rt_step_cases)
    case lifecycle
    then have "a \<noteq> Rt_cancel_work" if "rt_clean a" using that by (auto simp: rt_clean_def)
    with rt_open_step_frame [OF lifecycle] inv show ?thesis
      by (simp add: rt_inv_def rt_live_def Let_def)
  next
    case data
    show ?thesis
    proof (cases a)
      case (Rt_irq v)
      have "rt_live contents w' = rt_live contents w"
        using data by (auto simp: Rt_irq rt_data_step_def rxtx_irq_handler_def rt_live_def split: if_splits)
      with rt_irq_inv [OF inv data [unfolded Rt_irq]] show ?thesis by simp
    next
      case (Rt_read len n)
      from rt_read_inv [OF inv data [unfolded Rt_read]] show ?thesis by (simp add: rt_live_def)
    next
      case (Rt_copy buf len)
      from rt_copy_inv [OF inv data [unfolded Rt_copy]] show ?thesis
        by (simp add: rt_live_def rt_clean_def Rt_copy)
    next
      case Rt_work_turn
      from rt_turn_inv [OF inv data [unfolded Rt_work_turn]] show ?thesis
        by (auto simp: rt_live_def)
    qed (use data inv in \<open>auto simp: rt_data_step_def rt_inv_def rt_live_def is_full_iff Let_def split: if_splits\<close>)
  qed
  then show "rt_inv contents valid size w'" and "rt_clean a \<Longrightarrow> rt_live contents w \<Longrightarrow> rt_live contents w'" by simp_all
qed

lemma rt_run_inv:
  assumes "rt_run K G as w = Some w'" and "rt_inv contents valid size w"
  shows "rt_inv contents valid size w'" and "(\<forall>a \<in> set as. rt_clean a) \<Longrightarrow> rt_live contents w \<Longrightarrow> rt_live contents w'"
proof -
  have "rt_inv contents valid size w' \<and> ((\<forall>a \<in> set as. rt_clean a) \<longrightarrow> rt_live contents w \<longrightarrow> rt_live contents w')"
    using assms
  proof (induction as arbitrary: w)
    case (Cons a as)
    then obtain w1 where w1: "rt_step_fun K a w = Some w1" "rt_run K G as w1 = Some w'"
      by (auto simp: bind_eq_Some_conv split: if_splits)
    from Cons.IH [OF w1(2)] rt_step_inv [OF Cons.prems(2) w1(1)] show ?case by simp
  qed simp
  then show "rt_inv contents valid size w'" and "(\<forall>a \<in> set as. rt_clean a) \<Longrightarrow> rt_live contents w \<Longrightarrow> rt_live contents w'" by simp_all
qed

lemma rt_boot_inv:
  assumes "valid f0" and "contents f0 = []"
  shows "rt_inv contents valid size (rt_boot f0 irq)" and "rt_live contents (rt_boot f0 irq)"
  using assms by (simp_all add: rt_boot_def rt_inv_def rt_live_def)

text \<open>A running work item that is let run sends what waits, ends and wakes every writer.\<close>

lemma rt_work_finishes:
  assumes "rt_inv contents valid size w" and "rw_running w = Some got"
  shows "\<exists>w'. rt_run K (\<lambda>_ _. True) (replicate (Suc (length (contents (rd_tx_fifo (rw_dev w))))) Rt_work_turn) w = Some w' \<and>
    rw_sent w' = rw_accepted w \<and> contents (rd_tx_fifo (rw_dev w')) = [] \<and> rw_running w' = None \<and> rw_asleep w' = 0"
  using assms
proof (induction "contents (rd_tx_fifo (rw_dev w))" arbitrary: w got)
  case Nil
  have f: "valid (rd_tx_fifo (rw_dev w))" using Nil.prems by (simp add: rt_inv_def Let_def)
  obtain f' where f': "kf_out K (rd_tx_fifo (rw_dev w)) 1 = (f', [])" "contents f' = []"
    using out_law [OF f, of 1] Nil.hyps by force
  then show ?case
    using Nil size_pos by (cases got) (auto simp: rt_step_fun_def rt_data_step_def tx_work_turn_def tx_work_end_def rt_wake_def rt_inv_def Let_def)
next
  case (Cons b bs)
  have f: "valid (rd_tx_fifo (rw_dev w))" using Cons.prems by (simp add: rt_inv_def Let_def)
  obtain f' where f': "kf_out K (rd_tx_fifo (rw_dev w)) 1 = (f', [b])" "contents f' = bs"
    using out_law [OF f, of 1] Cons.hyps(2) [symmetric] by force
  let ?w = "w\<lparr>rw_dev := rw_dev w\<lparr>rd_tx_fifo := f'\<rparr>, rw_running := Some (got + 1), rw_sent := rw_sent w @ [b]\<rparr>"
  have step: "rt_step_fun K Rt_work_turn w = Some ?w"
    using f' Cons.prems by (simp add: rt_step_fun_def rt_data_step_def tx_work_turn_def)
  from Cons.hyps(1) [of ?w] rt_step_inv(1) [OF Cons.prems(1) step] f' show ?case
    by (simp add: step Cons.hyps(2) [symmetric])
qed

lemma rt_work_done:
  assumes inv: "rt_inv contents valid size w" and "rw_pending w \<or> rw_running w \<noteq> None"
  shows "\<exists>n w'. rt_run K (\<lambda>_ _. True) ((if rw_running w = None then [Rt_work_start] else []) @ replicate n Rt_work_turn) w = Some w' \<and>
    rw_sent w' = rw_accepted w \<and> contents (rd_tx_fifo (rw_dev w')) = [] \<and> rw_running w' = None \<and> rw_asleep w' = 0"
proof (cases "rw_running w")
  case None
  let ?w = "w\<lparr>rw_pending := False, rw_running := Some 0\<rparr>"
  have step: "rt_step_fun K Rt_work_start w = Some ?w"
    using assms(2) None by (simp add: rt_step_fun_def rt_data_step_def)
  with rt_work_finishes [OF rt_step_inv(1) [OF inv step], of 0] None show ?thesis
    by (intro exI [of _ "Suc (length (contents (rd_tx_fifo (rw_dev w))))"]) simp
next
  case (Some got)
  with rt_work_finishes [OF inv Some] show ?thesis
    by (intro exI [of _ "Suc (length (contents (rd_tx_fifo (rw_dev w))))"]) (simp del: replicate_Suc)
qed

text \<open>A write, and the close before the work item starts.\<close>

lemma rt_close_strands:
  assumes "valid f0" and "contents f0 = []" and "bs \<noteq> []" and "length bs \<le> size"
  shows "\<exists>w. rt_run K (\<lambda>_ _. True) [Rt_open_add, Rt_open_request 0, Rt_copy bs (length bs), Rt_schedule, Rt_release_dec, Rt_free_irq, Rt_cancel_work]
      (rt_boot f0 irq) = Some w \<and>
    contents (rd_tx_fifo (rw_dev w)) = bs \<and> rw_sent w = [] \<and> \<not> rw_pending w \<and> rw_running w = None \<and> rw_unscheduled w = 0"
proof -
  obtain f' where "kf_from_user K f0 bs (length bs) = (f', 0, length bs)" "contents f' = bs"
    using from_user_exact [OF assms(1) order_refl, of bs] assms(2,4) by (auto simp: min_def)
  then show ?thesis
    using assms(3) by (simp add: rt_boot_def rt_step_fun_def rt_data_step_def rt_open_step_def rxtx_write_copy_def rxtx_open_defs INT_MAX_def Let_def)
qed

end

section \<open>Open and release\<close>

text \<open>What the data path leaves alone.\<close>

lemma rt_data_step_frame:
  assumes "rt_data_step K a w = Some w'"
  shows "rd_open_count (rw_dev w') = rd_open_count (rw_dev w) \<and> rw_irq w' = rw_irq w \<and> rw_files w' = rw_files w \<and>
    rw_opening w' = rw_opening w \<and> rw_closing w' = rw_closing w \<and> rw_cancelling w' = rw_cancelling w \<and> rw_bad_free w' = rw_bad_free w"
proof (cases a)
  case (Rt_read len n)
  then show ?thesis
    using assms by (auto simp: rt_data_step_def rxtx_read_def Let_def split: if_splits prod.splits)
next
  case Rt_work_turn
  then show ?thesis
    using assms by (auto simp: rt_data_step_def tx_work_turn_def split: if_splits prod.splits option.splits)
qed (use assms in \<open>auto simp: rt_data_step_def rxtx_irq_handler_def rxtx_write_copy_def split: if_splits prod.splits\<close>)

definition rt_counted :: "'f rt_world \<Rightarrow> bool" where
  "rt_counted w \<longleftrightarrow> rd_open_count (rw_dev w) = int (rw_files w) + int (rw_opening w)"

lemma rt_step_counted:
  assumes "rt_step_fun K a w = Some w'" and "rt_counted w" and "rd_open_count (rw_dev w) < INT_MAX"
  shows "rt_counted w' \<and> rd_open_count (rw_dev w') \<le> rd_open_count (rw_dev w) + 1"
  using assms(1)
proof (cases rule: rt_step_cases)
  case data
  from rt_data_step_frame [OF this] assms show ?thesis by (simp add: rt_counted_def)
next
  case lifecycle
  then show ?thesis
    using assms by (cases a) (auto simp: rt_open_step_def rxtx_open_defs rt_counted_def Let_def split: if_splits)
qed

text \<open>Open and release one at a time, as with a lock.\<close>

definition rt_locked :: "rt_step \<Rightarrow> 'f rt_world \<Rightarrow> bool" where
  "rt_locked a w \<longleftrightarrow>
     (a = Rt_open_add \<or> a = Rt_release_dec \<longrightarrow> rw_opening w = 0 \<and> rw_closing w = 0 \<and> rw_cancelling w = 0)"

definition rt_held :: "'f rt_world \<Rightarrow> bool" where
  "rt_held w \<longleftrightarrow> rt_counted w \<and> \<not> rw_bad_free w \<and> rw_opening w + rw_closing w \<le> 1 \<and>
     (rw_opening w \<noteq> 0 \<longrightarrow> rw_files w = 0 \<and> \<not> rw_irq w) \<and> (rw_closing w \<noteq> 0 \<longrightarrow> rw_files w = 0 \<and> rw_irq w) \<and>
     (rw_opening w = 0 \<and> rw_closing w = 0 \<longrightarrow> (rw_irq w \<longleftrightarrow> rw_files w \<noteq> 0))"

lemma rt_held_step:
  assumes step: "rt_step_fun K a w = Some w'" and "rt_locked a w" and inv: "rt_held w" and max: "rd_open_count (rw_dev w) < INT_MAX"
  shows "rt_held w'"
  using step
proof (cases rule: rt_step_cases)
  case data
  from rt_data_step_frame [OF this] inv show ?thesis by (simp add: rt_held_def rt_counted_def)
next
  case lifecycle
  have "rt_counted w'" using rt_step_counted [OF step _ max] inv by (simp add: rt_held_def)
  then show ?thesis
    using lifecycle assms(2-4)
    by (cases a) (auto simp: rt_open_step_def rxtx_open_defs rt_held_def rt_counted_def rt_locked_def Let_def split: if_splits)
qed

lemma rt_held_run:
  assumes "rt_run K rt_locked as w = Some w'" and "rt_held w" and "rd_open_count (rw_dev w) + int (length as) \<le> INT_MAX"
  shows "rt_held w'"
  using assms
proof (induction as arbitrary: w)
  case (Cons a as)
  then obtain w1 where w1: "rt_locked a w" "rt_step_fun K a w = Some w1" "rt_run K rt_locked as w1 = Some w'"
    by (auto simp: bind_eq_Some_conv split: if_splits)
  have max: "rd_open_count (rw_dev w) < INT_MAX" using Cons.prems(3) by simp
  have "rd_open_count (rw_dev w1) \<le> rd_open_count (rw_dev w) + 1"
    using rt_step_counted [OF w1(2) _ max] Cons.prems(2) by (simp add: rt_held_def)
  with Cons.IH [OF w1(3) rt_held_step [OF w1(2,1) Cons.prems(2) max]] Cons.prems(3) show ?case by simp
qed simp

text \<open>Three processes: the second finds the interrupt still requested by the first, which is closing, and the third counts on the second.\<close>

definition EBUSY :: int where
  "EBUSY = 16"

definition rt_race :: "rt_step list" where
  "rt_race = [Rt_open_add, Rt_open_request 0, Rt_release_dec, Rt_open_add, Rt_open_add, Rt_open_request (- EBUSY), Rt_free_irq]"

section \<open>Properties\<close>

text \<open>
  Property C12: the data path of \<^verbatim>\<open>kfifo_rxtx.c\<close> under every interleaving of interrupts, readers, writers, the work
  item, opens and closes, for every kfifo implementation. What has been sent followed by what waits is what the
  writers put in, and what was read followed by what can be read is a subsequence of the levels sampled:
  nothing is made up, repeated or reordered, and only the interrupt drops bytes. No wake-up is lost: a writer sleeps only
  next to a full fifo or while the work item that will wake it is running. As long as no user buffer
  faults and no last close takes the work item back, bytes that wait have a work item that is pending,
  running or about to be scheduled, and a pending or running one that is let run sends all of them and wakes the
  writers. A last close before the work item starts leaves the bytes unsent, without anything that will send them.
\<close>

theorem rt_data_path:
  assumes "kfifo K contents valid cap" and "valid f0" and "contents f0 = []"
    and "rt_run K (\<lambda>_ _. True) as (rt_boot f0 irq) = Some w"
  shows "rw_sent w @ contents (rd_tx_fifo (rw_dev w)) = rw_accepted w \<and>
    subseq (rw_read w @ contents (rd_rx_fifo (rw_dev w))) (rw_levels w) \<and>
    (rw_asleep w \<noteq> 0 \<longrightarrow> length (contents (rd_tx_fifo (rw_dev w))) = cap \<or> (\<exists>got. rw_running w = Some (Suc got))) \<and>
    ((\<forall>a \<in> set as. rt_clean a) \<longrightarrow> contents (rd_tx_fifo (rw_dev w)) \<noteq> [] \<longrightarrow>
      rw_pending w \<or> rw_running w \<noteq> None \<or> rw_unscheduled w \<noteq> 0) \<and>
    (rw_pending w \<or> rw_running w \<noteq> None \<longrightarrow>
      (\<exists>n w'. rt_run K (\<lambda>_ _. True) ((if rw_running w = None then [Rt_work_start] else []) @ replicate n Rt_work_turn) w = Some w' \<and>
        rw_sent w' = rw_accepted w \<and> contents (rd_tx_fifo (rw_dev w')) = [] \<and> rw_running w' = None \<and> rw_asleep w' = 0)) \<and>
    (\<forall>bs. bs \<noteq> [] \<and> length bs \<le> cap \<longrightarrow>
      (\<exists>w. rt_run K (\<lambda>_ _. True) [Rt_open_add, Rt_open_request 0, Rt_copy bs (length bs), Rt_schedule, Rt_release_dec, Rt_free_irq, Rt_cancel_work]
          (rt_boot f0 irq) = Some w \<and>
        contents (rd_tx_fifo (rw_dev w)) = bs \<and> rw_sent w = [] \<and> \<not> rw_pending w \<and> rw_running w = None \<and> rw_unscheduled w = 0))"
proof -
  have inv: "rt_inv contents valid cap w"
    and live: "(\<forall>a \<in> set as. rt_clean a) \<Longrightarrow> rt_live contents w"
    using kfifo.rt_run_inv [OF assms(1,4)] kfifo.rt_boot_inv [OF assms(1-3)] by blast+
  then show ?thesis
    using kfifo.rt_work_done [OF assms(1) inv] kfifo.rt_close_strands [OF assms(1-3)]
    unfolding rt_inv_def rt_live_def Let_def by blast
qed

text \<open>Two writes, the work item and the interrupt between them.\<close>

theorem rt_data_path_witness:
  "\<exists>w. rt_run (list_kfifo 2) (\<lambda>_ _. True) [Rt_open_add, Rt_open_request 0, Rt_copy [7, 8, 9] 3, Rt_schedule, Rt_work_start, Rt_irq 1,
      Rt_work_turn, Rt_copy [9] 1, Rt_read 4 4, Rt_sleep] (rt_boot [] 40) = Some w \<and>
    rw_sent w @ rd_tx_fifo (rw_dev w) = [7, 8, 9] \<and> rw_read w = [1] \<and> rw_asleep w = 1 \<and>
    (\<exists>n w'. rt_run (list_kfifo 2) (\<lambda>_ _. True) (replicate n Rt_work_turn) w = Some w' \<and> rw_sent w' = [7, 8, 9] \<and> rw_asleep w' = 0)"
proof -
  let ?as = "[Rt_open_add, Rt_open_request 0, Rt_copy [7, 8, 9] 3, Rt_schedule, Rt_work_start, Rt_irq 1,
      Rt_work_turn, Rt_copy [9] 1, Rt_read 4 4, Rt_sleep]"
  have "case rt_run (list_kfifo 2) (\<lambda>_ _. True) ?as (rt_boot [] 40) of None \<Rightarrow> False
      | Some w \<Rightarrow> rw_accepted w = [7, 8, 9] \<and> rw_read w = [1] \<and> rw_asleep w = 1 \<and> rw_running w = Some 1"
    by code_simp
  then obtain w where w: "rt_run (list_kfifo 2) (\<lambda>_ _. True) ?as (rt_boot [] 40) = Some w"
      "rw_accepted w = [7, 8, 9]" "rw_read w = [1]" "rw_asleep w = 1" "rw_running w = Some 1"
    by (auto split: option.splits)
  from rt_data_path [OF kfifo_list _ _ w(1)] w show ?thesis
    by (simp add: list_valid_def del: rt_run.simps) blast
qed

text \<open>
  Property C26: open and release of \<^verbatim>\<open>kfifo_rxtx.c\<close>, with the open count, the request of the interrupt and its
  release as separate steps. If opens and releases exclude each other, the interrupt is requested exactly while the
  device is open, between two calls, and never freed without being held; the open count is the number of open files. The code has no
  such lock: three processes and a kernel that refuses nothing but a second request leave a
  file open without the interrupt, and its close frees an interrupt that is not held.
\<close>

theorem rt_irq_protocol:
  fixes f0 :: 'f
  shows "(\<forall>as w. rt_run K rt_locked as (rt_boot f0 irq) = Some w \<and> int (length as) \<le> INT_MAX \<longrightarrow>
      \<not> rw_bad_free w \<and> rd_open_count (rw_dev w) = int (rw_files w) + int (rw_opening w) \<and>
      (rw_opening w = 0 \<and> rw_closing w = 0 \<longrightarrow> (rw_irq w \<longleftrightarrow> rd_open_count (rw_dev w) > 0))) \<and>
    (\<exists>w w'. rt_run K (\<lambda>_ _. True) rt_race (rt_boot f0 irq) = Some w \<and>
      rw_files w = 1 \<and> \<not> rw_irq w \<and> rw_opening w = 0 \<and> rw_closing w = 0 \<and> \<not> rw_bad_free w \<and>
      rt_run K (\<lambda>_ _. True) [Rt_release_dec, Rt_free_irq] w = Some w' \<and> rw_bad_free w')"
proof -
  have "rt_held w" if "rt_run K rt_locked as (rt_boot f0 irq) = Some w" "int (length as) \<le> INT_MAX" for as w
    using rt_held_run [OF that(1)] that(2) by (simp add: rt_boot_def rt_held_def rt_counted_def)
  moreover have "\<exists>w w'. rt_run K (\<lambda>_ _. True) rt_race (rt_boot f0 irq) = Some w \<and>
      rw_files w = 1 \<and> \<not> rw_irq w \<and> rw_opening w = 0 \<and> rw_closing w = 0 \<and> \<not> rw_bad_free w \<and>
      rt_run K (\<lambda>_ _. True) [Rt_release_dec, Rt_free_irq] w = Some w' \<and> rw_bad_free w'"
    by (simp add: rt_race_def rt_boot_def rt_step_fun_def rt_data_step_def rt_open_step_def rxtx_open_defs INT_MAX_def EBUSY_def)
  ultimately show ?thesis
    by (auto simp: rt_held_def rt_counted_def)
qed

text \<open>Two opens and a close, one after the other.\<close>

theorem rt_irq_protocol_witness:
  "\<exists>w. rt_run (list_kfifo 2) rt_locked [Rt_open_add, Rt_open_request 0, Rt_open_add, Rt_release_dec] (rt_boot [] 40) = Some w \<and>
    rd_open_count (rw_dev w) = 1 \<and> rw_irq w \<and> \<not> rw_bad_free w"
proof -
  let ?as = "[Rt_open_add, Rt_open_request 0, Rt_open_add, Rt_release_dec]"
  have "\<exists>w. rt_run (list_kfifo 2) rt_locked ?as (rt_boot [] 40) = Some w \<and>
      rd_open_count (rw_dev w) = 1 \<and> rw_opening w = 0 \<and> rw_closing w = 0"
    by (simp add: rt_locked_def rt_boot_def rt_step_fun_def rt_data_step_def rt_open_step_def rxtx_open_defs INT_MAX_def)
  moreover have "int (length ?as) \<le> INT_MAX" by (simp add: INT_MAX_def)
  ultimately show ?thesis
    using rt_irq_protocol [of "list_kfifo 2" "[]" 40] by fastforce
qed

end
