(* ===== verification/Spi_Ring.thy ===== *)
theory Spi_Ring
  imports Prelude
begin

text \<open>
  The ring of packet numbers of \<^verbatim>\<open>linux/kernel/slave-spi-driver/spi-slave-main.c\<close>. One allocation
  holds two arrays of \<^verbatim>\<open>RX_RING_PACKETS\<close> integers: the circular buffer of packet numbers between tail
  and head, and a flag per packet number that says whether the packet is in the buffer. The macros
  of the source are functions on the ring.
\<close>

section \<open>The macros\<close>

definition RX_RING_PACKETS :: int where "RX_RING_PACKETS = 16384"

record rx_ring =
  rr_idx :: "int list"
  rr_flag :: "int list"
  rr_head :: int
  rr_tail :: int

text \<open>\<^verbatim>\<open>CIRC_CNT\<close> and \<^verbatim>\<open>CIRC_SPACE\<close> of \<^verbatim>\<open>linux/circ_buf.h\<close>.\<close>

definition CIRC_CNT :: "int \<Rightarrow> int \<Rightarrow> int" where
  "CIRC_CNT head tail = (head - tail) AND (RX_RING_PACKETS - 1)"

definition CIRC_SPACE :: "int \<Rightarrow> int \<Rightarrow> int" where
  "CIRC_SPACE head tail = CIRC_CNT tail (head + 1)"

definition RXRING_USED :: "rx_ring \<Rightarrow> int" where
  "RXRING_USED c = CIRC_CNT (rr_head c) (rr_tail c)"

definition RXRING_VACANT :: "rx_ring \<Rightarrow> int" where
  "RXRING_VACANT c = CIRC_SPACE (rr_head c) (rr_tail c)"

definition RXRING_ADVANCE :: "int \<Rightarrow> int" where
  "RXRING_ADVANCE e = (e + 1) AND (RX_RING_PACKETS - 1)"

definition RXRING_TAIL_IDX :: "rx_ring \<Rightarrow> int" where
  "RXRING_TAIL_IDX c = rr_idx c ! nat (rr_tail c)"

definition RXRING_REMOVE :: "rx_ring \<Rightarrow> rx_ring" where
  "RXRING_REMOVE c =
     (let c = c\<lparr>rr_flag := (rr_flag c)[nat (RXRING_TAIL_IDX c) := 0]\<rparr>;
          c = c\<lparr>rr_idx := (rr_idx c)[nat (rr_tail c) := -1]\<rparr>
      in c\<lparr>rr_tail := RXRING_ADVANCE (rr_tail c)\<rparr>)"

definition RXRING_INSERT :: "rx_ring \<Rightarrow> int \<Rightarrow> rx_ring" where
  "RXRING_INSERT c idx =
     (let c = c\<lparr>rr_idx := (rr_idx c)[nat (rr_head c) := idx]\<rparr>;
          c = c\<lparr>rr_flag := (rr_flag c)[nat (rr_idx c ! nat (rr_head c)) := 1]\<rparr>
      in c\<lparr>rr_head := RXRING_ADVANCE (rr_head c)\<rparr>)"

definition RXRING_CLEAR :: "rx_ring \<Rightarrow> rx_ring" where
  "RXRING_CLEAR c = c\<lparr>rr_tail := 0, rr_head := 0,
     rr_idx := replicate (nat RX_RING_PACKETS) 0, rr_flag := replicate (nat RX_RING_PACKETS) 0\<rparr>"

text \<open>The scan for a free packet number: \<open>flags\<close> are the flags from number \<open>i\<close> on.\<close>

fun free_scan :: "int \<Rightarrow> int list \<Rightarrow> int" where
  "free_scan i [] = -1"
| "free_scan i (f # fs) = (if f \<noteq> 0 then free_scan (i + 1) fs else i)"

definition rxring_get_free_idx :: "rx_ring \<Rightarrow> int" where
  "rxring_get_free_idx c = free_scan 0 (rr_flag c)"

section \<open>Invariant and abstraction\<close>

definition rr_size :: nat where "rr_size = 16384"

lemma RX_RING_PACKETS_size: "RX_RING_PACKETS = int rr_size"
  by (simp add: RX_RING_PACKETS_def rr_size_def)

lemma rr_size_pos [simp]: "0 < rr_size"
  by (simp add: rr_size_def)

lemma and_ring_mask: "x AND (RX_RING_PACKETS - 1) = x mod int rr_size"
proof -
  have "x AND mask 14 = x mod 2 ^ 14"
    by (simp only: take_bit_eq_mask [symmetric] take_bit_eq_mod)
  then show ?thesis
    by (simp add: RX_RING_PACKETS_def rr_size_def mask_eq_exp_minus_1)
qed

text \<open>The packet numbers in the ring, oldest first.\<close>

definition rr_used :: "rx_ring \<Rightarrow> nat" where
  "rr_used c = ring_dist rr_size (nat (rr_head c)) (nat (rr_tail c))"

definition rr_entries :: "rx_ring \<Rightarrow> int list" where
  "rr_entries c = map (\<lambda>i. rr_idx c ! ((nat (rr_tail c) + i) mod rr_size)) [0..<rr_used c]"

text \<open>The ends are in range, the packet numbers in the ring are valid and distinct, and exactly
  these are flagged.\<close>

definition rr_bounds :: "rx_ring \<Rightarrow> bool" where
  "rr_bounds c \<longleftrightarrow> length (rr_idx c) = rr_size \<and> length (rr_flag c) = rr_size \<and>
     rr_head c \<in> {0..<int rr_size} \<and> rr_tail c \<in> {0..<int rr_size}"

definition rr_ok :: "rx_ring \<Rightarrow> bool" where
  "rr_ok c \<longleftrightarrow> rr_bounds c \<and> distinct (rr_entries c) \<and> set (rr_entries c) \<subseteq> {0..<int rr_size} \<and>
     (\<forall>i < rr_size. rr_flag c ! i = of_bool (int i \<in> set (rr_entries c)))"

lemma length_rr_entries [simp]: "length (rr_entries c) = rr_used c"
  by (simp add: rr_entries_def)

lemma rr_used_less: "rr_used c < rr_size"
  by (simp add: rr_used_def ring_dist_less)

lemma int_ring_dist:
  assumes "h \<in> {0..<int rr_size}" and "t \<in> {0..<int rr_size}"
  shows "(h - t) mod int rr_size = int (ring_dist rr_size (nat h) (nat t))"
proof -
  have "(h - t) mod int rr_size = (h - t + int rr_size) mod int rr_size"
    by simp
  also have "h - t + int rr_size = int (nat h + rr_size - nat t)"
  proof -
    have "nat t \<le> nat h + rr_size" using assms by (simp add: nat_le_iff)
    then show ?thesis using assms by (simp add: of_nat_diff)
  qed
  finally show ?thesis
    by (simp only: ring_dist_def zmod_int)
qed

lemma RXRING_USED_used: "rr_bounds c \<Longrightarrow> RXRING_USED c = int (rr_used c)"
  by (simp add: RXRING_USED_def CIRC_CNT_def and_ring_mask int_ring_dist rr_used_def rr_bounds_def)

lemma RXRING_VACANT_used:
  assumes "rr_bounds c"
  shows "RXRING_VACANT c = int (rr_size - 1 - rr_used c)"
proof -
  have "RXRING_VACANT c = (- 1 - (rr_head c - rr_tail c)) mod int rr_size"
    by (simp add: RXRING_VACANT_def CIRC_SPACE_def CIRC_CNT_def and_ring_mask algebra_simps)
  also have "\<dots> = (- 1 - (rr_head c - rr_tail c) mod int rr_size) mod int rr_size"
    by (rule mod_diff_right_eq [symmetric])
  also have "(rr_head c - rr_tail c) mod int rr_size = int (rr_used c)"
    using assms by (simp only: int_ring_dist rr_bounds_def rr_used_def)
  also have "(- 1 - int (rr_used c)) mod int rr_size =
      (- 1 - int (rr_used c) + int rr_size) mod int rr_size"
    by simp
  also have "- 1 - int (rr_used c) + int rr_size = int rr_size - 1 - int (rr_used c)"
    by simp
  also have "(int rr_size - 1 - int (rr_used c)) mod int rr_size = int rr_size - 1 - int (rr_used c)"
    using rr_used_less [of c] by (intro mod_pos_pos_trivial) linarith+
  also have "\<dots> = int (rr_size - 1 - rr_used c)"
    using rr_used_less [of c] by simp
  finally show ?thesis .
qed

lemma RXRING_ADVANCE_nat:
  assumes "e \<in> {0..<int rr_size}"
  shows "RXRING_ADVANCE e \<in> {0..<int rr_size}" and "nat (RXRING_ADVANCE e) = Suc (nat e) mod rr_size"
  using assms by (auto simp: RXRING_ADVANCE_def and_ring_mask nat_mod_distrib nat_add_distrib)

section \<open>Operations on the abstract queue\<close>

lemma free_scan_spec:
  "free_scan i fs = (if \<exists>f \<in> set fs. f = 0 then i + int (LEAST k. k < length fs \<and> fs ! k = 0) else -1)"
proof (induction fs arbitrary: i)
  case (Cons f fs)
  show ?case
  proof (cases "f = 0")
    case True
    then have "(LEAST k. k < length (f # fs) \<and> (f # fs) ! k = 0) = 0"
      by (intro Least_equality) auto
    with True show ?thesis by simp
  next
    case False
    show ?thesis
    proof (cases "\<exists>g \<in> set fs. g = 0")
      case True
      then obtain k where "k < length fs" "fs ! k = 0" by (auto simp: in_set_conv_nth)
      then have "(LEAST k. k < length (f # fs) \<and> (f # fs) ! k = 0) =
          Suc (LEAST k. k < length fs \<and> fs ! k = 0)"
        using False by (subst Least_Suc [where n = "Suc k"]) auto
      with True False Cons.IH show ?thesis by simp
    qed (use False Cons.IH in auto)
  qed
qed simp

text \<open>There is always a free packet number: the branch of \<^verbatim>\<open>receive_packet\<close> that reports that there
  is none cannot be reached.\<close>

lemma free_idx:
  assumes "rr_ok c"
  shows "rxring_get_free_idx c \<in> {0..<int rr_size} - set (rr_entries c)"
proof -
  have len: "length (rr_flag c) = rr_size"
    and flag: "\<And>i. i < rr_size \<Longrightarrow> rr_flag c ! i = of_bool (int i \<in> set (rr_entries c))"
    using assms by (auto simp: rr_ok_def rr_bounds_def)
  have "card (set (rr_entries c)) < card {0..<int rr_size}"
    using card_length [of "rr_entries c"] rr_used_less [of c] by simp
  then have "\<not> {0..<int rr_size} \<subseteq> set (rr_entries c)"
    by (meson List.finite_set card_mono not_le)
  then obtain j where "j \<in> {0..<int rr_size}" "j \<notin> set (rr_entries c)" by blast
  moreover from this have "nat j < rr_size" by (simp add: nat_less_iff)
  ultimately have "nat j < length (rr_flag c) \<and> rr_flag c ! nat j = 0"
    using flag [of "nat j"] len by simp
  note j = this
  then have ex: "\<exists>f \<in> set (rr_flag c). f = 0"
    by (auto simp: in_set_conv_nth)
  have least: "(LEAST k. k < length (rr_flag c) \<and> rr_flag c ! k = 0) < length (rr_flag c) \<and>
      rr_flag c ! (LEAST k. k < length (rr_flag c) \<and> rr_flag c ! k = 0) = 0"
    using j by (rule LeastI [where P = "\<lambda>k. k < length (rr_flag c) \<and> rr_flag c ! k = 0"])
  show ?thesis
    using least flag len ex by (auto simp: rxring_get_free_idx_def free_scan_spec)
qed

lemma ring_insert:
  assumes ok: "rr_ok c" and room: "rr_used c < rr_size - 1"
    and idx: "idx \<in> {0..<int rr_size} - set (rr_entries c)"
  shows "rr_ok (RXRING_INSERT c idx) \<and> rr_entries (RXRING_INSERT c idx) = rr_entries c @ [idx]"
proof -
  let ?h = "nat (rr_head c)" and ?t = "nat (rr_tail c)" and ?c = "RXRING_INSERT c idx"
  have b: "rr_bounds c" "length (rr_idx c) = rr_size" "length (rr_flag c) = rr_size"
      "rr_head c \<in> {0..<int rr_size}" "rr_tail c \<in> {0..<int rr_size}"
    using ok by (auto simp: rr_ok_def rr_bounds_def)
  then have ht: "?h < rr_size" "?t < rr_size" by auto
  have c: "rr_idx ?c = (rr_idx c)[?h := idx]" "rr_flag ?c = (rr_flag c)[nat idx := 1]"
      "rr_tail ?c = rr_tail c" "rr_head ?c = RXRING_ADVANCE (rr_head c)"
    using b ht by (simp_all add: RXRING_INSERT_def Let_def)
  have bounds: "rr_bounds ?c"
    using b by (simp add: rr_bounds_def c RXRING_ADVANCE_nat(1) del: atLeastLessThan_iff)
  have used: "rr_used ?c = Suc (rr_used c)"
    using ht room b(4) by (simp add: rr_used_def c RXRING_ADVANCE_nat(2) ring_dist_Suc_head)
  have ent: "rr_entries ?c = rr_entries c @ [idx]"
    unfolding rr_entries_def used
    using ht b(2) by (auto simp: c rr_used_def ring_dist_slot ring_dist_other_slot)
  have "rr_flag ?c ! i = of_bool (int i \<in> set (rr_entries ?c))" if "i < rr_size" for i
    using that ok idx b(3) by (auto simp: ent c rr_ok_def nth_list_update)
  then show ?thesis
    using bounds ent ok idx by (auto simp: rr_ok_def)
qed

lemma ring_remove:
  assumes ok: "rr_ok c" and ne: "rr_entries c = x # xs"
  shows "RXRING_TAIL_IDX c = x \<and> rr_ok (RXRING_REMOVE c) \<and> rr_entries (RXRING_REMOVE c) = xs"
proof -
  let ?h = "nat (rr_head c)" and ?t = "nat (rr_tail c)" and ?c = "RXRING_REMOVE c"
  have b: "rr_bounds c" "length (rr_idx c) = rr_size" "length (rr_flag c) = rr_size"
      "rr_head c \<in> {0..<int rr_size}" "rr_tail c \<in> {0..<int rr_size}"
    using ok by (auto simp: rr_ok_def rr_bounds_def)
  then have ht: "?h < rr_size" "?t < rr_size" by auto
  have pos: "0 < rr_used c"
    using ne by (metis length_Cons length_rr_entries zero_less_Suc)
  have c: "rr_idx ?c = (rr_idx c)[?t := -1]" "rr_head ?c = rr_head c"
      "rr_tail ?c = RXRING_ADVANCE (rr_tail c)" "rr_flag ?c = (rr_flag c)[nat (RXRING_TAIL_IDX c) := 0]"
    by (simp_all add: RXRING_REMOVE_def Let_def)
  have "?h \<noteq> ?t"
    using pos ht by (auto simp: rr_used_def ring_dist_def)
  then have used: "rr_used c = Suc (rr_used ?c)"
    using ht b(5) by (simp add: rr_used_def c RXRING_ADVANCE_nat(2) ring_dist_Suc_tail)
  have "?t \<noteq> Suc (?t + i) mod rr_size" if "i < rr_used ?c" for i
    using that used rr_used_less [of c] ht(2) by (auto simp: mod_if)
  then have "rr_entries c = rr_idx c ! ?t # rr_entries ?c"
    using ht b(2,5) unfolding rr_entries_def used upt_Suc_map
    by (auto simp: c RXRING_ADVANCE_nat(2) mod_add_left_eq)
  then have x: "RXRING_TAIL_IDX c = x" and ent: "rr_entries ?c = xs"
    using ne by (simp_all add: RXRING_TAIL_IDX_def)
  have bounds: "rr_bounds ?c"
    using b by (simp add: rr_bounds_def c RXRING_ADVANCE_nat(1) del: atLeastLessThan_iff)
  have "x \<in> {0..<int rr_size}" "x \<notin> set xs"
    using ok ne by (auto simp: rr_ok_def)
  then have "rr_flag ?c ! i = of_bool (int i \<in> set (rr_entries ?c))" if "i < rr_size" for i
    using that ok ne b(3) by (auto simp: ent c x rr_ok_def nth_list_update)
  then show ?thesis
    using bounds x ent ok ne by (auto simp: rr_ok_def)
qed

lemma ring_clear: "rr_ok (RXRING_CLEAR c) \<and> rr_entries (RXRING_CLEAR c) = []"
proof -
  have "rr_entries (RXRING_CLEAR c) = []"
    by (simp add: rr_entries_def rr_used_def RXRING_CLEAR_def ring_dist_def)
  then show ?thesis
    by (simp add: rr_ok_def rr_bounds_def RXRING_CLEAR_def RX_RING_PACKETS_size)
qed

end
