(* ===== verification/Spi_Hw.thy ===== *)
theory Spi_Hw
  imports Prelude
begin

text \<open>
  The receive side of the eCSPI block as \<^verbatim>\<open>linux/kernel/slave-spi-driver\<close> drives it:
  \<^verbatim>\<open>spi-slave-hw.c\<close>, and from \<^verbatim>\<open>spi-slave-main.c\<close> the packetiser and the polling loop of
  \<^verbatim>\<open>receive_packet\<close>.

  The device is not part of the repository. It is a record of functions on a state \<open>'w\<close>: reading a
  register may change the state, as reading the receive FIFO does. The two kernel calls of the polling
  loop, \<^verbatim>\<open>kthread_should_stop\<close> and \<^verbatim>\<open>schedule\<close>, are in the same record, because words arrive while the
  thread is off the processor. Loops that end only if the device lets them are partial functions:
  \<open>None\<close> is a loop that does not end.
\<close>

section \<open>Registers: mx51\_ecspi\_regs.h\<close>

definition MXC_CSPIRXDATA :: nat where "MXC_CSPIRXDATA = 0x00"
definition MX51_ECSPI_CTRL :: nat where "MX51_ECSPI_CTRL = 0x08"
definition MX51_ECSPI_CTRL_ENABLE :: u32 where "MX51_ECSPI_CTRL_ENABLE = push_bit 0 1"
definition MX51_ECSPI_CTRL_SMC :: u32 where "MX51_ECSPI_CTRL_SMC = push_bit 3 1"
definition MX51_ECSPI_CTRL_MODE_MASK :: u32 where "MX51_ECSPI_CTRL_MODE_MASK = push_bit 4 0xf"
definition MX51_ECSPI_CTRL_POSTDIV_OFFSET :: nat where "MX51_ECSPI_CTRL_POSTDIV_OFFSET = 8"
definition MX51_ECSPI_CTRL_PREDIV_OFFSET :: nat where "MX51_ECSPI_CTRL_PREDIV_OFFSET = 12"
definition MX51_ECSPI_CTRL_CS :: "u32 \<Rightarrow> u32" where "MX51_ECSPI_CTRL_CS cs = push_bit 18 cs"
definition MX51_ECSPI_CTRL_BL_OFFSET :: nat where "MX51_ECSPI_CTRL_BL_OFFSET = 20"
definition MX51_ECSPI_CTRL_BL_MASK :: u32 where "MX51_ECSPI_CTRL_BL_MASK = push_bit 20 0xfff"
definition MX51_ECSPI_CONFIG :: nat where "MX51_ECSPI_CONFIG = 0x0c"
definition MX51_ECSPI_CONFIG_SCLKPHA :: "nat \<Rightarrow> u32" where "MX51_ECSPI_CONFIG_SCLKPHA cs = push_bit (cs + 0) 1"
definition MX51_ECSPI_CONFIG_SCLKPOL :: "nat \<Rightarrow> u32" where "MX51_ECSPI_CONFIG_SCLKPOL cs = push_bit (cs + 4) 1"
definition MX51_ECSPI_CONFIG_SBBCTRL :: "nat \<Rightarrow> u32" where "MX51_ECSPI_CONFIG_SBBCTRL cs = push_bit (cs + 8) 1"
definition MX51_ECSPI_CONFIG_SSBPOL :: "nat \<Rightarrow> u32" where "MX51_ECSPI_CONFIG_SSBPOL cs = push_bit (cs + 12) 1"
definition MX51_ECSPI_CONFIG_SCLKCTL :: "nat \<Rightarrow> u32" where "MX51_ECSPI_CONFIG_SCLKCTL cs = push_bit (cs + 20) 1"
definition MX51_ECSPI_STAT :: nat where "MX51_ECSPI_STAT = 0x18"
definition MX51_ECSPI_STAT_RR :: u32 where "MX51_ECSPI_STAT_RR = push_bit 3 1"
definition MX51_ECSPI_TESTREG :: nat where "MX51_ECSPI_TESTREG = 0x20"
definition MX51_ECSPI_TESTREG_LBC :: u32 where "MX51_ECSPI_TESTREG_LBC = push_bit 31 1"

lemmas ecspi_regs =
  MXC_CSPIRXDATA_def MX51_ECSPI_CTRL_def MX51_ECSPI_CTRL_ENABLE_def MX51_ECSPI_CTRL_SMC_def
  MX51_ECSPI_CTRL_MODE_MASK_def MX51_ECSPI_CTRL_POSTDIV_OFFSET_def MX51_ECSPI_CTRL_PREDIV_OFFSET_def
  MX51_ECSPI_CTRL_CS_def MX51_ECSPI_CTRL_BL_OFFSET_def MX51_ECSPI_CTRL_BL_MASK_def
  MX51_ECSPI_CONFIG_def MX51_ECSPI_CONFIG_SCLKPHA_def MX51_ECSPI_CONFIG_SCLKPOL_def
  MX51_ECSPI_CONFIG_SBBCTRL_def MX51_ECSPI_CONFIG_SSBPOL_def MX51_ECSPI_CONFIG_SCLKCTL_def
  MX51_ECSPI_STAT_def MX51_ECSPI_STAT_RR_def MX51_ECSPI_TESTREG_def MX51_ECSPI_TESTREG_LBC_def

definition PACKET_SIZE :: nat where "PACKET_SIZE = 188"

definition PACKET_SIZE_DWORD :: nat where "PACKET_SIZE_DWORD = PACKET_SIZE div 4"

lemma PACKET_SIZE_DWORD_47: "PACKET_SIZE_DWORD = 47"
  by (simp add: PACKET_SIZE_DWORD_def PACKET_SIZE_def)

text \<open>\<^verbatim>\<open>readl\<close> and \<^verbatim>\<open>writel\<close> at an offset from the base of the block.\<close>

record 'w ecspi =
  readl :: "nat \<Rightarrow> 'w \<Rightarrow> u32 \<times> 'w"
  writel :: "u32 \<Rightarrow> nat \<Rightarrow> 'w \<Rightarrow> 'w"

record 'w rx_env = "'w ecspi" +
  kthread_should_stop :: "'w \<Rightarrow> bool \<times> 'w"
  schedule :: "'w \<Rightarrow> 'w"

section \<open>spi-slave-hw.c\<close>

definition mx51_ecspi_init_ctrl :: "('w, 'z) ecspi_scheme \<Rightarrow> 'w \<Rightarrow> 'w" where
  "mx51_ecspi_init_ctrl hw w =
     (let ctrl = MX51_ECSPI_CTRL_ENABLE;
          ctrl = ctrl AND NOT MX51_ECSPI_CTRL_MODE_MASK;
          ctrl = ctrl AND NOT MX51_ECSPI_CTRL_BL_MASK;
          ctrl = ctrl OR push_bit MX51_ECSPI_CTRL_BL_OFFSET (of_nat (PACKET_SIZE * 8 - 1));
          ctrl = ctrl AND NOT (push_bit MX51_ECSPI_CTRL_POSTDIV_OFFSET 0xf OR
                               push_bit MX51_ECSPI_CTRL_PREDIV_OFFSET 0xf);
          ctrl = ctrl AND NOT MX51_ECSPI_CTRL_SMC;
          ctrl = ctrl OR MX51_ECSPI_CTRL_CS 0
      in writel hw ctrl MX51_ECSPI_CTRL w)"

definition mx51_ecspi_init_testreg :: "('w, 'z) ecspi_scheme \<Rightarrow> 'w \<Rightarrow> 'w" where
  "mx51_ecspi_init_testreg hw w =
     (let (testreg, w) = readl hw MX51_ECSPI_TESTREG w;
          testreg = testreg AND NOT MX51_ECSPI_TESTREG_LBC
      in writel hw testreg MX51_ECSPI_TESTREG w)"

definition mx51_ecspi_init_config :: "('w, 'z) ecspi_scheme \<Rightarrow> 'w \<Rightarrow> 'w" where
  "mx51_ecspi_init_config hw w =
     (let (cfg, w) = readl hw MX51_ECSPI_CONFIG w;
          cfg = cfg AND NOT (MX51_ECSPI_CONFIG_SBBCTRL 0);
          cfg = cfg OR MX51_ECSPI_CONFIG_SCLKPHA 0;
          cfg = cfg OR MX51_ECSPI_CONFIG_SCLKPOL 0;
          cfg = cfg OR MX51_ECSPI_CONFIG_SCLKCTL 0;
          cfg = cfg AND NOT (MX51_ECSPI_CONFIG_SSBPOL 0)
      in writel hw cfg MX51_ECSPI_CONFIG w)"

definition mx51_ecspi_init :: "('w, 'z) ecspi_scheme \<Rightarrow> 'w \<Rightarrow> 'w" where
  "mx51_ecspi_init hw w =
     (let w = mx51_ecspi_init_ctrl hw w;
          w = mx51_ecspi_init_testreg hw w
      in mx51_ecspi_init_config hw w)"

definition mx51_ecspi_disable :: "('w, 'z) ecspi_scheme \<Rightarrow> 'w \<Rightarrow> 'w" where
  "mx51_ecspi_disable hw w =
     (let (ctrl, w) = readl hw MX51_ECSPI_CTRL w;
          ctrl = ctrl AND NOT MX51_ECSPI_CTRL_ENABLE
      in writel hw ctrl MX51_ECSPI_CTRL w)"

definition mx51_ecspi_rxcnt :: "('w, 'z) ecspi_scheme \<Rightarrow> 'w \<Rightarrow> u32 \<times> 'w" where
  "mx51_ecspi_rxcnt hw w = (let (v, w) = readl hw MX51_ECSPI_TESTREG w in (drop_bit 8 v AND 0x7F, w))"

definition mx51_ecspi_stat :: "('w, 'z) ecspi_scheme \<Rightarrow> 'w \<Rightarrow> u32 \<times> 'w" where
  "mx51_ecspi_stat hw w = readl hw MX51_ECSPI_STAT w"

definition mx51_ecspi_stat_clr :: "('w, 'z) ecspi_scheme \<Rightarrow> 'w \<Rightarrow> 'w" where
  "mx51_ecspi_stat_clr hw w = writel hw 0xC0 MX51_ECSPI_STAT w"

definition mx51_ecspi_data :: "('w, 'z) ecspi_scheme \<Rightarrow> 'w \<Rightarrow> u32 \<times> 'w" where
  "mx51_ecspi_data hw w = readl hw MXC_CSPIRXDATA w"

definition mx51_ecspi_rx_available :: "('w, 'z) ecspi_scheme \<Rightarrow> 'w \<Rightarrow> u32 \<times> 'w" where
  "mx51_ecspi_rx_available hw w =
     (let (v, w) = readl hw MX51_ECSPI_STAT w in (v AND MX51_ECSPI_STAT_RR, w))"

partial_function (option) mx51_ecspi_reset :: "('w, 'z) ecspi_scheme \<Rightarrow> 'w \<Rightarrow> 'w option" where
  "mx51_ecspi_reset hw w =
     (let (avail, w) = mx51_ecspi_rx_available hw w
      in if avail \<noteq> 0 then (let (v, w) = readl hw MXC_CSPIRXDATA w in mx51_ecspi_reset hw w)
         else Some w)"

section \<open>spi-slave-main.c: the packetiser\<close>

text \<open>\<open>packet\<close> is the buffer that the C pointer points to; the words before \<open>cnt\<close> are in it.\<close>

definition paketizer :: "u32 \<Rightarrow> u32 list \<Rightarrow> nat \<Rightarrow> int \<times> u32 list \<times> nat" where
  "paketizer val packet cnt =
     (let packet = packet[cnt := val];
          cnt = cnt + 1
      in if cnt = 1
         then (if drop_bit 24 val AND 0xFF \<noteq> 0x47 then (-3, packet, 0) else (0, packet, cnt))
         else if cnt = PACKET_SIZE_DWORD then (1, packet, 0)
         else (0, packet, cnt))"

record spi_imx_statistic =
  pkt_ok :: u64
  pkt_lost :: u64
  pkt_err :: u32
  stream_err :: u32
  overruns :: u32
  max_ring_used :: u32
  dwords :: u64
  skip :: u64
  last_message_jiffies :: u64

text \<open>The counters of one word of the inner loop.\<close>

definition rx_count :: "int \<Rightarrow> spi_imx_statistic \<Rightarrow> spi_imx_statistic" where
  "rx_count rv st =
     (let st = st\<lparr>dwords := dwords st + 1\<rparr>
      in if rv > 0 then st\<lparr>pkt_ok := pkt_ok st + 1\<rparr>
         else if rv = -1 then st\<lparr>pkt_err := pkt_err st + 1\<rparr>
         else if rv = -2 then st\<lparr>stream_err := stream_err st + 1\<rparr>
         else if rv = -3 then st\<lparr>skip := skip st + 1\<rparr>
         else st)"

text \<open>The inner loop of \<^verbatim>\<open>receive_packet\<close>: words are fetched until none is available or a packet
  is complete.\<close>

partial_function (option) rx_drain :: "('w, 'z) rx_env_scheme \<Rightarrow> int \<Rightarrow> u32 list \<Rightarrow> nat \<Rightarrow>
    spi_imx_statistic \<Rightarrow> 'w \<Rightarrow> (int \<times> u32 list \<times> nat \<times> spi_imx_statistic \<times> 'w) option" where
  "rx_drain hw rv pkt cnt st w =
     (let (avail, w) = mx51_ecspi_rx_available hw w
      in if avail = 0 then Some (rv, pkt, cnt, st, w)
         else (let (val, w) = mx51_ecspi_data hw w;
                   (rv, pkt, cnt) = paketizer val pkt cnt;
                   st = rx_count rv st
               in if rv > 0 then Some (rv, pkt, cnt, st, w)
                  else rx_drain hw rv pkt cnt st w))"

text \<open>The outer loop: status and overrun, the words available, then off the processor.\<close>

definition rx_status :: "('w, 'z) rx_env_scheme \<Rightarrow> spi_imx_statistic \<Rightarrow> 'w \<Rightarrow> spi_imx_statistic \<times> 'w" where
  "rx_status hw st w =
     (let (rxcnt, w) = mx51_ecspi_rxcnt hw w;
          (stat, w) = mx51_ecspi_stat hw w
      in if stat AND (push_bit 6 1) \<noteq> 0
         then (st\<lparr>overruns := overruns st + 1\<rparr>, mx51_ecspi_stat_clr hw w)
         else (st, w))"

partial_function (option) rx_poll :: "('w, 'z) rx_env_scheme \<Rightarrow> int \<Rightarrow> u32 list \<Rightarrow> nat \<Rightarrow>
    spi_imx_statistic \<Rightarrow> 'w \<Rightarrow> (int \<times> u32 list \<times> spi_imx_statistic \<times> 'w) option" where
  "rx_poll hw rv pkt cnt st w =
     (let (stop, w) = kthread_should_stop hw w
      in if stop \<or> rv > 0 then Some (rv, pkt, st, w)
         else (let (st, w) = rx_status hw st w
               in Option.bind (rx_drain hw rv pkt cnt st w) (\<lambda>(rv, pkt, cnt, st, w).
                    rx_poll hw rv pkt cnt st (schedule hw w))))"

section \<open>Register values\<close>

text \<open>What the set-up writes, in terms of what it reads: slave mode on channel 0 with a burst of
  one packet, and loop-back off.\<close>

lemma init_ctrl_value: "mx51_ecspi_init_ctrl hw w = writel hw 0x5DF00001 0x08 w"
proof -
  have "(let ctrl = MX51_ECSPI_CTRL_ENABLE;
          ctrl = ctrl AND NOT MX51_ECSPI_CTRL_MODE_MASK;
          ctrl = ctrl AND NOT MX51_ECSPI_CTRL_BL_MASK;
          ctrl = ctrl OR push_bit MX51_ECSPI_CTRL_BL_OFFSET (of_nat (PACKET_SIZE * 8 - 1));
          ctrl = ctrl AND NOT (push_bit MX51_ECSPI_CTRL_POSTDIV_OFFSET 0xf OR
                               push_bit MX51_ECSPI_CTRL_PREDIV_OFFSET 0xf);
          ctrl = ctrl AND NOT MX51_ECSPI_CTRL_SMC
      in ctrl OR MX51_ECSPI_CTRL_CS 0) = 0x5DF00001"
    by code_simp
  then show ?thesis
    by (simp add: mx51_ecspi_init_ctrl_def MX51_ECSPI_CTRL_def Let_def)
qed

lemma bit_push_bit_1: "bit (push_bit k (1 :: u32)) n \<longleftrightarrow> n = k \<and> n < 32"
  by (auto simp add: bit_push_bit_iff bit_1_iff dest: bit_imp_le_length simp del: push_bit_of_1)

lemma bit_set_bit: "bit (a OR push_bit k (1 :: u32)) n \<longleftrightarrow> bit a n \<or> n = k \<and> n < 32"
  by (simp only: bit_or_iff bit_push_bit_1)

lemma bit_clear_bit: "bit (a AND NOT (push_bit k (1 :: u32))) n \<longleftrightarrow> bit a n \<and> n \<noteq> k"
  using bit_imp_le_length [of a n]
  by (simp only: bit_and_iff bit_not_iff bit_push_bit_1 possible_bit_word) auto

lemma init_testreg_bits:
  "bit (t AND NOT MX51_ECSPI_TESTREG_LBC) n \<longleftrightarrow> n \<noteq> 31 \<and> bit t n"
  unfolding MX51_ECSPI_TESTREG_LBC_def bit_clear_bit by blast

definition config_value :: "u32 \<Rightarrow> u32" where
  "config_value c = ((((c AND NOT (push_bit 8 1)) OR push_bit 0 1) OR push_bit 4 1) OR push_bit 20 1)
     AND NOT (push_bit 12 1)"

lemma config_value_bits:
  assumes "n < 32"
  shows "bit (config_value c) n \<longleftrightarrow> (if n \<in> {0, 4, 20} then True else if n \<in> {8, 12} then False else bit c n)"
  using assms unfolding config_value_def bit_clear_bit bit_set_bit by auto

section \<open>What is known of the device\<close>

text \<open>\<open>future w\<close> are the words the master sends from now on, \<open>ready w\<close> whether one of them has
  arrived. The status bit says whether a word is ready; reading the data register fetches the oldest;
  the other registers are independent of the words. The thread is not stopped and words do arrive:
  each time it comes back to the processor with none ready and some to come, \<open>lag\<close> has gone down.\<close>

definition ecspi_receives :: "('w, 'z) rx_env_scheme \<Rightarrow> ('w \<Rightarrow> u32 list) \<Rightarrow> ('w \<Rightarrow> bool) \<Rightarrow> ('w \<Rightarrow> nat) \<Rightarrow> bool" where
  "ecspi_receives hw future ready lag \<longleftrightarrow>
     (\<forall>w v w'. readl hw MX51_ECSPI_STAT w = (v, w') \<longrightarrow>
        future w' = future w \<and> lag w' \<le> lag w \<and> (bit v 3 \<longleftrightarrow> ready w')) \<and>
     (\<forall>w. ready w \<longrightarrow> (\<exists>v w'. readl hw MXC_CSPIRXDATA w = (v, w') \<and> future w = v # future w')) \<and>
     (\<forall>w v w'. readl hw MX51_ECSPI_TESTREG w = (v, w') \<longrightarrow> future w' = future w \<and> lag w' \<le> lag w) \<and>
     (\<forall>w v. future (writel hw v MX51_ECSPI_STAT w) = future w \<and> lag (writel hw v MX51_ECSPI_STAT w) \<le> lag w) \<and>
     (\<forall>w. \<exists>w'. kthread_should_stop hw w = (False, w') \<and> future w' = future w \<and> lag w' \<le> lag w) \<and>
     (\<forall>w. future (schedule hw w) = future w \<and> lag (schedule hw w) \<le> lag w \<and>
        (future w \<noteq> [] \<longrightarrow> \<not> ready w \<longrightarrow> lag (schedule hw w) < lag w))"

lemma and_RR: "v AND MX51_ECSPI_STAT_RR = 0 \<longleftrightarrow> \<not> bit v 3"
proof -
  have b: "bit (v AND MX51_ECSPI_STAT_RR) n \<longleftrightarrow> n = 3 \<and> bit v 3" for n
    unfolding MX51_ECSPI_STAT_RR_def bit_and_iff bit_push_bit_1 by auto
  show ?thesis
  proof
    assume "v AND MX51_ECSPI_STAT_RR = 0"
    with b [of 3] show "\<not> bit v 3" by simp
  next
    assume "\<not> bit v 3"
    then show "v AND MX51_ECSPI_STAT_RR = 0"
      by (intro bit_word_eqI) (simp only: b, simp)
  qed
qed

lemma rx_availableE:
  assumes "ecspi_receives hw future ready lag" and "mx51_ecspi_rx_available hw w = (a, w')"
  shows "future w' = future w" and "lag w' \<le> lag w" and "a = 0 \<longleftrightarrow> \<not> ready w'"
  using assms by (auto simp: ecspi_receives_def mx51_ecspi_rx_available_def and_RR split: prod.splits)

lemma rx_dataE:
  assumes "ecspi_receives hw future ready lag" and "ready w"
  obtains v w' where "readl hw MXC_CSPIRXDATA w = (v, w')" "future w = v # future w'"
  using assms by (auto simp: ecspi_receives_def)

lemma rx_statusE:
  assumes hw: "ecspi_receives hw future ready lag" and run: "rx_status hw st w = (st', w')"
  shows "future w' = future w \<and> lag w' \<le> lag w"
proof -
  have test: "\<And>w v w'. readl hw MX51_ECSPI_TESTREG w = (v, w') \<Longrightarrow> future w' = future w \<and> lag w' \<le> lag w"
    and stat: "\<And>w v w'. readl hw MX51_ECSPI_STAT w = (v, w') \<Longrightarrow> future w' = future w \<and> lag w' \<le> lag w"
    and clr: "\<And>w v. future (writel hw v MX51_ECSPI_STAT w) = future w \<and> lag (writel hw v MX51_ECSPI_STAT w) \<le> lag w"
    using hw by (auto simp: ecspi_receives_def)
  obtain c w1 where 1: "readl hw MX51_ECSPI_TESTREG w = (c, w1)" by fastforce
  obtain s w2 where 2: "readl hw MX51_ECSPI_STAT w1 = (s, w2)" by fastforce
  have "w' \<in> {w2, writel hw 0xC0 MX51_ECSPI_STAT w2}"
    using run 1 2 by (auto simp: rx_status_def mx51_ecspi_rxcnt_def mx51_ecspi_stat_def
        mx51_ecspi_stat_clr_def split: if_splits)
  then show ?thesis
    using test [OF 1] stat [OF 2] clr [of "0xC0" w2] by auto
qed

lemma reset_ends:
  assumes hw: "ecspi_receives hw future ready lag"
  shows "\<exists>w' n. mx51_ecspi_reset hw w = Some w' \<and> \<not> ready w' \<and> future w' = drop n (future w)"
proof (induction "length (future w)" arbitrary: w rule: less_induct)
  case less
  obtain a w1 where a: "mx51_ecspi_rx_available hw w = (a, w1)" by fastforce
  note w1 = rx_availableE [OF hw a]
  show ?case
  proof (cases "a = 0")
    case True
    then have "mx51_ecspi_reset hw w = Some w1"
      by (simp add: mx51_ecspi_reset.simps [of hw w] a)
    with w1 True show ?thesis by (intro exI [of _ w1] exI [of _ 0]) simp
  next
    case False
    then obtain v w2 where r: "readl hw MXC_CSPIRXDATA w1 = (v, w2)" "future w1 = v # future w2"
      using rx_dataE [OF hw, of w1] w1(3) by blast
    then have "length (future w2) < length (future w)"
      using w1(1) by simp
    from less [OF this] obtain w' n where
      n: "mx51_ecspi_reset hw w2 = Some w'" "\<not> ready w'" "future w' = drop n (future w2)"
      by blast
    with r a w1(1) False have "mx51_ecspi_reset hw w = Some w' \<and> \<not> ready w' \<and> future w' = drop (Suc n) (future w)"
      by (simp add: mx51_ecspi_reset.simps [of hw w])
    then show ?thesis by blast
  qed
qed

section \<open>Framing\<close>

text \<open>The reference: skip to the first word that starts with the sync byte and take a packet.\<close>

definition sync_word :: "u32 \<Rightarrow> bool" where
  "sync_word v \<longleftrightarrow> drop_bit 24 v AND 0xFF = 0x47"

definition first_frame :: "u32 list \<Rightarrow> (u32 list \<times> u32 list) option" where
  "first_frame ws = (let r = dropWhile (\<lambda>v. \<not> sync_word v) ws
     in if length r < 47 then None else Some (take 47 r, drop 47 r))"

text \<open>The state of the packetiser between two words, and the words it has.\<close>

definition pkt_ok_state :: "u32 list \<Rightarrow> nat \<Rightarrow> bool" where
  "pkt_ok_state pkt cnt \<longleftrightarrow> length pkt = 47 \<and> cnt < 47 \<and> (0 < cnt \<longrightarrow> sync_word (pkt ! 0))"

lemma first_frame_skip: "\<not> sync_word v \<Longrightarrow> first_frame (v # ws) = first_frame ws"
  by (simp add: first_frame_def)

lemma first_frame_sync:
  "xs \<noteq> [] \<Longrightarrow> sync_word (xs ! 0) \<Longrightarrow> first_frame (xs @ ws) =
    (if length xs + length ws < 47 then None else Some (take 47 (xs @ ws), drop 47 (xs @ ws)))"
  by (cases xs) (auto simp: first_frame_def)

lemma take_Suc_update: "cnt < length pkt \<Longrightarrow> take (Suc cnt) (pkt[cnt := v]) = take cnt pkt @ [v]"
  by (simp add: take_Suc_conv_app_nth)

lemma paketizer_step:
  assumes ok: "pkt_ok_state pkt cnt" and run: "paketizer v pkt cnt = (rv, pkt', cnt')"
  shows "(rv > 0 \<longrightarrow> rv = 1 \<and> length pkt' = 47 \<and> first_frame (take cnt pkt @ v # ws) = Some (pkt', ws)) \<and>
    (rv \<le> 0 \<longrightarrow> pkt_ok_state pkt' cnt' \<and>
       first_frame (take cnt' pkt' @ ws) = first_frame (take cnt pkt @ v # ws))"
proof (cases "cnt = 0")
  case True
  then have "rv = (if sync_word v then 0 else -3)" "pkt' = pkt[0 := v]" "cnt' = of_bool (sync_word v)"
    using run by (auto simp: paketizer_def sync_word_def Let_def split: if_splits)
  moreover have "length pkt = 47" "take (Suc 0) (pkt[0 := v]) = [v]"
    using ok take_Suc_update [of 0 pkt v] by (auto simp: pkt_ok_state_def)
  ultimately show ?thesis
    using True by (auto simp: pkt_ok_state_def first_frame_skip)
next
  case False
  with ok have sync: "sync_word (take cnt pkt ! 0)" "take cnt pkt \<noteq> []" "cnt < length pkt" "length pkt = 47"
    by (auto simp: pkt_ok_state_def)
  have app: "take (Suc cnt) (pkt[cnt := v]) @ ws = take cnt pkt @ v # ws"
    using sync(3) by (simp add: take_Suc_update)
  show ?thesis
  proof (cases "Suc cnt = 47")
    case True
    with app sync(4) have "pkt[cnt := v] @ ws = take cnt pkt @ v # ws" by simp
    then have "take 47 (take cnt pkt @ v # ws) = pkt[cnt := v]" "drop 47 (take cnt pkt @ v # ws) = ws"
      using sync(4) by (metis append_eq_conv_conj length_list_update)+
    with run True False sync show ?thesis
      by (auto simp: paketizer_def PACKET_SIZE_DWORD_47 first_frame_sync)
  next
    case False2: False
    with run False have "rv = 0" "pkt' = pkt[cnt := v]" "cnt' = Suc cnt"
      by (auto simp: paketizer_def PACKET_SIZE_DWORD_47)
    with ok False False2 app show ?thesis
      by (auto simp: pkt_ok_state_def)
  qed
qed

text \<open>One run of the inner loop from a state whose words continue to a frame: it ends, and either the
  frame is complete or no word is left that has arrived.\<close>

lemma rx_drain_frame:
  assumes hw: "ecspi_receives hw future ready lag"
  shows "pkt_ok_state pkt cnt \<Longrightarrow> rv \<le> 0 \<Longrightarrow> first_frame (take cnt pkt @ future w) = Some (p, rest) \<Longrightarrow>
    \<exists>rv' pkt' cnt' st' w'. rx_drain hw rv pkt cnt st w = Some (rv', pkt', cnt', st', w') \<and>
      (if rv' > 0 then rv' = 1 \<and> pkt' = p \<and> length p = 47 \<and> future w' = rest
       else pkt_ok_state pkt' cnt' \<and> \<not> ready w' \<and> first_frame (take cnt' pkt' @ future w') = Some (p, rest) \<and>
         (length (future w') < length (future w) \<or> future w' = future w \<and> lag w' \<le> lag w))"
proof (induction "length (future w)" arbitrary: w rv pkt cnt st rule: less_induct)
  case less
  obtain a w1 where a: "mx51_ecspi_rx_available hw w = (a, w1)" by fastforce
  note w1 = rx_availableE [OF hw a]
  show ?case
  proof (cases "a = 0")
    case True
    then have "rx_drain hw rv pkt cnt st w = Some (rv, pkt, cnt, st, w1)"
      by (simp add: rx_drain.simps [of hw rv] a)
    with w1 True less.prems show ?thesis by simp
  next
    case False
    then obtain v w2 where r: "readl hw MXC_CSPIRXDATA w1 = (v, w2)" "future w1 = v # future w2"
      using rx_dataE [OF hw, of w1] w1(3) by blast
    obtain rv2 pkt2 cnt2 where p2: "paketizer v pkt cnt = (rv2, pkt2, cnt2)" by (cases "paketizer v pkt cnt") auto
    note step = paketizer_step [OF less.prems(1) p2, of "future w2"]
    have run: "rx_drain hw rv pkt cnt st w = (if rv2 > 0 then Some (rv2, pkt2, cnt2, rx_count rv2 st, w2)
        else rx_drain hw rv2 pkt2 cnt2 (rx_count rv2 st) w2)"
      using False r a p2 by (simp add: rx_drain.simps [of hw rv] mx51_ecspi_data_def)
    show ?thesis
    proof (cases "rv2 > 0")
      case True
      with run step less.prems(3) r(2) w1(1) show ?thesis by auto
    next
      case notdone: False
      have "length (future w2) < length (future w)"
        using r(2) w1(1) by simp
      moreover have "pkt_ok_state pkt2 cnt2" "rv2 \<le> 0" "first_frame (take cnt2 pkt2 @ future w2) = Some (p, rest)"
        using step notdone less.prems(3) r(2) w1(1) by auto
      ultimately show ?thesis
        using less.hyps [of w2 pkt2 cnt2 rv2 "rx_count rv2 st"] run notdone
        by (fastforce split: if_splits)
    qed
  qed
qed

lemma rx_poll_frame:
  assumes hw: "ecspi_receives hw future ready lag"
  shows "pkt_ok_state pkt cnt \<Longrightarrow> rv \<le> 0 \<Longrightarrow> first_frame (take cnt pkt @ future w) = Some (p, rest) \<Longrightarrow>
    \<exists>st' w'. rx_poll hw rv pkt cnt st w = Some (1, p, st', w') \<and> length p = 47 \<and> future w' = rest"
proof (induction "(length (future w), lag w)" arbitrary: w rv pkt cnt st
    rule: wf_induct_rule [OF wf_lex_prod [OF wf_less_than wf_less_than]])
  case less: 1
  have stop: "\<And>w. \<exists>w'. kthread_should_stop hw w = (False, w') \<and> future w' = future w \<and> lag w' \<le> lag w"
    and sched: "\<And>w. future (schedule hw w) = future w \<and> lag (schedule hw w) \<le> lag w \<and>
        (future w \<noteq> [] \<longrightarrow> \<not> ready w \<longrightarrow> lag (schedule hw w) < lag w)"
    using hw by (auto simp: ecspi_receives_def)
  obtain w1 where 1: "kthread_should_stop hw w = (False, w1)" "future w1 = future w" "lag w1 \<le> lag w"
    using stop by blast
  obtain st2 w2 where 2: "rx_status hw st w1 = (st2, w2)" by fastforce
  have f2: "future w2 = future w" "lag w2 \<le> lag w"
    using rx_statusE [OF hw 2] 1 by auto
  obtain rv3 pkt3 cnt3 st3 w3 where
    3: "rx_drain hw rv pkt cnt st2 w2 = Some (rv3, pkt3, cnt3, st3, w3)" and
    post: "if rv3 > 0 then rv3 = 1 \<and> pkt3 = p \<and> length p = 47 \<and> future w3 = rest
       else pkt_ok_state pkt3 cnt3 \<and> \<not> ready w3 \<and> first_frame (take cnt3 pkt3 @ future w3) = Some (p, rest) \<and>
         (length (future w3) < length (future w2) \<or> future w3 = future w2 \<and> lag w3 \<le> lag w2)"
    using rx_drain_frame [OF hw, of pkt cnt rv w2 p rest st2] less.prems f2(1) by metis
  have run: "rx_poll hw rv pkt cnt st w = rx_poll hw rv3 pkt3 cnt3 st3 (schedule hw w3)"
    using 1(1) 2 3 less.prems(2) by (subst rx_poll.simps) simp
  show ?case
  proof (cases "rv3 > 0")
    case True
    obtain w4 where 4: "kthread_should_stop hw (schedule hw w3) = (False, w4)" "future w4 = future (schedule hw w3)"
      using stop by blast
    have "rx_poll hw rv3 pkt3 cnt3 st3 (schedule hw w3) = Some (rv3, pkt3, st3, w4)"
      using 4(1) True by (subst rx_poll.simps) simp
    with run post True 4(2) sched show ?thesis by auto
  next
    case False
    with post have ok: "pkt_ok_state pkt3 cnt3" "\<not> ready w3" "first_frame (take cnt3 pkt3 @ future w3) = Some (p, rest)"
      and le: "length (future w3) < length (future w2) \<or> future w3 = future w2 \<and> lag w3 \<le> lag w2"
      by auto
    have "future w3 \<noteq> []"
    proof
      assume "future w3 = []"
      with ok have "first_frame (take cnt3 pkt3) = Some (p, rest)" by simp
      then have "\<not> length (dropWhile (\<lambda>v. \<not> sync_word v) (take cnt3 pkt3)) < 47"
        by (auto simp: first_frame_def Let_def split: if_splits)
      moreover have "length (dropWhile (\<lambda>v. \<not> sync_word v) (take cnt3 pkt3)) \<le> cnt3"
        by (rule order_trans [OF length_dropWhile_le]) simp
      ultimately show False using ok(1) by (simp add: pkt_ok_state_def)
    qed
    with sched [of w3] ok(2) le f2
    have "((length (future (schedule hw w3)), lag (schedule hw w3)), (length (future w), lag w))
        \<in> less_than <*lex*> less_than"
      by auto
    from less.hyps [OF this ok(1) _ _, of rv3 st3] ok(3) sched [of w3] False run
    show ?thesis by simp
  qed
qed

section \<open>A device\<close>

text \<open>A device whose words arrive in bursts: the first list is the receive FIFO, and it is refilled when
  it is empty and the thread gives up the processor.\<close>

definition burst_readl :: "nat \<Rightarrow> u32 list list \<Rightarrow> u32 \<times> u32 list list" where
  "burst_readl off w =
     (if off = MX51_ECSPI_STAT then (case w of (v # b) # bs \<Rightarrow> (8, w) | _ \<Rightarrow> (0, w))
      else if off = MXC_CSPIRXDATA then (case w of (v # b) # bs \<Rightarrow> (v, b # bs) | _ \<Rightarrow> (0, w))
      else (0, w))"

definition burst_hw :: "u32 list list rx_env" where
  "burst_hw = \<lparr>readl = burst_readl, writel = (\<lambda>v off w. w), kthread_should_stop = (\<lambda>w. (False, w)),
     schedule = (\<lambda>w. case w of [] # bs \<Rightarrow> bs | _ \<Rightarrow> w)\<rparr>"

definition burst_ready :: "u32 list list \<Rightarrow> bool" where
  "burst_ready w \<longleftrightarrow> w \<noteq> [] \<and> hd w \<noteq> []"

lemma burst_receives: "ecspi_receives burst_hw concat burst_ready length"
  unfolding ecspi_receives_def
proof (intro conjI)
  have b8: "bit (8 :: u32) 3" by code_simp
  show "\<forall>w v w'. readl burst_hw MX51_ECSPI_STAT w = (v, w') \<longrightarrow>
      concat w' = concat w \<and> length w' \<le> length w \<and> (bit v 3 \<longleftrightarrow> burst_ready w')"
    using b8 by (auto simp: burst_hw_def burst_readl_def burst_ready_def split: list.splits)
  show "\<forall>w. burst_ready w \<longrightarrow> (\<exists>v w'. readl burst_hw MXC_CSPIRXDATA w = (v, w') \<and> concat w = v # concat w')"
    by (auto simp: burst_hw_def burst_readl_def burst_ready_def neq_Nil_conv ecspi_regs)
qed (auto simp: burst_hw_def burst_readl_def burst_ready_def ecspi_regs split: list.splits)

end
