(* ===== verification/Spi_Slave.thy ===== *)
theory Spi_Slave
  imports Spi_Ring Spi_Hw Kernel_Trace
begin

text \<open>
  The driver \<^verbatim>\<open>linux/kernel/slave-spi-driver/spi-slave-main.c\<close>: the receive thread that moves packets
  from the device into the ring, the SPI core's callbacks that hand them to the reader, and probe and
  remove. \<^verbatim>\<open>rx_lock\<close> is a spin lock: what runs under it is one function here, and the concurrency of
  the thread with the callbacks is the step relation \<open>spi_step\<close>, whose steps are these functions.
\<close>

section \<open>State\<close>

text \<open>\<open>packets\<close> is the packet memory by packet number, each packet as the words that the driver accesses
  through its \<^verbatim>\<open>u32\<close> pointer.\<close>

record spi_imx =
  rx_ring :: rx_ring
  packets :: "u32 list list"
  stats :: spi_imx_statistic
  rx_thrd :: bool

definition stats_zero :: spi_imx_statistic where
  "stats_zero = \<lparr>pkt_ok = 0, pkt_lost = 0, pkt_err = 0, stream_err = 0, overruns = 0, max_ring_used = 0,
     dwords = 0, skip = 0, last_message_jiffies = 0\<rparr>"

section \<open>The receive thread\<close>

text \<open>The first critical section of \<^verbatim>\<open>receive_packet\<close>: make room, choose a packet number.\<close>

definition rx_claim :: "spi_imx \<Rightarrow> int \<times> spi_imx" where
  "rx_claim s =
     (let s = (if RXRING_VACANT (rx_ring s) = 0
               then s\<lparr>rx_ring := RXRING_REMOVE (rx_ring s),
                      stats := (stats s)\<lparr>pkt_lost := pkt_lost (stats s) + 1\<rparr>\<rparr>
               else s)
      in (rxring_get_free_idx (rx_ring s), s))"

text \<open>The second one: the packet is in the ring.\<close>

definition rx_commit :: "int \<Rightarrow> spi_imx \<Rightarrow> spi_imx" where
  "rx_commit idx s =
     (let s = s\<lparr>rx_ring := RXRING_INSERT (rx_ring s) idx\<rparr>;
          used = word_of_int (RXRING_USED (rx_ring s))
      in if used > max_ring_used (stats s)
         then s\<lparr>stats := (stats s)\<lparr>max_ring_used := used\<rparr>\<rparr> else s)"

definition receive_packet :: "('w, 'z) rx_env_scheme \<Rightarrow> spi_imx \<Rightarrow> 'w \<Rightarrow> (int \<times> spi_imx \<times> 'w) option" where
  "receive_packet hw s w =
     (let (idx, s) = rx_claim s
      in if idx < 0 then Some (- EFAULT, s, w)
         else if pkt_lost (stats s) > 1024 then Some (-1, s, w)
         else Option.bind (rx_poll hw (-1) (packets s ! nat idx) 0 (stats s) w) (\<lambda>(rv, pkt, st, w).
                Some (rv, rx_commit idx (s\<lparr>packets := (packets s)[nat idx := pkt], stats := st\<rparr>), w)))"

partial_function (option) rx_thrd_loop :: "('w, 'z) rx_env_scheme \<Rightarrow> spi_imx \<Rightarrow> 'w \<Rightarrow> (spi_imx \<times> 'w) option" where
  "rx_thrd_loop hw s w =
     Option.bind (receive_packet hw s w) (\<lambda>(rv, s, w).
       if rv > 0 then rx_thrd_loop hw s w else Some (s, w))"

definition rx_thrd_start :: "spi_imx \<Rightarrow> spi_imx" where
  "rx_thrd_start s = s\<lparr>rx_ring := RXRING_CLEAR (rx_ring s), stats := stats_zero\<rparr>"

definition rx_thrd_fn :: "('w, 'z) rx_env_scheme \<Rightarrow> spi_imx \<Rightarrow> 'w \<Rightarrow> (int \<times> spi_imx \<times> 'w) option" where
  "rx_thrd_fn hw s w =
     Option.bind (rx_thrd_loop hw (rx_thrd_start s) w) (\<lambda>(s, w). Some (0, s\<lparr>rx_thrd := False\<rparr>, w))"

section \<open>The callbacks of the SPI core\<close>

definition swab32 :: "u32 \<Rightarrow> u32" where
  "swab32 x = push_bit 24 (x AND 0x000000ff) OR push_bit 8 (x AND 0x0000ff00) OR
     drop_bit 8 (x AND 0x00ff0000) OR drop_bit 24 (x AND 0xff000000)"

text \<open>\<open>None\<close> is an access beyond one of the buffers.\<close>

fun bswap_loop :: "nat \<Rightarrow> nat \<Rightarrow> u32 list \<Rightarrow> u32 list \<Rightarrow> u32 list option" where
  "bswap_loop 0 i dst src = Some dst"
| "bswap_loop (Suc n) i dst src =
     (if i < length dst \<and> i < length src then bswap_loop n (Suc i) (dst[i := swab32 (src ! i)]) src
      else None)"

definition memcpy_bswap_packet :: "u32 list \<Rightarrow> u32 list \<Rightarrow> u32 list option" where
  "memcpy_bswap_packet dst src = bswap_loop PACKET_SIZE_DWORD 0 dst src"

text \<open>\<open>thrd\<close> is the answer of \<^verbatim>\<open>kthread_create\<close>: 0 or a negative errno.\<close>

definition init_rx_thread :: "int \<Rightarrow> spi_imx \<Rightarrow> int \<times> spi_imx" where
  "init_rx_thread thrd s =
     (if thrd \<noteq> 0 then (thrd, s\<lparr>rx_thrd := False\<rparr>) else (0, s\<lparr>rx_thrd := True\<rparr>))"

definition spi_imx_prepare_message :: "u32 \<Rightarrow> u64 \<Rightarrow> int \<Rightarrow> spi_imx \<Rightarrow> int \<times> spi_imx" where
  "spi_imx_prepare_message HZ now_jiffies thrd s =
     (let delta = ucast (now_jiffies - last_message_jiffies (stats s)) :: u32;
          s = (if delta > 4 * HZ then s\<lparr>rx_ring := RXRING_CLEAR (rx_ring s), stats := stats_zero\<rparr> else s);
          s = s\<lparr>stats := (stats s)\<lparr>last_message_jiffies := now_jiffies\<rparr>\<rparr>
      in if \<not> rx_thrd s then init_rx_thread thrd s else (0, s))"

text \<open>\<open>Returns\<close> has the return value, the contents of \<^verbatim>\<open>transfer->rx_buf\<close>, the state, and whether
  \<^verbatim>\<open>rx_lock\<close> is still held. \<open>Waiting\<close> is a call that sleeps: \<open>wakes\<close> has, for each return from
  \<^verbatim>\<open>schedule\<close>, whether a signal is pending and the state found there. \<open>Overflow\<close> is a write beyond
  \<^verbatim>\<open>rx_buf\<close>.\<close>

datatype spi_outcome = Returns int "u32 list" spi_imx bool | Waiting | Overflow

definition spi_take :: "int \<Rightarrow> u32 list \<Rightarrow> spi_imx \<Rightarrow> spi_outcome" where
  "spi_take len rx_buf s =
     (let idx = RXRING_TAIL_IDX (rx_ring s)
      in if idx \<ge> 0
         then (case memcpy_bswap_packet rx_buf (packets s ! nat idx) of
                 None \<Rightarrow> Overflow
               | Some buf \<Rightarrow> Returns len buf (s\<lparr>rx_ring := RXRING_REMOVE (rx_ring s)\<rparr>) False)
         else Returns (- EFAULT) rx_buf s True)"

fun spi_imx_transfer :: "int \<Rightarrow> u32 list \<Rightarrow> (bool \<times> spi_imx) list \<Rightarrow> spi_imx \<Rightarrow> spi_outcome" where
  "spi_imx_transfer len rx_buf [] s =
     (if RXRING_USED (rx_ring s) = 0 then Waiting else spi_take len rx_buf s)"
| "spi_imx_transfer len rx_buf ((signal, s') # wakes) s =
     (if RXRING_USED (rx_ring s) = 0
      then (if signal then Returns (- ERESTARTSYS) rx_buf s' False
            else spi_imx_transfer len rx_buf wakes s')
      else spi_take len rx_buf s)"

definition proc_status_show :: "spi_imx \<Rightarrow> string \<times> spi_imx" where
  "proc_status_show s =
     (''OK:'' @ dec (unat (pkt_ok (stats s))) @ '' Lost:'' @ dec (unat (pkt_lost (stats s))) @
      '' packets, overruns:'' @ dec (unat (overruns (stats s))) @
      '' err: pkt:'' @ dec (unat (pkt_err (stats s))) @ ''/stream:'' @ dec (unat (stream_err (stats s))) @
      '' skip: '' @ dec (unat (skip (stats s))) @
      '' bytes, max buffers:'' @ dec (unat (max_ring_used (stats s))) @ '' '' @
      (if rx_thrd s then ''R'' else ''-'') @ newline,
      s\<lparr>stats := (stats s)\<lparr>max_ring_used := 0\<rparr>\<rparr>)"

section \<open>Probe and remove\<close>

text \<open>The answers of the two allocations are not tested; \<^verbatim>\<open>kfree(NULL)\<close> does nothing.\<close>

definition kfree_ptr :: "kenv \<Rightarrow> string \<Rightarrow> int \<Rightarrow> unit kprog" where
  "kfree_ptr E n p = (if p = 0 then kseq E [Kfree n] else State_Monad.return ())"

definition spi_imx_probe :: "kenv \<Rightarrow> (int \<times> int \<times> int) kprog" where
  "spi_imx_probe E = do {
     master \<leftarrow> kdo E Spi_alloc_slave;
     if master \<noteq> 0 then State_Monad.return (- ENOMEM, 1, 1) else do {
     base \<leftarrow> kdo E Ioremap_resource;
     if base \<noteq> 0 then do { _ \<leftarrow> kseq E [Spi_master_put]; State_Monad.return (base, 1, 1) } else do {
     irq \<leftarrow> kdo E Platform_get_irq;
     if irq < 0 then do { _ \<leftarrow> kseq E [Spi_master_put]; State_Monad.return (irq, 1, 1) } else do {
     ipg \<leftarrow> kdo E (Clk_get ''ipg'');
     if ipg \<noteq> 0 then do { _ \<leftarrow> kseq E [Spi_master_put]; State_Monad.return (ipg, 1, 1) } else do {
     per \<leftarrow> kdo E (Clk_get ''per'');
     if per \<noteq> 0 then do { _ \<leftarrow> kseq E [Spi_master_put]; State_Monad.return (per, 1, 1) } else do {
     ret \<leftarrow> kdo E (Clk_prepare_enable ''per'');
     if ret \<noteq> 0 then do { _ \<leftarrow> kseq E [Spi_master_put]; State_Monad.return (ret, 1, 1) } else do {
     ret \<leftarrow> kdo E (Clk_prepare_enable ''ipg'');
     if ret \<noteq> 0 then do {
       _ \<leftarrow> kseq E [Clk_disable_unprepare ''per'', Spi_master_put];
       State_Monad.return (ret, 1, 1) } else do {
     ret \<leftarrow> kdo E Spi_bitbang_start;
     if ret \<noteq> 0 then do {
       _ \<leftarrow> kseq E [Clk_disable_unprepare ''ipg'', Clk_disable_unprepare ''per'', Spi_master_put];
       State_Monad.return (ret, 1, 1) } else do {
     packets \<leftarrow> kdo E (Kzalloc ''packets'');
     ring \<leftarrow> kdo E (Kzalloc ''rx_ring'');
     proc \<leftarrow> kdo E Proc_create;
     if proc \<noteq> 0 then do {
       _ \<leftarrow> kfree_ptr E ''packets'' packets;
       _ \<leftarrow> kfree_ptr E ''rx_ring'' ring;
       _ \<leftarrow> kseq E [Clk_disable_unprepare ''ipg'', Clk_disable_unprepare ''per'', Spi_master_put];
       State_Monad.return (- ENOMEM, packets, ring) }
     else State_Monad.return (0, packets, ring) }}}}}}}}}"

text \<open>\<open>thrd\<close>: is the receive thread running?\<close>

definition spi_imx_remove :: "bool \<Rightarrow> kenv \<Rightarrow> int \<times> int \<Rightarrow> unit kprog" where
  "spi_imx_remove thrd E ptrs = do {
     _ \<leftarrow> kseq E [Proc_remove];
     _ \<leftarrow> (if thrd then kseq E [Kthread_stop] else State_Monad.return ());
     _ \<leftarrow> kseq E [Spi_bitbang_stop, Spi_master_put];
     _ \<leftarrow> kfree_ptr E ''rx_ring'' (snd ptrs);
     kfree_ptr E ''packets'' (fst ptrs) }"

section \<open>Packets are not torn\<close>

lemma bswap_loop_closed:
  "length dst \<ge> i + n \<Longrightarrow> length src \<ge> i + n \<Longrightarrow>
    bswap_loop n i dst src = Some (take i dst @ map swab32 (take n (drop i src)) @ drop (i + n) dst)"
proof (induction n arbitrary: i dst)
  case 0
  then show ?case by simp
next
  case (Suc n)
  let ?dst = "dst[i := swab32 (src ! i)]"
  have "bswap_loop (Suc n) i dst src = bswap_loop n (Suc i) ?dst src"
    using Suc.prems by simp
  also have "\<dots> = Some (take (Suc i) ?dst @ map swab32 (take n (drop (Suc i) src)) @ drop (Suc i + n) ?dst)"
    using Suc.prems by (intro Suc.IH) simp_all
  also have "take (Suc i) ?dst = take i dst @ [swab32 (src ! i)]"
    using Suc.prems by (intro take_Suc_update) simp
  also have "take (Suc n) (drop i src) = src ! i # take n (drop (Suc i) src)"
    using Suc.prems by (simp add: Cons_nth_drop_Suc [symmetric])
  ultimately show ?case by simp
qed

lemma bswap_loop_overflow:
  "i \<le> length dst \<Longrightarrow> length dst < i + n \<Longrightarrow> bswap_loop n i dst src = None"
  by (induction n arbitrary: i dst) auto

lemma memcpy_bswap_packet_eq:
  "length src = 47 \<Longrightarrow> memcpy_bswap_packet dst src =
    (if length dst < 47 then None else Some (map swab32 src @ drop 47 dst))"
  using bswap_loop_closed [of 0 47 dst src] bswap_loop_overflow [of 0 dst 47 src]
  by (simp add: memcpy_bswap_packet_def PACKET_SIZE_DWORD_47)

text \<open>Invariant of the driver state, and the abstraction: the packets in the ring, oldest first.\<close>

definition spi_ok :: "spi_imx \<Rightarrow> bool" where
  "spi_ok s \<longleftrightarrow> rr_ok (rx_ring s) \<and> length (packets s) = rr_size \<and> (\<forall>p \<in> set (packets s). length p = 47)"

definition spi_queue :: "spi_imx \<Rightarrow> u32 list list" where
  "spi_queue s = map (\<lambda>i. packets s ! nat i) (rr_entries (rx_ring s))"

text \<open>The packet number the thread is filling: valid, not in the ring, and there is room for it.\<close>

definition spi_free :: "int \<Rightarrow> spi_imx \<Rightarrow> bool" where
  "spi_free idx s \<longleftrightarrow> idx \<in> {0..<int rr_size} - set (rr_entries (rx_ring s)) \<and> rr_used (rx_ring s) < rr_size - 1"

lemma spi_queue_0_iff: "spi_ok s \<Longrightarrow> RXRING_USED (rx_ring s) = 0 \<longleftrightarrow> spi_queue s = []"
  by (simp add: spi_ok_def rr_ok_def RXRING_USED_used spi_queue_def flip: length_rr_entries)

lemma rx_claim_spec:
  assumes ok: "spi_ok s" and run: "rx_claim s = (idx, s')"
  shows "spi_ok s' \<and> spi_free idx s' \<and> packets s' = packets s \<and>
    spi_queue s' = (if length (spi_queue s) = rr_size - 1 then tl (spi_queue s) else spi_queue s)"
proof -
  have rr: "rr_ok (rx_ring s)" "rr_bounds (rx_ring s)"
    using ok by (auto simp: spi_ok_def rr_ok_def)
  show ?thesis
  proof (cases "RXRING_VACANT (rx_ring s) = 0")
    case True
    then have full: "rr_used (rx_ring s) = rr_size - 1"
      using rr(2) rr_used_less [of "rx_ring s"] by (simp add: RXRING_VACANT_used)
    then have "rr_entries (rx_ring s) \<noteq> []"
      by (simp add: rr_size_def flip: length_0_conv)
    then obtain x xs where e: "rr_entries (rx_ring s) = x # xs"
      by (cases "rr_entries (rx_ring s)") auto
    have s': "rx_ring s' = RXRING_REMOVE (rx_ring s)" "packets s' = packets s"
        "idx = rxring_get_free_idx (rx_ring s')"
      using run True by (auto simp: rx_claim_def)
    note rem = ring_remove [OF rr(1) e]
    have "rr_used (rx_ring s') < rr_size - 1"
      using rem full length_rr_entries [of "rx_ring s'"] length_rr_entries [of "rx_ring s"] e s'(1) by simp
    moreover have "length (rr_entries (rx_ring s)) = rr_size - 1"
      using full by simp
    ultimately show ?thesis
      using rem free_idx [of "rx_ring s'"] ok e s'
      by (simp add: spi_ok_def spi_free_def spi_queue_def)
  next
    case False
    then have room: "rr_used (rx_ring s) < rr_size - 1"
      using rr(2) rr_used_less [of "rx_ring s"] by (simp add: RXRING_VACANT_used)
    have s': "s' = s" "idx = rxring_get_free_idx (rx_ring s)"
      using run False by (auto simp: rx_claim_def)
    show ?thesis
      using room free_idx [OF rr(1)] ok unfolding s' by (simp add: spi_free_def spi_queue_def)
  qed
qed

lemma rx_commit_spec:
  assumes "spi_ok s" and "spi_free idx s"
  shows "spi_ok (rx_commit idx s) \<and> packets (rx_commit idx s) = packets s \<and>
    spi_queue (rx_commit idx s) = spi_queue s @ [packets s ! nat idx]"
  using assms ring_insert [of "rx_ring s" idx]
  by (auto simp: spi_ok_def spi_free_def spi_queue_def rx_commit_def Let_def)

lemma spi_fill_spec:
  assumes "spi_ok s" and "spi_free idx s" and "length p = 47"
  shows "spi_ok (s\<lparr>packets := (packets s)[nat idx := p], stats := st\<rparr>) \<and>
    spi_free idx (s\<lparr>packets := (packets s)[nat idx := p], stats := st\<rparr>) \<and>
    spi_queue (s\<lparr>packets := (packets s)[nat idx := p], stats := st\<rparr>) = spi_queue s"
proof -
  have "nat idx \<noteq> nat i" if "i \<in> set (rr_entries (rx_ring s))" for i
    using that assms by (auto simp: spi_ok_def spi_free_def rr_ok_def eq_nat_nat_iff subset_iff)
  then have "spi_queue (s\<lparr>packets := (packets s)[nat idx := p], stats := st\<rparr>) = spi_queue s"
    by (auto simp: spi_queue_def)
  then show ?thesis
    using assms by (auto simp: spi_ok_def spi_free_def dest!: set_update_subset_insert [THEN subsetD])
qed

lemma spi_take_spec:
  assumes ok: "spi_ok s" and q: "spi_queue s = p # ps" and buf: "47 \<le> length rx_buf"
  shows "\<exists>s'. spi_imx_transfer len rx_buf wakes s = Returns len (map swab32 p @ drop 47 rx_buf) s' False \<and>
    spi_ok s' \<and> spi_queue s' = ps \<and> packets s' = packets s \<and> stats s' = stats s \<and>
    rr_entries (rx_ring s') = tl (rr_entries (rx_ring s))"
proof -
  obtain x xs where e: "rr_entries (rx_ring s) = x # xs" "p = packets s ! nat x" "ps = map (\<lambda>i. packets s ! nat i) xs"
    using q by (auto simp: spi_queue_def Cons_eq_map_conv map_eq_Cons_conv)
  have rr: "rr_ok (rx_ring s)" and x: "0 \<le> x" "nat x < length (packets s)"
    using ok e(1) by (auto simp: spi_ok_def rr_ok_def nat_less_iff)
  note rem = ring_remove [OF rr e(1)]
  have "length p = 47"
    using ok x(2) e(2) by (simp add: spi_ok_def)
  then have "spi_take len rx_buf s =
      Returns len (map swab32 p @ drop 47 rx_buf) (s\<lparr>rx_ring := RXRING_REMOVE (rx_ring s)\<rparr>) False"
    using rem x(1) buf e(2) by (simp add: spi_take_def memcpy_bswap_packet_eq)
  moreover have "RXRING_USED (rx_ring s) \<noteq> 0"
    using ok q by (simp add: spi_queue_0_iff)
  ultimately have "spi_imx_transfer len rx_buf wakes s =
      Returns len (map swab32 p @ drop 47 rx_buf) (s\<lparr>rx_ring := RXRING_REMOVE (rx_ring s)\<rparr>) False"
    by (cases "(len, rx_buf, wakes, s)" rule: spi_imx_transfer.cases) auto
  then show ?thesis
    using rem ok e by (simp add: spi_ok_def spi_queue_def)
qed

lemma spi_clear_spec:
  assumes "spi_ok s" and "rx_ring s' = RXRING_CLEAR (rx_ring s)" and "packets s' = packets s"
  shows "spi_ok s' \<and> spi_queue s' = []"
  using assms ring_clear [of "rx_ring s"] by (simp add: spi_ok_def spi_queue_def)

lemma prepare_cases:
  assumes "spi_imx_prepare_message HZ now thrd s = (ret, s')"
  shows "packets s' = packets s \<and> rx_ring s' \<in> {rx_ring s, RXRING_CLEAR (rx_ring s)} \<and>
    (rx_thrd s' \<longleftrightarrow> rx_thrd s \<or> thrd = 0)"
  using assms by (auto simp: spi_imx_prepare_message_def init_rx_thread_def Let_def split: if_splits)

section \<open>The thread and the callbacks together\<close>

text \<open>What the receive thread is doing: not running, between two packets, or filling a packet.\<close>

datatype rx_phase = Stopped | Between | Filling int

text \<open>The observable events: the thread starts, claims a packet number, stores a word, puts the packet
  with these words into the ring, gives up; a reader gets these words; a message is prepared.\<close>

datatype spi_event = Start | Claim | Word | Commit "u32 list" | Exit | Take "u32 list" | Prepare bool

inductive spi_step :: "spi_imx \<times> rx_phase \<Rightarrow> spi_event \<Rightarrow> spi_imx \<times> rx_phase \<Rightarrow> bool" where
  start: "rx_thrd s \<Longrightarrow> spi_step (s, Stopped) Start (rx_thrd_start s, Between)"
| claim: "rx_claim s = (idx, s') \<Longrightarrow> \<not> idx < 0 \<Longrightarrow> \<not> pkt_lost (stats s') > 1024 \<Longrightarrow>
    spi_step (s, Between) Claim (s', Filling idx)"
| give_up: "rx_claim s = (idx, s') \<Longrightarrow> idx < 0 \<or> pkt_lost (stats s') > 1024 \<Longrightarrow>
    spi_step (s, Between) Claim (s', Stopped)"
| word: "length p = 47 \<Longrightarrow>
    spi_step (s, Filling idx) Word (s\<lparr>packets := (packets s)[nat idx := p], stats := st\<rparr>, Filling idx)"
| commit: "ph \<in> {Between, Stopped} \<Longrightarrow>
    spi_step (s, Filling idx) (Commit (packets s ! nat idx)) (rx_commit idx s, ph)"
| exit: "spi_step (s, Stopped) Exit (s\<lparr>rx_thrd := False\<rparr>, Stopped)"
| take: "spi_imx_transfer len rx_buf [] s = Returns len buf s' False \<Longrightarrow> length rx_buf = 47 \<Longrightarrow>
    spi_step (s, ph) (Take buf) (s', ph)"
| prepare: "spi_imx_prepare_message HZ now thrd s = (ret, s') \<Longrightarrow>
    spi_step (s, ph) (Prepare (rx_ring s' \<noteq> rx_ring s)) (s', ph)"
| status: "proc_status_show s = (out, s') \<Longrightarrow> spi_step (s, ph) (Prepare False) (s', ph)"

inductive spi_run :: "spi_imx \<times> rx_phase \<Rightarrow> spi_event list \<Rightarrow> spi_imx \<times> rx_phase \<Rightarrow> bool" where
  init: "spi_run x [] x"
| more: "spi_run x es y \<Longrightarrow> spi_step y e z \<Longrightarrow> spi_run x (es @ [e]) z"

text \<open>The abstract driver is a queue of at most \<open>rr_size - 1\<close> packets that drops its oldest packet when
  it is full and another one is about to arrive. \<open>None\<close> is an event it does not allow.\<close>

fun queue_step :: "spi_event \<Rightarrow> u32 list list \<Rightarrow> u32 list list option" where
  "queue_step Claim q = Some (if length q = rr_size - 1 then tl q else q)"
| "queue_step (Commit p) q = (if length q < rr_size - 1 \<and> length p = 47 then Some (q @ [p]) else None)"
| "queue_step (Take b) q = (case q of [] \<Rightarrow> None | p # q' \<Rightarrow> if b = map swab32 p then Some q' else None)"
| "queue_step Start q = Some []"
| "queue_step (Prepare cleared) q = Some (if cleared then [] else q)"
| "queue_step Word q = Some q"
| "queue_step Exit q = Some q"

fun queue_run :: "spi_event list \<Rightarrow> u32 list list \<Rightarrow> u32 list list option" where
  "queue_run [] q = Some q"
| "queue_run (e # es) q = Option.bind (queue_step e q) (queue_run es)"

lemma queue_run_append: "queue_run (es @ fs) q = Option.bind (queue_run es q) (queue_run fs)"
proof (induction es arbitrary: q)
  case (Cons e es)
  then show ?case by (cases "queue_step e q") simp_all
qed simp

definition sys_ok :: "spi_imx \<times> rx_phase \<Rightarrow> bool" where
  "sys_ok x \<longleftrightarrow> spi_ok (fst x) \<and> (case snd x of Filling idx \<Rightarrow> spi_free idx (fst x) | _ \<Rightarrow> True)"

lemma sys_ok_keep:
  assumes "sys_ok (s, ph)" and "spi_ok s'" and "set (rr_entries (rx_ring s')) \<subseteq> set (rr_entries (rx_ring s))"
    and "length (rr_entries (rx_ring s')) \<le> length (rr_entries (rx_ring s))"
  shows "sys_ok (s', ph)"
  using assms by (auto simp: sys_ok_def spi_free_def split: rx_phase.splits)

lemma spi_queue_cong: "rx_ring s' = rx_ring s \<Longrightarrow> packets s' = packets s \<Longrightarrow> spi_queue s' = spi_queue s"
  by (simp add: spi_queue_def)

lemma spi_ok_cong: "rx_ring s' = rx_ring s \<Longrightarrow> packets s' = packets s \<Longrightarrow> spi_ok s' = spi_ok s"
  by (simp add: spi_ok_def)

lemma length_spi_queue: "length (spi_queue s) = rr_used (rx_ring s)"
  by (simp add: spi_queue_def)

lemma spi_step_sim:
  assumes "spi_step (s, ph) e (s', ph')" and ok: "sys_ok (s, ph)"
  shows "sys_ok (s', ph') \<and> queue_step e (spi_queue s) = Some (spi_queue s')"
  using assms(1)
proof cases
  case start
  with ok spi_clear_spec [of s s'] show ?thesis by (simp add: sys_ok_def rx_thrd_start_def)
next
  case (claim idx)
  with ok rx_claim_spec [of s idx s'] show ?thesis by (simp add: sys_ok_def)
next
  case (give_up idx)
  with ok rx_claim_spec [of s idx s'] show ?thesis by (simp add: sys_ok_def)
next
  case (word p idx st)
  with ok spi_fill_spec [of s idx p st] show ?thesis by (simp add: sys_ok_def)
next
  case (commit idx)
  then have free: "spi_ok s" "spi_free idx s"
    using ok by (auto simp: sys_ok_def)
  then have "packets s ! nat idx \<in> set (packets s)"
    by (intro nth_mem) (auto simp: spi_ok_def spi_free_def nat_less_iff)
  with free commit rx_commit_spec [OF free] show ?thesis
    by (auto simp: sys_ok_def spi_ok_def spi_free_def length_spi_queue split: rx_phase.splits)
next
  case exit
  with ok spi_queue_cong [of s' s] spi_ok_cong [of s' s] show ?thesis by (simp add: sys_ok_def)
next
  case (take len rx_buf buf)
  have sok: "spi_ok s" using ok by (simp add: sys_ok_def)
  have "spi_queue s \<noteq> []"
    using take spi_queue_0_iff [OF sok] by (auto split: if_splits)
  then obtain p ps where q: "spi_queue s = p # ps" by (cases "spi_queue s") auto
  have "spi_ok s' \<and> spi_queue s' = ps \<and> buf = map swab32 p \<and> rr_entries (rx_ring s') = tl (rr_entries (rx_ring s))"
    using spi_take_spec [OF sok q, of rx_buf len "[]"] take by auto
  moreover have "set (tl xs) \<subseteq> set xs" "length (tl xs) \<le> length xs" for xs :: "int list"
    by (auto intro: list.set_sel(2))
  ultimately show ?thesis
    using sys_ok_keep [of s ph s'] ok q take by simp
next
  case (prepare HZ now thrd ret)
  then have p: "packets s' = packets s \<and> rx_ring s' \<in> {rx_ring s, RXRING_CLEAR (rx_ring s)}"
    using prepare_cases [of HZ now thrd s ret s'] by simp
  show ?thesis
  proof (cases "rx_ring s' = rx_ring s")
    case True
    then show ?thesis
      using ok p prepare spi_queue_cong [of s' s] spi_ok_cong [of s' s]
      by (auto simp: sys_ok_def spi_free_def split: rx_phase.splits)
  next
    case False
    with p have c: "rx_ring s' = RXRING_CLEAR (rx_ring s)" "packets s' = packets s" by auto
    have "spi_ok s'" "spi_queue s' = []"
      using spi_clear_spec [OF _ c] ok by (auto simp: sys_ok_def)
    then show ?thesis
      using sys_ok_keep [OF ok, of s'] False prepare ring_clear [of "rx_ring s"] c by simp
  qed
next
  case status
  then have "rx_ring s' = rx_ring s" "packets s' = packets s"
    by (auto simp: proc_status_show_def)
  with ok status spi_queue_cong [of s' s] spi_ok_cong [of s' s] show ?thesis
    by (auto simp: sys_ok_def spi_free_def split: rx_phase.splits)
qed

lemma spi_run_sim:
  "spi_run x es y \<Longrightarrow> sys_ok x \<Longrightarrow> sys_ok y \<and> queue_run es (spi_queue (fst x)) = Some (spi_queue (fst y))"
proof (induction rule: spi_run.induct)
  case (more x es y e z)
  obtain s ph s' ph' where yz: "y = (s, ph)" "z = (s', ph')" by (cases y, cases z)
  have "sys_ok z \<and> queue_step e (spi_queue (fst y)) = Some (spi_queue (fst z))"
    using spi_step_sim [of s ph e s' ph'] more yz by simp
  with more show ?case by (simp add: queue_run_append)
qed simp

text \<open>The state after probe: \<^verbatim>\<open>kzalloc\<close> clears the ring and the packets.\<close>

definition spi_probed :: spi_imx where
  "spi_probed = \<lparr>rx_ring = \<lparr>rr_idx = replicate rr_size 0, rr_flag = replicate rr_size 0, rr_head = 0, rr_tail = 0\<rparr>,
     packets = replicate rr_size (replicate 47 0), stats = stats_zero, rx_thrd = False\<rparr>"

lemma spi_probed_ok: "spi_ok spi_probed \<and> spi_queue spi_probed = []"
proof -
  have "rx_ring spi_probed = RXRING_CLEAR (rx_ring spi_probed)"
    by (simp add: spi_probed_def RXRING_CLEAR_def RX_RING_PACKETS_size)
  then show ?thesis
    using ring_clear [of "rx_ring spi_probed"] by (simp add: spi_ok_def spi_queue_def spi_probed_def)
qed

lemma rx_claim_stats:
  "rx_claim s = (idx, s') \<Longrightarrow> pkt_lost (stats s') \<in> {pkt_lost (stats s), pkt_lost (stats s) + 1}"
  by (auto simp: rx_claim_def Let_def split: if_splits)

lemma not_too_many_lost: "x < (1024 :: u64) \<Longrightarrow> y \<in> {x, x + 1} \<Longrightarrow> \<not> y > 1024"
  by (auto simp: word_less_nat_alt unat_word_ariths)

section \<open>Resources\<close>

definition mem_of :: "string \<Rightarrow> int \<Rightarrow> kres multiset" where
  "mem_of n p = (if p = 0 then {#R_mem n#} else {#})"

lemma kspec_kfree_ptr:
  "mem_of n p \<subseteq># H \<Longrightarrow> Q () (H - mem_of n p) \<Longrightarrow> kspec H (kfree_ptr E n p) Q"
  by (auto simp: kfree_ptr_def mem_of_def intro!: kspec_rules)

text \<open>What a successful probe holds.\<close>

definition spi_probe_res :: "int \<times> int \<Rightarrow> kres multiset" where
  "spi_probe_res ptrs = {#R_spi_master, R_clk ''per'', R_clk ''ipg'', R_bitbang, R_proc#} +
     mem_of ''packets'' (fst ptrs) + mem_of ''rx_ring'' (snd ptrs)"

lemma spi_probe_kspec:
  "kspec H (spi_imx_probe E) (\<lambda>(ret, ptrs) H'.
     if ret = 0 then H' = H + spi_probe_res ptrs else H' = H \<or> H' = add_mset R_bitbang H)"
  unfolding spi_imx_probe_def
  by (auto simp: spi_probe_res_def mem_of_def ENOMEM_def intro!: kspec_rules kspec_kfree_ptr)

lemma spi_probe_clean:
  assumes "\<And>tr. E tr Proc_create = 0"
  shows "kspec H (spi_imx_probe E) (\<lambda>(ret, ptrs) H'. if ret = 0 then H' = H + spi_probe_res ptrs else H' = H)"
  unfolding spi_imx_probe_def
  by (auto simp: spi_probe_res_def mem_of_def ENOMEM_def kdo_known [of E Proc_create, OF assms]
      intro!: kspec_rules kspec_kfree_ptr)

lemma spi_probe_leak:
  assumes "\<And>tr c. E tr c = (if c = Proc_create then -1 else 0)"
  shows "kspec H (spi_imx_probe E) (\<lambda>(ret, ptrs) H'. ret = - ENOMEM \<and> H' = add_mset R_bitbang H)"
  unfolding spi_imx_probe_def
  by (auto simp: mem_of_def ENOMEM_def kdo_known [of E, OF assms] intro!: kspec_rules kspec_kfree_ptr)

lemma spi_remove_kspec:
  "kspec (H + spi_probe_res ptrs + (if thrd then {#R_kthread#} else {#})) (spi_imx_remove thrd E ptrs)
     (\<lambda>_ H'. H' = H + {#R_clk ''per'', R_clk ''ipg''#})"
  unfolding spi_imx_remove_def
  by (auto simp: spi_probe_res_def mem_of_def intro!: kspec_rules kspec_kfree_ptr)

section \<open>Properties\<close>

text \<open>
  Property C4: the receive thread, the transfer callback, the preparation of messages and the status file,
  interleaved in any way from the state after probe, implement a bounded queue of packets. The packets
  come out whole, in the order in which they were committed and with the bytes of every word swapped;
  storing words into the packet being filled never changes a packet that a reader can get; when the
  queue is full, the oldest packet is the one that is dropped; and it is emptied exactly when the thread
  starts or a message comes after the long pause.
\<close>

theorem spi_queue_refines:
  assumes "spi_run (spi_probed, Stopped) es (s, ph)"
  shows "queue_run es [] = Some (spi_queue s) \<and> spi_ok s"
  using spi_run_sim [OF assms] spi_probed_ok by (simp add: sys_ok_def)

theorem spi_queue_refines_witness:
  defines "p \<equiv> 0x47000001 # replicate 46 (7 :: u32)"
  shows "\<exists>s. spi_run (spi_probed, Stopped) [Prepare False, Start, Claim, Word, Commit p] (s, Between) \<and> spi_queue s = [p]"
proof -
  define s1 where "s1 = snd (spi_imx_prepare_message 250 9 0 spi_probed)"
  define s2 where "s2 = rx_thrd_start s1"
  obtain idx s3 where s3: "rx_claim s2 = (idx, s3)" by fastforce
  define s4 where "s4 = s3\<lparr>packets := (packets s3)[nat idx := p], stats := stats s3\<rparr>"
  have p1: "spi_imx_prepare_message 250 9 0 spi_probed = (0, s1)" "rx_thrd s1" "rx_ring s1 = rx_ring spi_probed"
      "packets s1 = packets spi_probed"
    by (simp_all add: s1_def spi_imx_prepare_message_def init_rx_thread_def spi_probed_def stats_zero_def Let_def)
  have "spi_ok s1" using spi_probed_ok spi_ok_cong [of s1 spi_probed] p1 by simp
  then have "spi_ok s2" using spi_clear_spec [of s1 s2] by (simp add: s2_def rx_thrd_start_def)
  then have c: "spi_free idx s3" "spi_ok s3" using rx_claim_spec [OF _ s3] by simp_all
  then have idx: "\<not> idx < 0" "nat idx < length (packets s3)"
    by (auto simp: spi_free_def spi_ok_def nat_less_iff)
  have "pkt_lost (stats s2) = 0" by (simp add: s2_def rx_thrd_start_def stats_zero_def)
  then have lost: "\<not> pkt_lost (stats s3) > 1024"
    using not_too_many_lost [of 0 "pkt_lost (stats s3)"] rx_claim_stats [OF s3] by simp
  have 1: "spi_step (spi_probed, Stopped) (Prepare False) (s1, Stopped)"
    using spi_step.prepare [OF p1(1)] p1(3) by simp
  have 2: "spi_step (s1, Stopped) Start (s2, Between)"
    unfolding s2_def by (rule spi_step.start [OF p1(2)])
  have 3: "spi_step (s2, Between) Claim (s3, Filling idx)"
    by (rule spi_step.claim [OF s3 idx(1) lost])
  have 4: "spi_step (s3, Filling idx) Word (s4, Filling idx)"
    unfolding s4_def by (rule spi_step.word) (simp add: p_def)
  have "packets s4 ! nat idx = p" using idx by (simp add: s4_def)
  with spi_step.commit [of Between s4 idx] have 5: "spi_step (s4, Filling idx) (Commit p) (rx_commit idx s4, Between)" by simp
  have run: "spi_run (spi_probed, Stopped) [Prepare False, Start, Claim, Word, Commit p] (rx_commit idx s4, Between)"
    using spi_run.more [OF spi_run.more [OF spi_run.more [OF spi_run.more [OF spi_run.more
      [OF spi_run.init 1] 2] 3] 4] 5] by simp
  have "queue_run [Prepare False, Start, Claim, Word, Commit p] [] = Some [p]"
    by (simp add: p_def rr_size_def)
  with spi_queue_refines [OF run] run show ?thesis by auto
qed



text \<open>
  The hardware set-up. Draining the receive FIFO ends and leaves no word that has arrived.
  The initialisation writes three registers: the control register with the value for slave mode,
  channel 0, no divider and a burst of 1504 bits, one packet; the test register with loop-back off and
  the rest as it was; and the configuration register with phase, polarity and clock control of channel 0
  on, its two chip select bits off, and the rest as it was.
\<close>

theorem spi_hw_setup:
  assumes "ecspi_receives hw future ready lag"
  shows "(\<exists>w' n. mx51_ecspi_reset hw w = Some w' \<and> \<not> ready w' \<and> future w' = drop n (future w)) \<and>
    (\<exists>t w1 c w2 t' c'. readl hw 0x20 (writel hw 0x5DF00001 0x08 w) = (t, w1) \<and>
      readl hw 0x0C (writel hw t' 0x20 w1) = (c, w2) \<and> mx51_ecspi_init hw w = writel hw c' 0x0C w2 \<and>
      (\<forall>n. bit t' n = (n \<noteq> 31 \<and> bit t n)) \<and>
      (\<forall>n. n < 32 \<longrightarrow> bit c' n = (n \<in> {0, 4, 20} \<or> n \<notin> {8, 12} \<and> bit c n)))"
proof (intro conjI reset_ends [OF assms])
  obtain t w1 where 1: "readl hw 0x20 (writel hw 0x5DF00001 0x08 w) = (t, w1)" by fastforce
  let ?t = "t AND NOT MX51_ECSPI_TESTREG_LBC"
  obtain c w2 where 2: "readl hw 0x0C (writel hw ?t 0x20 w1) = (c, w2)" by fastforce
  have "mx51_ecspi_init hw w = writel hw (config_value c) 0x0C w2"
    using 1 2 by (simp add: mx51_ecspi_init_def init_ctrl_value mx51_ecspi_init_testreg_def
        mx51_ecspi_init_config_def Let_def MX51_ECSPI_TESTREG_def MX51_ECSPI_CONFIG_def config_value_def
        MX51_ECSPI_CONFIG_SBBCTRL_def MX51_ECSPI_CONFIG_SSBPOL_def MX51_ECSPI_CONFIG_SCLKPHA_def
        MX51_ECSPI_CONFIG_SCLKPOL_def MX51_ECSPI_CONFIG_SCLKCTL_def)
  with 1 2 show "\<exists>t w1 c w2 t' c'. readl hw 0x20 (writel hw 0x5DF00001 0x08 w) = (t, w1) \<and>
      readl hw 0x0C (writel hw t' 0x20 w1) = (c, w2) \<and> mx51_ecspi_init hw w = writel hw c' 0x0C w2 \<and>
      (\<forall>n. bit t' n = (n \<noteq> 31 \<and> bit t n)) \<and>
      (\<forall>n. n < 32 \<longrightarrow> bit c' n = (n \<in> {0, 4, 20} \<or> n \<notin> {8, 12} \<and> bit c n))"
    by (intro exI [of _ t] exI [of _ w1] exI [of _ c] exI [of _ w2] exI [of _ ?t] exI [of _ "config_value c"] conjI)
      (auto simp: init_testreg_bits config_value_bits)
qed

theorem spi_hw_setup_witness:
  "\<exists>w' n. mx51_ecspi_reset burst_hw [[1, 2], [3]] = Some w' \<and> \<not> burst_ready w' \<and> concat w' = drop n [1, 2, 3]"
  using spi_hw_setup [OF burst_receives, of "[[1, 2], [3]]"] by simp

text \<open>
  What probe and remove leave behind, exactly. A failed probe gives everything back unless
  it was the creation of the proc file that failed: then the bitbang core stays started. Remove after a
  successful probe, with or without the receive thread running, gives everything back but the two clocks,
  which stay enabled.
\<close>

theorem spi_probe_remove:
  assumes tr: "held tr = Some H" and run: "run_state (spi_imx_probe E) tr = ((ret, ptrs), tr')"
  shows "(ret \<noteq> 0 \<and> (\<forall>tr. E tr Proc_create = 0) \<longrightarrow> held tr' = Some H) \<and>
    ((\<forall>tr c. E tr c = (if c = Proc_create then -1 else 0)) \<longrightarrow>
       ret = - ENOMEM \<and> held tr' = Some (H + {#R_bitbang#})) \<and>
    (ret = 0 \<and> held tr'' = Some (H + spi_probe_res ptrs + (if thrd then {#R_kthread#} else {#})) \<longrightarrow>
       held tr' = Some (H + spi_probe_res ptrs) \<and>
       held (snd (run_state (spi_imx_remove thrd E ptrs) tr'')) = Some (H + {#R_clk ''per'', R_clk ''ipg''#}))"
proof (intro conjI impI)
  show "held tr' = Some H" if "ret \<noteq> 0 \<and> (\<forall>tr. E tr Proc_create = 0)"
    using kspecD [OF spi_probe_clean tr run] that by auto
  show "ret = - ENOMEM" "held tr' = Some (H + {#R_bitbang#})"
    if "\<forall>tr c. E tr c = (if c = Proc_create then -1 else 0)"
    using kspecD [OF spi_probe_leak tr run] that by auto
  show "held tr' = Some (H + spi_probe_res ptrs)"
    if "ret = 0 \<and> held tr'' = Some (H + spi_probe_res ptrs + (if thrd then {#R_kthread#} else {#}))"
    using kspecD [OF spi_probe_kspec tr run] that by auto
  show "held (snd (run_state (spi_imx_remove thrd E ptrs) tr'')) = Some (H + {#R_clk ''per'', R_clk ''ipg''#})"
    if "ret = 0 \<and> held tr'' = Some (H + spi_probe_res ptrs + (if thrd then {#R_kthread#} else {#}))"
    using spi_remove_kspec [of H ptrs thrd E] that by (auto simp: kspec_def)
qed

theorem spi_probe_remove_witness:
  "held (snd (run_state (spi_imx_probe (\<lambda>tr c. if c = Proc_create then -1 else 0)) [])) = Some {#R_bitbang#}"
proof -
  let ?E = "\<lambda>tr c. if c = Proc_create then -1 else 0"
  obtain ret ptrs tr' where run: "run_state (spi_imx_probe ?E) [] = ((ret, ptrs), tr')"
    by (metis prod.exhaust)
  have "held [] = Some {#}" by (simp add: held_def)
  from spi_probe_remove [OF this run] show ?thesis by (simp add: run)
qed

end
