(* ===== verification/Udp_Proxy.thy ===== *)
theory Udp_Proxy
  imports Prelude
begin

text \<open>
  The three UDP proxies of \<^verbatim>\<open>python/udp_xor_proxy\<close>: \<^verbatim>\<open>udp_xor_proxy.c\<close> with one client and two threads,
  \<^verbatim>\<open>udp_xor_proxy_multi.c\<close> with a list of clients, and \<^verbatim>\<open>udp_xor_proxy_multi_cleanup.c\<close> with a thread that
  removes idle clients. A loop that serves for ever is the function of one round; a run of it is a fold
  over what the system calls deliver. \<open>None\<close> is undefined behaviour of C: a remainder by zero or an
  access beyond an array.
\<close>

section \<open>Obfuscation\<close>

text \<open>\<open>key\<close> is the array, of which the first \<open>key_len\<close> bytes are used.\<close>

fun xor_loop :: "nat \<Rightarrow> nat \<Rightarrow> u8 list \<Rightarrow> u8 list \<Rightarrow> nat \<Rightarrow> u8 list option" where
  "xor_loop 0 i buf key key_len = Some buf"
| "xor_loop (Suc n) i buf key key_len =
     (if key_len = 0 \<or> i mod key_len \<ge> length key \<or> i \<ge> length buf then None
      else xor_loop n (Suc i) (buf[i := (buf ! i) XOR (key ! (i mod key_len))]) key key_len)"

definition xor_buffer :: "u8 list \<Rightarrow> nat \<Rightarrow> u8 list \<Rightarrow> nat \<Rightarrow> u8 list option" where
  "xor_buffer buf len key key_len = xor_loop len 0 buf key key_len"

section \<open>Library functions of C\<close>

text \<open>\<^verbatim>\<open>atoi\<close>: white space, a sign, digits; whatever follows is ignored.\<close>

definition is_digit :: "char \<Rightarrow> bool" where
  "is_digit c \<longleftrightarrow> 48 \<le> (of_char c :: nat) \<and> (of_char c :: nat) \<le> 57"

definition is_space :: "char \<Rightarrow> bool" where
  "is_space c \<longleftrightarrow> (of_char c :: nat) = 32 \<or> 9 \<le> (of_char c :: nat) \<and> (of_char c :: nat) \<le> 13"

definition atoi :: "string \<Rightarrow> int" where
  "atoi s = (case dropWhile is_space s of
       [] \<Rightarrow> 0
     | c # r \<Rightarrow> if c = CHR ''-'' then - int (dec_value (takeWhile is_digit r))
                else if c = CHR ''+'' then int (dec_value (takeWhile is_digit r))
                else int (dec_value (takeWhile is_digit (c # r))))"

text \<open>\<^verbatim>\<open>inet_pton(AF_INET, ...)\<close>: four decimal numbers of one to three digits without leading zeros, at
  most 255, separated by dots. An address is its four bytes.\<close>

fun split_on :: "char \<Rightarrow> string \<Rightarrow> string list" where
  "split_on d [] = [[]]"
| "split_on d (c # cs) =
     (if c = d then [] # split_on d cs
      else (case split_on d cs of [] \<Rightarrow> [[c]] | p # ps \<Rightarrow> (c # p) # ps))"

definition octet_ok :: "string \<Rightarrow> bool" where
  "octet_ok p \<longleftrightarrow> p \<noteq> [] \<and> length p \<le> 3 \<and> list_all is_digit p \<and> dec_value p \<le> 255 \<and>
     (length p > 1 \<longrightarrow> hd p \<noteq> CHR ''0'')"

definition inet_pton :: "string \<Rightarrow> u8 list option" where
  "inet_pton s =
     (let ps = split_on CHR ''.'' s
      in if length ps = 4 \<and> list_all octet_ok ps then Some (map (\<lambda>p. of_nat (dec_value p)) ps) else None)"

record sockaddr_in =
  sin_family :: nat
  sin_port :: "16 word"
  sin_addr :: "u8 list"

definition AF_INET :: nat where "AF_INET = 2"

text \<open>\<^verbatim>\<open>memset\<close>, family, \<^verbatim>\<open>htons\<close> and \<^verbatim>\<open>inet_pton\<close>, whose failure leaves the zero address.\<close>

definition make_addr :: "string \<Rightarrow> int \<Rightarrow> sockaddr_in" where
  "make_addr host port = \<lparr>sin_family = AF_INET, sin_port = word_of_int port,
     sin_addr = (case inet_pton host of None \<Rightarrow> [0, 0, 0, 0] | Some a \<Rightarrow> a)\<rparr>"

section \<open>The command line\<close>

text \<open>\<open>host\<close> is an array of 64 characters; the result is the string in it and the port.\<close>

datatype hostport = Hostport string int | Invalid_hostport | Host_overflow

definition parse_hostport :: "string \<Rightarrow> bool \<Rightarrow> hostport" where
  "parse_hostport s is_remote =
     (let default = (if is_remote then ''127.0.0.1'' else ''0.0.0.0'')
      in if CHR '':'' \<in> set s
         then (let len = length (takeWhile (\<lambda>c. c \<noteq> CHR '':'') s);
                   host = (if len > 0 then take len s else default)
               in if len \<ge> 64 then Host_overflow
                  else Hostport (take len host) (atoi (drop (len + 1) s)))
         else if s \<noteq> [] \<and> is_digit (hd s)
         then Hostport default (atoi s)
         else Invalid_hostport)"

text \<open>The options; \<^verbatim>\<open>argv[argc]\<close> is \<^verbatim>\<open>NULL\<close>, so an option without a value resets its argument. The arguments
  are those after the program name.\<close>

record proxy_args =
  listen_arg :: "string option"
  remote_arg :: "string option"
  key_arg :: "string option"

fun parse_args :: "string list \<Rightarrow> proxy_args \<Rightarrow> proxy_args option" where
  "parse_args [] a = Some a"
| "parse_args (x # xs) a =
     (let v = (case xs of [] \<Rightarrow> None | y # ys \<Rightarrow> Some y); rest = drop 1 xs
      in if x = ''-l'' \<or> x = ''--listen'' then parse_args rest (a\<lparr>listen_arg := v\<rparr>)
         else if x = ''-r'' \<or> x = ''--remote'' then parse_args rest (a\<lparr>remote_arg := v\<rparr>)
         else if x = ''-k'' \<or> x = ''--key'' then parse_args rest (a\<lparr>key_arg := v\<rparr>)
         else None)"

text \<open>A program exits with a status, runs into undefined behaviour, or serves in a state.\<close>

datatype 's main_result = Exit int | Undefined | Serve 's

text \<open>The part of \<^verbatim>\<open>main\<close> before the sockets: the two addresses and the key.\<close>

definition main_config :: "string list \<Rightarrow> (sockaddr_in \<times> sockaddr_in \<times> string option) main_result" where
  "main_config argv =
     (case parse_args argv \<lparr>listen_arg = None, remote_arg = None, key_arg = Some []\<rparr> of
        None \<Rightarrow> Exit 1
      | Some a \<Rightarrow>
          (case remote_arg a of
             None \<Rightarrow> Exit 1
           | Some r \<Rightarrow>
               (case (case listen_arg a of None \<Rightarrow> Hostport ''0.0.0.0'' 12345 | Some l \<Rightarrow> parse_hostport l False) of
                  Invalid_hostport \<Rightarrow> Exit 1
                | Host_overflow \<Rightarrow> Undefined
                | Hostport lhost lport \<Rightarrow>
                    (case parse_hostport r True of
                       Invalid_hostport \<Rightarrow> Exit 1
                     | Host_overflow \<Rightarrow> Undefined
                     | Hostport rhost rport \<Rightarrow>
                         Serve (make_addr lhost lport, make_addr rhost rport, key_arg a)))))"

text \<open>\<^verbatim>\<open>strncpy(key, key_arg, sizeof(key)-1)\<close> into a zeroed array of 256 bytes.\<close>

definition key_bytes :: "string \<Rightarrow> u8 list" where
  "key_bytes s = map (\<lambda>c. of_nat (of_char c)) s"

definition key_array :: "string \<Rightarrow> u8 list" where
  "key_array s = take 255 (key_bytes s) @ replicate (256 - min 255 (length s)) 0"

text \<open>\<^verbatim>\<open>strlen\<close> of the array.\<close>

definition c_strlen :: "u8 list \<Rightarrow> nat" where
  "c_strlen a = length (takeWhile (\<lambda>b. b \<noteq> 0) a)"

section \<open>udp\_xor\_proxy.c\<close>

record proxy_state =
  ps_local_fd :: int
  ps_remote_fd :: int
  ps_remote_addr :: sockaddr_in
  ps_client_addr :: sockaddr_in
  ps_client_addr_len :: nat
  ps_key :: "u8 list"
  ps_key_len :: nat

datatype sent = Sendto int "u8 list" sockaddr_in

text \<open>One round of each thread. \<open>n\<close> is the result of \<^verbatim>\<open>recvfrom\<close>, \<open>data\<close> the datagram if \<open>n > 0\<close>.\<close>

definition local_to_remote_thread :: "int \<Rightarrow> u8 list \<Rightarrow> sockaddr_in \<Rightarrow> nat \<Rightarrow> proxy_state \<Rightarrow> (sent list \<times> proxy_state) option" where
  "local_to_remote_thread n data client_addr addr_len st =
     (if n \<le> 0 then Some ([], st)
      else case xor_buffer data (nat n) (ps_key st) (ps_key_len st) of
             None \<Rightarrow> None
           | Some buf \<Rightarrow>
               (let st = st\<lparr>ps_client_addr := client_addr, ps_client_addr_len := addr_len\<rparr>
                in Some ([Sendto (ps_remote_fd st) buf (ps_remote_addr st)], st)))"

definition remote_to_local_thread :: "int \<Rightarrow> u8 list \<Rightarrow> proxy_state \<Rightarrow> (sent list \<times> proxy_state) option" where
  "remote_to_local_thread n data st =
     (if n \<le> 0 then Some ([], st)
      else case xor_buffer data (nat n) (ps_key st) (ps_key_len st) of
             None \<Rightarrow> None
           | Some buf \<Rightarrow>
               (let client = ps_client_addr st; client_len = ps_client_addr_len st
                in Some (if client_len > 0 then [Sendto (ps_local_fd st) buf client] else [], st)))"

text \<open>\<open>fds\<close> are the answers of the two \<^verbatim>\<open>socket\<close> calls, \<open>bind\<close> that of \<^verbatim>\<open>bind\<close>.\<close>

definition proxy_main :: "int \<times> int \<Rightarrow> (sockaddr_in \<Rightarrow> int) \<Rightarrow> string list \<Rightarrow> proxy_state main_result" where
  "proxy_main fds bind argv =
     (case main_config argv of
        Exit r \<Rightarrow> Exit r
      | Undefined \<Rightarrow> Undefined
      | Serve (local_addr, remote_addr, key) \<Rightarrow>
          if fst fds < 0 \<or> snd fds < 0 then Exit 1
          else if bind local_addr < 0 then Exit 1
          else (case key of
                  None \<Rightarrow> Undefined
                | Some key \<Rightarrow>
                    Serve \<lparr>ps_local_fd = fst fds, ps_remote_fd = snd fds, ps_remote_addr = remote_addr,
                      ps_client_addr = \<lparr>sin_family = 0, sin_port = 0, sin_addr = [0, 0, 0, 0]\<rparr>,
                      ps_client_addr_len = 0, ps_key = key_array key, ps_key_len = c_strlen (key_array key)\<rparr>))"

section \<open>udp\_xor\_proxy\_multi.c\<close>

record client =
  cl_addr :: sockaddr_in
  cl_remote_fd :: int
  cl_last_seen :: int

text \<open>The linked list is a list, its head first.\<close>

record proxy =
  pr_local_fd :: int
  pr_remote_addr :: sockaddr_in
  pr_key :: "u8 list"
  pr_key_len :: nat
  pr_clients :: "client list"

definition addr_equal :: "sockaddr_in \<Rightarrow> sockaddr_in \<Rightarrow> bool" where
  "addr_equal a b \<longleftrightarrow> sin_family a = sin_family b \<and> sin_port a = sin_port b \<and> sin_addr a = sin_addr b"

text \<open>The walk along the list: the client found, and the list with its time updated.\<close>

fun client_walk :: "client list \<Rightarrow> sockaddr_in \<Rightarrow> int \<Rightarrow> (client \<times> client list) option" where
  "client_walk [] a now = None"
| "client_walk (c # cs) a now =
     (if addr_equal (cl_addr c) a
      then (let c = c\<lparr>cl_last_seen := now\<rparr> in Some (c, c # cs))
      else (case client_walk cs a now of None \<Rightarrow> None | Some (d, ds) \<Rightarrow> Some (d, c # ds)))"

text \<open>\<open>mem\<close>: does \<^verbatim>\<open>calloc\<close> succeed; \<open>fd\<close>: the answer of \<^verbatim>\<open>socket\<close>, asked only for a new client.\<close>

definition get_client :: "int \<Rightarrow> bool \<Rightarrow> int \<Rightarrow> sockaddr_in \<Rightarrow> proxy \<Rightarrow> client option \<times> proxy" where
  "get_client now mem fd client_addr p =
     (case client_walk (pr_clients p) client_addr now of
        Some (c, cs) \<Rightarrow> (Some c, p\<lparr>pr_clients := cs\<rparr>)
      | None \<Rightarrow>
          if \<not> mem then (None, p)
          else if fd < 0 then (None, p)
          else (let c = \<lparr>cl_addr = client_addr, cl_remote_fd = fd, cl_last_seen = now\<rparr>
                in (Some c, p\<lparr>pr_clients := c # pr_clients p\<rparr>)))"

text \<open>One round of the loop of \<^verbatim>\<open>main\<close>. \<open>r\<close> and \<open>reply\<close> are what the second \<^verbatim>\<open>recvfrom\<close>, which does not
  wait, delivers on the client's socket.\<close>

definition multi_round :: "int \<Rightarrow> bool \<Rightarrow> int \<Rightarrow> int \<Rightarrow> u8 list \<Rightarrow> sockaddr_in \<Rightarrow> int \<Rightarrow> u8 list \<Rightarrow> proxy \<Rightarrow>
    (sent list \<times> proxy) option" where
  "multi_round now mem fd n data client_addr r reply p =
     (if n \<le> 0 then Some ([], p)
      else case xor_buffer data (nat n) (pr_key p) (pr_key_len p) of
        None \<Rightarrow> None
      | Some buf \<Rightarrow>
          (case get_client now mem fd client_addr p of
             (None, p) \<Rightarrow> Some ([], p)
           | (Some c, p) \<Rightarrow>
               (let out = [Sendto (cl_remote_fd c) buf (pr_remote_addr p)]
                in if r > 0
                   then (case xor_buffer reply (nat r) (pr_key p) (pr_key_len p) of
                           None \<Rightarrow> None
                         | Some buf \<Rightarrow> Some (out @ [Sendto (pr_local_fd p) buf (cl_addr c)], p))
                   else Some (out, p))))"

definition multi_main :: "int \<Rightarrow> (sockaddr_in \<Rightarrow> int) \<Rightarrow> string list \<Rightarrow> proxy main_result" where
  "multi_main local_fd bind argv =
     (case main_config argv of
        Exit r \<Rightarrow> Exit r
      | Undefined \<Rightarrow> Undefined
      | Serve (local_addr, remote_addr, key) \<Rightarrow>
          if local_fd < 0 then Exit 1
          else if bind local_addr < 0 then Exit 1
          else (case key of
                  None \<Rightarrow> Undefined
                | Some key \<Rightarrow>
                    Serve \<lparr>pr_local_fd = local_fd, pr_remote_addr = remote_addr, pr_key = key_array key,
                      pr_key_len = length key, pr_clients = []\<rparr>))"

section \<open>udp\_xor\_proxy\_multi\_cleanup.c\<close>

definition CLIENT_TIMEOUT :: int where "CLIENT_TIMEOUT = 60"

text \<open>One round of the cleanup thread after its sleep: the clients kept and the sockets closed.\<close>

fun cleanup_walk :: "int \<Rightarrow> client list \<Rightarrow> client list \<times> int list" where
  "cleanup_walk now [] = ([], [])"
| "cleanup_walk now (c # cs) =
     (let (kept, closed) = cleanup_walk now cs
      in if now - cl_last_seen c > CLIENT_TIMEOUT then (kept, cl_remote_fd c # closed)
         else (c # kept, closed))"

definition cleanup_thread :: "int \<Rightarrow> proxy \<Rightarrow> int list \<times> proxy" where
  "cleanup_thread now p =
     (let (kept, closed) = cleanup_walk now (pr_clients p) in (closed, p\<lparr>pr_clients := kept\<rparr>))"

text \<open>The second and third programs repeat functions of the first and of the second one word for word;
  these are the same functions.\<close>

definition multi_xor_buffer :: "u8 list \<Rightarrow> nat \<Rightarrow> u8 list \<Rightarrow> nat \<Rightarrow> u8 list option" where
  "multi_xor_buffer = xor_buffer"

definition multi_parse_hostport :: "string \<Rightarrow> bool \<Rightarrow> hostport" where
  "multi_parse_hostport = parse_hostport"

definition cleanup_xor_buffer :: "u8 list \<Rightarrow> nat \<Rightarrow> u8 list \<Rightarrow> nat \<Rightarrow> u8 list option" where
  "cleanup_xor_buffer = xor_buffer"

definition cleanup_parse_hostport :: "string \<Rightarrow> bool \<Rightarrow> hostport" where
  "cleanup_parse_hostport = parse_hostport"

definition cleanup_get_client :: "int \<Rightarrow> bool \<Rightarrow> int \<Rightarrow> sockaddr_in \<Rightarrow> proxy \<Rightarrow> client option \<times> proxy" where
  "cleanup_get_client = get_client"

definition cleanup_round :: "int \<Rightarrow> bool \<Rightarrow> int \<Rightarrow> int \<Rightarrow> u8 list \<Rightarrow> sockaddr_in \<Rightarrow> int \<Rightarrow> u8 list \<Rightarrow> proxy \<Rightarrow>
    (sent list \<times> proxy) option" where
  "cleanup_round = multi_round"

text \<open>\<^verbatim>\<open>main\<close> of the third program starts the cleanup thread as well, which first sleeps.\<close>

definition cleanup_main :: "int \<Rightarrow> (sockaddr_in \<Rightarrow> int) \<Rightarrow> string list \<Rightarrow> proxy main_result" where
  "cleanup_main = multi_main"

section \<open>Obfuscation is defined and undone by itself\<close>

lemma xor_loop_closed:
  "i + n \<le> length buf \<Longrightarrow> 0 < klen \<Longrightarrow> \<forall>j < n. (i + j) mod klen < length key \<Longrightarrow>
    xor_loop n i buf key klen =
      Some (take i buf @ map (\<lambda>j. buf ! j XOR key ! (j mod klen)) [i..<i + n] @ drop (i + n) buf)"
proof (induction n arbitrary: i buf)
  case 0
  then show ?case by simp
next
  case (Suc n)
  let ?b = "buf[i := (buf ! i) XOR (key ! (i mod klen))]"
  have "(i + 0) mod klen < length key" "\<forall>j < n. (Suc i + j) mod klen < length key"
    using Suc.prems(3) by force+
  then have "xor_loop (Suc n) i buf key klen =
      Some (take (Suc i) ?b @ map (\<lambda>j. ?b ! j XOR key ! (j mod klen)) [Suc i..<Suc i + n] @ drop (Suc i + n) ?b)"
    using Suc.prems by (simp add: Suc.IH)
  moreover have "take (Suc i) ?b = take i buf @ [buf ! i XOR key ! (i mod klen)]"
    using Suc.prems by (simp add: take_Suc_conv_app_nth)
  moreover have "map (\<lambda>j. ?b ! j XOR key ! (j mod klen)) [Suc i..<Suc i + n] =
      map (\<lambda>j. buf ! j XOR key ! (j mod klen)) [Suc i..<Suc i + n]"
    by (rule map_cong) (auto simp del: upt_Suc)
  moreover have "[i..<i + Suc n] = i # [Suc i..<Suc i + n]"
    by (simp add: upt_conv_Cons)
  ultimately show ?case by simp
qed

lemma xor_loop_undefined:
  "j < n \<Longrightarrow> klen = 0 \<or> (i + j) mod klen \<ge> length key \<Longrightarrow> xor_loop n i buf key klen = None"
proof (induction n arbitrary: i j buf)
  case (Suc n)
  show ?case
  proof (cases j)
    case 0
    with Suc.prems show ?thesis by auto
  next
    case (Suc j')
    with Suc.prems Suc.IH [of j' "Suc i"] show ?thesis by simp
  qed
qed simp

definition xor_key :: "u8 list \<Rightarrow> nat \<Rightarrow> u8 list \<Rightarrow> u8 list" where
  "xor_key key klen data = map (\<lambda>i. data ! i XOR key ! (i mod klen)) [0..<length data]"

lemma length_xor_key [simp]: "length (xor_key key klen data) = length data"
  by (simp add: xor_key_def)

lemma xor_key_twice: "xor_key key klen (xor_key key klen data) = data"
  by (rule nth_equalityI) (simp_all add: xor_key_def xor.assoc)

lemma xor_buffer_exact:
  "xor_buffer data (length data) key klen =
    (if data = [] then Some []
     else if klen = 0 \<or> length key < min klen (length data) then None
     else Some (xor_key key klen data))"
proof (cases "data = [] \<or> klen = 0")
  case True
  then show ?thesis
    using xor_loop_undefined [where j = 0 and i = 0 and n = "length data" and klen = klen] by (auto simp: xor_buffer_def)
next
  case False
  show ?thesis
  proof (cases "length key < min klen (length data)")
    case True
    with False show ?thesis
      using xor_loop_undefined [where j = "length key" and i = 0 and n = "length data" and klen = klen and key = key and buf = data] by (simp add: xor_buffer_def)
  next
    case short: False
    have "j mod klen < length key" if "j < length data" for j
    proof -
      have less: "j mod klen < min klen (length data)"
        using False le_less_trans [OF mod_less_eq_dividend [of j klen] that] by simp
      show ?thesis by (rule less_le_trans [OF less short [unfolded not_less]])
    qed
    with False short show ?thesis
      using xor_loop_closed [of 0 "length data" data klen key] by (simp add: xor_buffer_def xor_key_def)
  qed
qed

section \<open>Addresses in text\<close>

lemma dec_digits: "list_all is_digit (dec n) \<and> dec n \<noteq> []"
proof (induction n rule: dec.induct)
  case (1 n)
  have digit: "is_digit (char_of (48 + d :: nat))" if "d < 10" for d
    using that by (simp add: is_digit_def)
  show ?case
  proof (cases "n < 10")
    case True
    then show ?thesis by (simp add: dec.simps [of n] digit)
  next
    case False
    with 1 show ?thesis by (simp add: dec.simps [of n] digit)
  qed
qed

lemma atoi_dec: "atoi (dec n) = int n"
proof -
  obtain c r where c: "dec n = c # r" using dec_digits [of n] by (cases "dec n") auto
  have d: "is_digit c" "list_all is_digit (c # r)" using dec_digits [of n] c by auto
  then have nc: "\<not> is_space c" "c \<noteq> CHR ''-''" "c \<noteq> CHR ''+''"
    by (auto simp: is_digit_def is_space_def)
  have "takeWhile is_digit r = r"
    using d(2) by (intro takeWhile_eq_all_conv [THEN iffD2]) (simp add: list_all_iff)
  then have "dec_value (c # takeWhile is_digit r) = n"
    using dec_value_dec [of n] unfolding c by metis
  with nc show ?thesis
    by (simp add: atoi_def c d(1))
qed

lemma split_on_join: "d \<notin> set p \<Longrightarrow> split_on d (p @ d # r) = p # split_on d r"
  by (induction p) auto

lemma split_on_single: "d \<notin> set p \<Longrightarrow> split_on d p = [p]"
  by (induction p) auto

lemma dec_hd: "0 < n \<Longrightarrow> hd (dec n) \<noteq> CHR ''0''"
proof (induction n rule: dec.induct)
  case (1 n)
  show ?case
  proof (cases "n < 10")
    case True
    then have "(of_char (char_of (48 + n)) :: nat) \<noteq> of_char (CHR ''0'')" using 1 by simp
    then have "char_of (48 + n) \<noteq> CHR ''0''" by metis
    then show ?thesis using True by (simp add: dec.simps [of n])
  next
    case False
    then show ?thesis
      using 1 dec_digits [of "n div 10"] by (simp add: dec.simps [of n] hd_append)
  qed
qed

lemma octet_table: "n < 256 \<Longrightarrow> octet_ok (dec n)"
proof -
  assume n: "n < 256"
  have "length (dec n) \<le> 3"
    using n by (simp add: dec.simps [of n] dec.simps [of "n div 10"] dec.simps [of "n div 10 div 10"])
  moreover have "length (dec n) > 1 \<Longrightarrow> 0 < n"
    by (simp add: dec.simps [of n] split: if_splits)
  ultimately show ?thesis
    using n dec_digits [of n] dec_hd [of n] by (auto simp: octet_ok_def dec_value_dec)
qed

definition dotted :: "u8 \<Rightarrow> u8 \<Rightarrow> u8 \<Rightarrow> u8 \<Rightarrow> string" where
  "dotted a b c d = dec (unat a) @ CHR ''.'' # dec (unat b) @ CHR ''.'' # dec (unat c) @ CHR ''.'' # dec (unat d)"

lemma dec_no_char: "\<not> is_digit c \<Longrightarrow> c \<notin> set (dec n)"
  using dec_digits [of n] by (auto simp: list_all_iff)

lemma inet_pton_dotted: "inet_pton (dotted a b c d) = Some [a, b, c, d]"
proof -
  have nd: "CHR ''.'' \<notin> set (dec n)" for n
    by (rule dec_no_char) (simp add: is_digit_def)
  have "unat x < 256" for x :: u8
    using unsigned_less [of x] by simp
  then show ?thesis
    by (simp add: inet_pton_def dotted_def split_on_join split_on_single nd octet_table dec_value_dec Let_def)
qed

lemma parse_hostport_host:
  assumes "h \<noteq> []" and "length h < 64" and "CHR '':'' \<notin> set h"
  shows "parse_hostport (h @ CHR '':'' # t) is_remote = Hostport h (atoi t)"
proof -
  have "takeWhile (\<lambda>c. c \<noteq> CHR '':'') (h @ CHR '':'' # t) = h"
    using assms(3) by (subst takeWhile_append2) auto
  then show ?thesis
    using assms by (simp add: parse_hostport_def Let_def)
qed

section \<open>The table of clients\<close>

lemma addr_equal_eq: "addr_equal a b \<longleftrightarrow> a = b"
  by (cases a; cases b) (auto simp: addr_equal_def)

text \<open>The table with the sockets that are open: a datagram comes from a client, or the cleanup thread
  sweeps.\<close>

datatype table_op = Seen int bool int sockaddr_in | Sweep int

definition opens_socket :: "bool \<Rightarrow> int \<Rightarrow> sockaddr_in \<Rightarrow> proxy \<Rightarrow> bool" where
  "opens_socket mem fd a p \<longleftrightarrow> client_walk (pr_clients p) a 0 = None \<and> mem \<and> 0 \<le> fd"

fun table_step :: "table_op \<Rightarrow> proxy \<times> int set \<Rightarrow> proxy \<times> int set" where
  "table_step (Seen now mem fd a) (p, fds) =
     (snd (get_client now mem fd a p), if opens_socket mem fd a p then insert fd fds else fds)"
| "table_step (Sweep now) (p, fds) =
     (let (closed, p) = cleanup_thread now p in (p, fds - set closed))"

text \<open>\<^verbatim>\<open>socket\<close> never answers a descriptor that is open.\<close>

fun fresh_fds :: "table_op list \<Rightarrow> proxy \<times> int set \<Rightarrow> bool" where
  "fresh_fds [] x \<longleftrightarrow> True"
| "fresh_fds (e # es) x \<longleftrightarrow>
     (case e of Seen now mem fd a \<Rightarrow> fd \<notin> snd x | Sweep now \<Rightarrow> True) \<and> fresh_fds es (table_step e x)"

text \<open>The reference: the time at which each client was last seen.\<close>

fun seen_step :: "table_op \<Rightarrow> (sockaddr_in \<rightharpoonup> int) \<Rightarrow> sockaddr_in \<rightharpoonup> int" where
  "seen_step (Seen now mem fd a) m = (if m a \<noteq> None \<or> mem \<and> 0 \<le> fd then m(a \<mapsto> now) else m)"
| "seen_step (Sweep now) m = (\<lambda>a. case m a of None \<Rightarrow> None | Some t \<Rightarrow> if now - t > 60 then None else Some t)"

definition table_of :: "client list \<Rightarrow> sockaddr_in \<rightharpoonup> int" where
  "table_of cs = map_of (map (\<lambda>c. (cl_addr c, cl_last_seen c)) cs)"

definition table_ok :: "proxy \<times> int set \<Rightarrow> bool" where
  "table_ok x \<longleftrightarrow> distinct (map cl_addr (pr_clients (fst x))) \<and>
     distinct (map cl_remote_fd (pr_clients (fst x))) \<and> snd x = set (map cl_remote_fd (pr_clients (fst x)))"

lemma client_walk_None: "client_walk cs a now = None \<longleftrightarrow> a \<notin> cl_addr ` set cs"
  by (induction cs) (auto simp: addr_equal_eq Let_def split: option.splits)

lemma client_walk_Some:
  "client_walk cs a now = Some (c, ds) \<Longrightarrow>
    map cl_addr ds = map cl_addr cs \<and> map cl_remote_fd ds = map cl_remote_fd cs \<and> c \<in> set ds \<and>
    cl_addr c = a \<and> table_of ds = (table_of cs)(a \<mapsto> now)"
  by (induction cs arbitrary: ds)
    (auto simp: addr_equal_eq table_of_def fun_upd_twist Let_def split: option.splits if_splits)

lemma table_of_None: "table_of cs a = None \<longleftrightarrow> a \<notin> cl_addr ` set cs"
  by (simp add: table_of_def map_of_eq_None_iff image_image)

lemma cleanup_walk_filter:
  "cleanup_walk now cs = (filter (\<lambda>c. now - cl_last_seen c \<le> 60) cs,
     map cl_remote_fd (filter (\<lambda>c. now - cl_last_seen c > 60) cs))"
  by (induction cs) (auto simp: CLIENT_TIMEOUT_def)

lemma table_of_filter:
  "distinct (map cl_addr cs) \<Longrightarrow> table_of (filter (\<lambda>c. now - cl_last_seen c \<le> 60) cs) a =
    (case table_of cs a of None \<Rightarrow> None | Some t \<Rightarrow> if now - t > 60 then None else Some t)"
proof (induction cs)
  case (Cons c cs)
  have "table_of cs (cl_addr c) = None"
    using Cons.prems by (simp add: table_of_None)
  then have "table_of (filter (\<lambda>c. now - cl_last_seen c \<le> 60) cs) (cl_addr c) = None"
    by (auto simp: table_of_None)
  then show ?case
    using Cons by (auto simp: table_of_def)
qed (simp add: table_of_def)

lemma filter_fds:
  assumes "distinct (map cl_remote_fd cs)"
  shows "set (map cl_remote_fd cs) - set (map cl_remote_fd (filter (\<lambda>c. \<not> P c) cs)) =
    set (map cl_remote_fd (filter P cs))"
  using assms by (auto simp: distinct_map inj_on_def)

lemma table_step_ok:
  assumes ok: "table_ok x" and fresh: "case e of Seen now mem fd a \<Rightarrow> fd \<notin> snd x | Sweep now \<Rightarrow> True"
  shows "table_ok (table_step e x) \<and>
    table_of (pr_clients (fst (table_step e x))) = seen_step e (table_of (pr_clients (fst x)))"
proof (cases e)
  case (Seen now mem fd a)
  obtain p fds where x: "x = (p, fds)" by (cases x)
  show ?thesis
  proof (cases "client_walk (pr_clients p) a now")
    case None
    then have new: "a \<notin> cl_addr ` set (pr_clients p)" "client_walk (pr_clients p) a 0 = None"
      by (simp_all add: client_walk_None)
    then show ?thesis
      using ok fresh None table_of_None [of "pr_clients p" a]
      by (auto simp: Seen x get_client_def opens_socket_def table_ok_def table_of_def Let_def)
  next
    case (Some r)
    then obtain c ds where r: "client_walk (pr_clients p) a now = Some (c, ds)" by (cases r) auto
    note w = client_walk_Some [OF r]
    have "client_walk (pr_clients p) a now \<noteq> None" using r by simp
    then have old: "a \<in> cl_addr ` set (pr_clients p)" "client_walk (pr_clients p) a 0 \<noteq> None"
      by (simp_all add: client_walk_None)
    then have "table_of (pr_clients p) a \<noteq> None" by (simp add: table_of_None)
    moreover have no: "\<not> opens_socket mem fd a p" using old(2) by (simp add: opens_socket_def)
    moreover have "set (map cl_remote_fd ds) = set (map cl_remote_fd (pr_clients p))" using w by metis
    ultimately show ?thesis
      using ok w r no by (simp add: Seen x get_client_def table_ok_def)
  qed
next
  case (Sweep now)
  obtain p fds where x: "x = (p, fds)" by (cases x)
  have "fds - set (map cl_remote_fd (filter (\<lambda>c. now - cl_last_seen c > 60) (pr_clients p))) =
      set (map cl_remote_fd (filter (\<lambda>c. now - cl_last_seen c \<le> 60) (pr_clients p)))"
    using filter_fds [of "pr_clients p" "\<lambda>c. now - cl_last_seen c \<le> 60"] ok by (simp add: x table_ok_def not_le)
  then show ?thesis
    using ok table_of_filter [of "pr_clients p" now]
    by (auto simp: Sweep x cleanup_thread_def cleanup_walk_filter table_ok_def distinct_map_filter)
qed

lemma table_run_ok:
  "table_ok x \<Longrightarrow> fresh_fds es x \<Longrightarrow> table_ok (fold table_step es x) \<and>
    table_of (pr_clients (fst (fold table_step es x))) = fold seen_step es (table_of (pr_clients (fst x)))"
proof (induction es arbitrary: x)
  case (Cons e es)
  then show ?case using table_step_ok [of x e] by simp
qed simp

section \<open>The key in a started proxy\<close>

lemma length_key_array [simp]: "length (key_array k) = 256"
  by (simp add: key_array_def key_bytes_def)

lemma c_strlen_key_array: "c_strlen (key_array k) \<le> 256"
  using length_takeWhile_le [of "\<lambda>b. b \<noteq> 0" "key_array k"] by (simp add: c_strlen_def)

lemma proxy_main_key:
  assumes "proxy_main fds bind argv = Serve st"
  obtains k where "ps_key st = key_array k" "ps_key_len st = c_strlen (key_array k)"
  using assms by (auto simp: proxy_main_def split: main_result.splits if_splits option.splits)

lemma multi_main_key:
  assumes "multi_main fd bind argv = Serve p"
  obtains k where "pr_key p = key_array k" "pr_key_len p = length k" "pr_clients p = []"
  using assms by (auto simp: multi_main_def split: main_result.splits if_splits option.splits)

section \<open>Properties\<close>

text \<open>
  Property C20: a chain of two proxies with the same key is transparent. What a client sends to the first
  one leaves the second one unchanged, and what comes back through both reaches the client that sent
  last, unchanged.
\<close>

theorem udp_chain_transparent:
  assumes key: "ps_key a = ps_key b" "ps_key_len a = ps_key_len b" "0 < ps_key_len a"
      "ps_key_len a \<le> length (ps_key a)"
    and data: "data \<noteq> []" "reply \<noteq> []" and len: "0 < l"
  shows "\<exists>out a' b' back.
    local_to_remote_thread (int (length data)) data client l a =
      Some ([Sendto (ps_remote_fd a) out (ps_remote_addr a)], a') \<and>
    local_to_remote_thread (int (length out)) out first l b =
      Some ([Sendto (ps_remote_fd b) data (ps_remote_addr b)], b') \<and>
    remote_to_local_thread (int (length reply)) reply b' = Some ([Sendto (ps_local_fd b) back first], b') \<and>
    remote_to_local_thread (int (length back)) back a' = Some ([Sendto (ps_local_fd a) reply client], a')"
proof -
  let ?x = "xor_key (ps_key a) (ps_key_len a)"
  have x: "xor_buffer d (length d) (ps_key a) (ps_key_len a) = Some (?x d)" if "d \<noteq> []" for d
    using that key(3,4) by (simp add: xor_buffer_exact)
  have "?x data \<noteq> []" "?x reply \<noteq> []"
    using data by (metis length_0_conv length_xor_key)+
  with x [of "?x data"] x [of "?x reply"] x [OF data(1)] x [OF data(2)] data len key(1,2)
  show ?thesis
    by (simp add: local_to_remote_thread_def remote_to_local_thread_def xor_key_twice)
qed

theorem udp_chain_transparent_witness:
  defines "a \<equiv> \<lparr>ps_local_fd = 3, ps_remote_fd = 4, ps_remote_addr = make_addr ''10.0.0.1'' 4000,
      ps_client_addr = make_addr [] 0, ps_client_addr_len = 0, ps_key = key_array ''key'', ps_key_len = 3\<rparr>"
  shows "\<exists>out a'. local_to_remote_thread 2 [1, 2] (make_addr ''10.0.0.7'' 99) 16 a =
      Some ([Sendto 4 out (make_addr ''10.0.0.1'' 4000)], a')"
  using udp_chain_transparent [of a a "[1, 2]" "[3]" 16 "make_addr ''10.0.0.7'' 99" "make_addr [] 0"]
  by (auto simp: a_def)

text \<open>
  When obfuscation is undefined, exactly. In a proxy that has started, a datagram that is
  not empty divides by zero if the key is empty, which it is when the option \<^verbatim>\<open>-k\<close> is not given; the
  proxy for one client has no other case, whatever the length of the key; those for several clients read
  beyond the key array if both the key and the datagram are longer than the array.
\<close>

theorem udp_key_undefined:
  assumes "data \<noteq> []"
  shows "(proxy_main fds bind argv = Serve st \<longrightarrow>
      (xor_buffer data (length data) (ps_key st) (ps_key_len st) = None \<longleftrightarrow> ps_key_len st = 0)) \<and>
    (multi_main fd bind argv = Serve p \<longrightarrow>
      (xor_buffer data (length data) (pr_key p) (pr_key_len p) = None \<longleftrightarrow>
        pr_key_len p = 0 \<or> 256 < pr_key_len p \<and> 256 < length data))"
proof (intro conjI impI)
  assume "proxy_main fds bind argv = Serve st"
  then obtain k where k: "ps_key st = key_array k" "ps_key_len st = c_strlen (key_array k)"
    using proxy_main_key by blast
  then show "xor_buffer data (length data) (ps_key st) (ps_key_len st) = None \<longleftrightarrow> ps_key_len st = 0"
    using assms c_strlen_key_array [of k] by (auto simp: xor_buffer_exact)
next
  assume "multi_main fd bind argv = Serve p"
  then obtain k where k: "pr_key p = key_array k" "pr_key_len p = length k"
    using multi_main_key by blast
  then show "xor_buffer data (length data) (pr_key p) (pr_key_len p) = None \<longleftrightarrow>
      pr_key_len p = 0 \<or> 256 < pr_key_len p \<and> 256 < length data"
    using assms by (auto simp: xor_buffer_exact)
qed

theorem udp_key_undefined_witness:
  "\<exists>st. proxy_main (3, 4) (\<lambda>_. 0) [''-r'', ''4000''] = Serve st \<and>
     xor_buffer [7] 1 (ps_key st) (ps_key_len st) = None"
proof -
  obtain st where st: "proxy_main (3, 4) (\<lambda>_. 0) [''-r'', ''4000''] = Serve st" "ps_key_len st = 0"
    by (simp add: proxy_main_def main_config_def parse_hostport_def is_digit_def key_array_def key_bytes_def
        c_strlen_def)
  with udp_key_undefined [of "[7]" "(3, 4)" "\<lambda>_. 0" "[''-r'', ''4000'']" st] show ?thesis by simp
qed

text \<open>
  Property C10: the table of clients. From the start, after any sequence of datagrams and sweeps, every
  client is in the table once, has a socket of its own, and the sockets that are open are exactly those
  of the clients in the table, so none leaks and none is closed while in use; and the table says when each
  client was last seen, without those that a sweep found idle for more than 60 seconds.
\<close>

theorem udp_client_table:
  assumes "multi_main fd bind argv = Serve p" and "fresh_fds es (p, {})"
    and "fold table_step es (p, {}) = (p', fds)"
  shows "distinct (map cl_addr (pr_clients p')) \<and> distinct (map cl_remote_fd (pr_clients p')) \<and>
    fds = cl_remote_fd ` set (pr_clients p') \<and> table_of (pr_clients p') = fold seen_step es (\<lambda>_. None)"
proof -
  have "pr_clients p = []"
    using multi_main_key [OF assms(1)] by blast
  then show ?thesis
    using table_run_ok [of "(p, {})" es] assms(2,3) by (simp add: table_ok_def table_of_def)
qed

theorem udp_client_table_witness:
  "\<exists>p. multi_main 3 (\<lambda>_. 0) [''-r'', ''4000'', ''-k'', ''x''] = Serve p \<and>
     distinct (map cl_addr (pr_clients (fst (fold table_step
       [Seen 0 True 4 (make_addr ''10.0.0.7'' 99), Sweep 10, Seen 20 True 5 (make_addr ''10.0.0.8'' 99), Sweep 70] (p, {})))))"
proof -
  obtain p where p: "multi_main 3 (\<lambda>_. 0) [''-r'', ''4000'', ''-k'', ''x''] = Serve p" "pr_clients p = []"
    by (simp add: multi_main_def main_config_def parse_hostport_def is_digit_def)
  let ?es = "[Seen 0 True 4 (make_addr ''10.0.0.7'' 99), Sweep 10, Seen 20 True 5 (make_addr ''10.0.0.8'' 99), Sweep 70]"
  have "fresh_fds ?es (p, {})"
    using p(2) by (auto simp: get_client_def opens_socket_def cleanup_thread_def CLIENT_TIMEOUT_def Let_def
        split: option.splits prod.splits)
  from udp_client_table [OF p(1) this, of "fst (fold table_step ?es (p, {}))" "snd (fold table_step ?es (p, {}))"] p(1)
  show ?thesis by auto
qed

text \<open>
  Property C27: the addresses on the command line. A host and a port are read back as they were written,
  for a host of at most 63 characters, and so is an address in dotted notation; a number alone is a
  port; a host of 64 or more characters is written beyond its array; and a port after a colon without a
  host gives the empty host and so the address 0.0.0.0, also where 127.0.0.1 is the documented default.
\<close>

theorem udp_parse_hostport:
  assumes "CHR '':'' \<notin> set h" and "port < 65536"
  shows "(h \<noteq> [] \<and> length h < 64 \<longrightarrow> parse_hostport (h @ CHR '':'' # dec port) r = Hostport h (int port)) \<and>
    (64 \<le> length h \<longrightarrow> parse_hostport (h @ CHR '':'' # dec port) r = Host_overflow) \<and>
    parse_hostport (dec port) r = Hostport (if r then ''127.0.0.1'' else ''0.0.0.0'') (int port) \<and>
    parse_hostport (CHR '':'' # dec port) r = Hostport [] (int port) \<and>
    unat (sin_port (make_addr h (int port))) = port \<and>
    sin_addr (make_addr [] (int port)) = [0, 0, 0, 0] \<and>
    sin_addr (make_addr (dotted a b c d) (int port)) = [a, b, c, d]"
proof (intro conjI impI)
  show "parse_hostport (h @ CHR '':'' # dec port) r = Hostport h (int port)" if "h \<noteq> [] \<and> length h < 64"
    using parse_hostport_host [of h "dec port" r] that assms(1) by (simp add: atoi_dec)
  have "takeWhile (\<lambda>c. c \<noteq> CHR '':'') (h @ CHR '':'' # dec port) = h"
    using assms(1) by (subst takeWhile_append2) auto
  then show "parse_hostport (h @ CHR '':'' # dec port) r = Host_overflow" if "64 \<le> length h"
    using that by (simp add: parse_hostport_def Let_def)
  have "hd (dec port) \<in> set (dec port)"
    using dec_digits [of port] by (intro hd_in_set) simp
  then have "CHR '':'' \<notin> set (dec port)" "is_digit (hd (dec port))" "dec port \<noteq> []"
    using dec_digits [of port] by (auto simp: list_all_iff is_digit_def)
  then show "parse_hostport (dec port) r = Hostport (if r then ''127.0.0.1'' else ''0.0.0.0'') (int port)"
    by (simp add: parse_hostport_def atoi_dec)
  show "unat (sin_port (make_addr h (int port))) = port"
    using assms(2) by (simp add: make_addr_def unat_of_nat)
  show "sin_addr (make_addr [] (int port)) = [0, 0, 0, 0]"
    by (simp add: make_addr_def inet_pton_def)
qed (simp_all add: parse_hostport_def atoi_dec make_addr_def inet_pton_dotted)

theorem udp_parse_hostport_witness:
  "parse_hostport (''192.168.1.10'' @ CHR '':'' # dec 4000) True = Hostport ''192.168.1.10'' 4000"
  using udp_parse_hostport [of "''192.168.1.10''" 4000 True] by simp

end
