(* ===== verification/Simple_Pdrv.thy ===== *)
theory Simple_Pdrv
  imports Kernel_Trace
begin

text \<open>
  The drivers \<^verbatim>\<open>simple_pdrv.c\<close>, \<^verbatim>\<open>simple_pdrv_cdev.c\<close> and \<^verbatim>\<open>simple_pdrv_cdev_full.c\<close> of
  \<^verbatim>\<open>openwrt/kernel/gpt\<close>: a buffer of 128 characters that a sysfs attribute and a device node read and
  write. The first has a misc device and copies from user space itself, the other two have a character
  device and use the kernel's \<^verbatim>\<open>simple_read_from_buffer\<close> and \<^verbatim>\<open>simple_write_to_buffer\<close>, which are not
  part of the repository and so an argument, with their documented behaviour as the hypothesis
  \<open>libfs_ok\<close>.
\<close>

section \<open>Kernel functions on buffers\<close>

text \<open>The arguments of the first are the size asked for, the position, the buffer and how much of it is
  valid; of the second the buffer, its size, the position and the user's bytes. The results are the
  return value, the bytes transferred or the new buffer, and the new position.\<close>

record libfs =
  simple_read_from_buffer :: "nat \<Rightarrow> nat \<Rightarrow> u8 list \<Rightarrow> nat \<Rightarrow> int \<times> u8 list \<times> nat"
  simple_write_to_buffer :: "u8 list \<Rightarrow> nat \<Rightarrow> nat \<Rightarrow> u8 list \<Rightarrow> int \<times> u8 list \<times> nat"

definition libfs_ok :: "libfs \<Rightarrow> bool" where
  "libfs_ok L \<longleftrightarrow>
     (\<forall>count pos from available. available \<le> length from \<longrightarrow>
        simple_read_from_buffer L count pos from available =
          (if pos \<ge> available \<or> count = 0 then (0, [], pos)
           else let n = min count (available - pos) in (int n, take n (drop pos from), pos + n))) \<and>
     (\<forall>to available pos from. available \<le> length to \<longrightarrow>
        simple_write_to_buffer L to available pos from =
          (if pos \<ge> available \<or> from = [] then (0, to, pos)
           else let n = min (length from) (available - pos)
                in (int n, take pos to @ take n from @ drop (pos + n) to, pos + n)))"

text \<open>\<^verbatim>\<open>copy_from_user\<close>: \<open>from\<close> are the bytes that can be read, at most \<open>n\<close> of which are wanted. What cannot
  be read is filled with zeros, and the result is the number of bytes not copied.\<close>

definition copy_from_user :: "u8 list \<Rightarrow> u8 list \<Rightarrow> nat \<Rightarrow> nat \<times> u8 list" where
  "copy_from_user to from n =
     (n - min n (length from), take n (from @ replicate n 0) @ drop n to)"

section \<open>simple\_pdrv.c\<close>

record simple_priv =
  sp_buf :: "u8 list"
  sp_len :: nat

definition PAGE_SIZE :: nat where "PAGE_SIZE = 4096"

text \<open>\<^verbatim>\<open>scnprintf(buf, PAGE_SIZE, "%s\n", priv->buf)\<close>; \<open>None\<close> if no zero byte ends the string.\<close>

definition value_show :: "simple_priv \<Rightarrow> (int \<times> u8 list) option" where
  "value_show p =
     (if 0 \<in> set (sp_buf p)
      then (let out = take (PAGE_SIZE - 1) (takeWhile (\<lambda>b. b \<noteq> 0) (sp_buf p) @ [10])
            in Some (int (length out), out))
      else None)"

definition value_store :: "simple_priv \<Rightarrow> u8 list \<Rightarrow> int \<times> simple_priv" where
  "value_store p buf =
     (let p = p\<lparr>sp_len := min (length buf) (128 - 1)\<rparr>;
          p = p\<lparr>sp_buf := take (sp_len p) buf @ drop (sp_len p) (sp_buf p)\<rparr>;
          p = p\<lparr>sp_buf := (sp_buf p)[sp_len p := 0]\<rparr>
      in (int (length buf), p))"

definition simple_read :: "libfs \<Rightarrow> simple_priv \<Rightarrow> nat \<Rightarrow> nat \<Rightarrow> int \<times> u8 list \<times> nat" where
  "simple_read L p len off = simple_read_from_buffer L len off (sp_buf p) (sp_len p)"

text \<open>\<open>ubuf\<close>: what can be read at the user's address.\<close>

definition simple_write :: "simple_priv \<Rightarrow> u8 list \<Rightarrow> nat \<Rightarrow> int \<times> simple_priv" where
  "simple_write p ubuf len =
     (let len = min len (128 - 1);
          (left, buf) = copy_from_user (sp_buf p) ubuf len
      in if left \<noteq> 0 then (- EFAULT, p\<lparr>sp_buf := buf\<rparr>)
         else (int len, p\<lparr>sp_buf := buf[len := 0], sp_len := len\<rparr>))"

definition simple_probe :: "kenv \<Rightarrow> (int \<times> unit) kprog" where
  "simple_probe E = do {
     priv \<leftarrow> kdo E Devm_kzalloc;
     if priv \<noteq> 0 then State_Monad.return (- ENOMEM, ()) else do {
     ret \<leftarrow> kdo E Misc_register;
     if ret \<noteq> 0 then State_Monad.return (ret, ()) else do {
     ret \<leftarrow> kdo E (Device_create_file ''value'');
     if ret \<noteq> 0 then do {
       _ \<leftarrow> kseq E [Misc_deregister];
       State_Monad.return (ret, ()) }
     else State_Monad.return (0, ()) }}}"

definition simple_remove :: "kenv \<Rightarrow> unit \<Rightarrow> unit kprog" where
  "simple_remove E _ = kseq E [Device_remove_file ''value'', Misc_deregister]"

definition simple_init :: "kenv \<Rightarrow> (int \<times> unit) kprog" where
  "simple_init E = do {
     dev \<leftarrow> kdo E Platform_device_register;
     if dev \<noteq> 0 then State_Monad.return (dev, ()) else do {
     ret \<leftarrow> kdo E Platform_driver_register;
     if ret \<noteq> 0 then do {
       _ \<leftarrow> kseq E [Platform_device_unregister];
       State_Monad.return (ret, ()) }
     else State_Monad.return (0, ()) }}"

definition simple_exit :: "kenv \<Rightarrow> unit \<Rightarrow> unit kprog" where
  "simple_exit E _ = kseq E [Platform_driver_unregister, Platform_device_unregister]"

section \<open>simple\_pdrv\_cdev.c and simple\_pdrv\_cdev\_full.c\<close>

text \<open>The attribute, reading, module init and exit are word for word those of \<^verbatim>\<open>simple_pdrv.c\<close>.\<close>

definition cdev_value_show :: "simple_priv \<Rightarrow> (int \<times> u8 list) option" where
  "cdev_value_show = value_show"

definition cdev_value_store :: "simple_priv \<Rightarrow> u8 list \<Rightarrow> int \<times> simple_priv" where
  "cdev_value_store = value_store"

definition cdev_read :: "libfs \<Rightarrow> simple_priv \<Rightarrow> nat \<Rightarrow> nat \<Rightarrow> int \<times> u8 list \<times> nat" where
  "cdev_read = simple_read"

definition cdev_write :: "libfs \<Rightarrow> simple_priv \<Rightarrow> nat \<Rightarrow> u8 list \<Rightarrow> int \<times> simple_priv \<times> nat" where
  "cdev_write L p pos ubuf =
     (let (ret, buf, pos) = simple_write_to_buffer L (sp_buf p) (128 - 1) pos ubuf;
          p = p\<lparr>sp_buf := buf\<rparr>;
          p = (if ret \<ge> 0 then p\<lparr>sp_len := nat ret\<rparr> else p);
          p = p\<lparr>sp_buf := (sp_buf p)[sp_len p := 0]\<rparr>
      in (ret, p, pos))"

definition cdev_probe :: "kenv \<Rightarrow> (int \<times> unit) kprog" where
  "cdev_probe E = do {
     priv \<leftarrow> kdo E Devm_kzalloc;
     if priv \<noteq> 0 then State_Monad.return (- ENOMEM, ()) else do {
     ret \<leftarrow> kdo E Alloc_chrdev_region;
     if ret \<noteq> 0 then State_Monad.return (ret, ()) else do {
     ret \<leftarrow> kdo E Cdev_add;
     if ret \<noteq> 0 then do {
       _ \<leftarrow> kseq E [Unregister_chrdev_region];
       State_Monad.return (ret, ()) } else do {
     cls \<leftarrow> kdo E Class_create;
     if cls \<noteq> 0 then do {
       _ \<leftarrow> kseq E [Cdev_del, Unregister_chrdev_region];
       State_Monad.return (cls, ()) } else do {
     dev \<leftarrow> kdo E Device_create;
     if dev \<noteq> 0 then do {
       _ \<leftarrow> kseq E [Class_destroy, Cdev_del, Unregister_chrdev_region];
       State_Monad.return (dev, ()) } else do {
     _ \<leftarrow> kdo E (Device_create_file ''value'');
     State_Monad.return (0, ()) }}}}}}"

definition cdev_remove :: "kenv \<Rightarrow> unit \<Rightarrow> unit kprog" where
  "cdev_remove E _ = kseq E [Device_remove_file ''value'', Device_destroy, Class_destroy, Cdev_del,
     Unregister_chrdev_region]"

definition cdev_init :: "kenv \<Rightarrow> (int \<times> unit) kprog" where
  "cdev_init = simple_init"

definition cdev_exit :: "kenv \<Rightarrow> unit \<Rightarrow> unit kprog" where
  "cdev_exit = simple_exit"

text \<open>The full driver has the same functions on the buffer, but tests the result of
  \<^verbatim>\<open>device_create_file\<close> and cleans up with labels.\<close>

definition full_value_show :: "simple_priv \<Rightarrow> (int \<times> u8 list) option" where
  "full_value_show = value_show"

definition full_value_store :: "simple_priv \<Rightarrow> u8 list \<Rightarrow> int \<times> simple_priv" where
  "full_value_store = value_store"

definition full_read :: "libfs \<Rightarrow> simple_priv \<Rightarrow> nat \<Rightarrow> nat \<Rightarrow> int \<times> u8 list \<times> nat" where
  "full_read = simple_read"

definition full_write :: "libfs \<Rightarrow> simple_priv \<Rightarrow> nat \<Rightarrow> u8 list \<Rightarrow> int \<times> simple_priv \<times> nat" where
  "full_write = cdev_write"

definition full_probe :: "kenv \<Rightarrow> (int \<times> unit) kprog" where
  "full_probe E =
     (let err_unregister_chrdev = [Unregister_chrdev_region];
          err_cdev_del = Cdev_del # err_unregister_chrdev;
          err_class_destroy = Class_destroy # err_cdev_del;
          err_device_destroy = Device_destroy # err_class_destroy;
          goto = (\<lambda>label ret. do { _ \<leftarrow> kseq E label; State_Monad.return (ret, ()) })
      in do {
     priv \<leftarrow> kdo E Devm_kzalloc;
     if priv \<noteq> 0 then State_Monad.return (- ENOMEM, ()) else do {
     ret \<leftarrow> kdo E Alloc_chrdev_region;
     if ret \<noteq> 0 then State_Monad.return (ret, ()) else do {
     ret \<leftarrow> kdo E Cdev_add;
     if ret \<noteq> 0 then goto err_unregister_chrdev ret else do {
     cls \<leftarrow> kdo E Class_create;
     if cls \<noteq> 0 then goto err_cdev_del cls else do {
     dev \<leftarrow> kdo E Device_create;
     if dev \<noteq> 0 then goto err_class_destroy dev else do {
     ret \<leftarrow> kdo E (Device_create_file ''value'');
     if ret \<noteq> 0 then goto err_device_destroy ret
     else State_Monad.return (0, ()) }}}}}})"

definition full_remove :: "kenv \<Rightarrow> unit \<Rightarrow> unit kprog" where
  "full_remove E _ = kseq E [Device_remove_file ''value'', Device_destroy, Class_destroy, Cdev_del,
     Unregister_chrdev_region]"

definition full_init :: "kenv \<Rightarrow> (int \<times> unit) kprog" where
  "full_init = simple_init"

definition full_exit :: "kenv \<Rightarrow> unit \<Rightarrow> unit kprog" where
  "full_exit = simple_exit"

section \<open>Life cycles\<close>

interpretation spd: driver_lifecycle "\<lambda>_. True" simple_probe simple_remove
  by unfold_locales (auto simp: simple_probe_def simple_remove_def ENOMEM_def intro!: kspec_rules)

interpretation spd_mod: driver_lifecycle "\<lambda>_. True" simple_init simple_exit
  by unfold_locales (auto simp: simple_init_def simple_exit_def intro!: kspec_rules)

text \<open>The driver that ignores the result of \<^verbatim>\<open>device_create_file\<close> relies on its success.\<close>

definition value_created :: "kenv \<Rightarrow> bool" where
  "value_created E \<longleftrightarrow> (\<forall>tr. E tr (Device_create_file ''value'') = 0)"

interpretation spd_cdev: driver_lifecycle value_created cdev_probe cdev_remove
proof
  fix E H
  assume "value_created E"
  then have v: "kdo E (Device_create_file ''value'') = kans (Device_create_file ''value'') 0"
    by (intro kdo_known) (simp add: value_created_def)
  show "kspec H (cdev_probe E) (\<lambda>(ret, s) H'.
      if ret = 0 then kspec H' (cdev_remove E s) (\<lambda>_ H''. H'' = H) else H' = H)"
    by (auto simp: cdev_probe_def cdev_remove_def ENOMEM_def v intro!: kspec_rules)
qed

interpretation spd_full: driver_lifecycle "\<lambda>_. True" full_probe full_remove
  by unfold_locales (auto simp: full_probe_def full_remove_def ENOMEM_def Let_def intro!: kspec_rules)

section \<open>The buffer\<close>

text \<open>A device is well formed if the buffer has its size and a zero byte after the valid part.\<close>

definition simple_ok :: "simple_priv \<Rightarrow> bool" where
  "simple_ok p \<longleftrightarrow> length (sp_buf p) = 128 \<and> sp_len p \<le> 127 \<and> sp_buf p ! sp_len p = 0"

definition contents :: "simple_priv \<Rightarrow> u8 list" where
  "contents p = take (sp_len p) (sp_buf p)"

text \<open>A reader that asks for \<open>n\<close> bytes until end of file.\<close>

fun read_all :: "(nat \<Rightarrow> int \<times> u8 list \<times> nat) \<Rightarrow> nat \<Rightarrow> nat \<Rightarrow> u8 list option" where
  "read_all rd 0 off = None"
| "read_all rd (Suc fuel) off =
     (case rd off of (r, out, off') \<Rightarrow>
        if r < 0 then None else if r = 0 then Some []
        else map_option (\<lambda>rest. out @ rest) (read_all rd fuel off'))"

lemma read_all_contents:
  assumes L: "libfs_ok L" and ok: "simple_ok p" and n: "0 < n"
  shows "sp_len p - off < fuel \<Longrightarrow> read_all (\<lambda>off. simple_read L p n off) fuel off = Some (drop off (contents p))"
proof (induction fuel arbitrary: off)
  case (Suc fuel)
  have len: "sp_len p \<le> length (sp_buf p)" using ok by (simp add: simple_ok_def)
  show ?case
  proof (cases "sp_len p \<le> off")
    case True
    with L len show ?thesis by (simp add: simple_read_def libfs_ok_def contents_def)
  next
    case False
    let ?c = "min n (sp_len p - off)"
    have rd: "simple_read L p n off = (int ?c, take ?c (drop off (sp_buf p)), off + ?c)"
      using L len False n by (simp add: simple_read_def libfs_ok_def Let_def)
    have "read_all (\<lambda>off. simple_read L p n off) fuel (off + ?c) = Some (drop (off + ?c) (contents p))"
      using Suc.prems False n by (intro Suc.IH) auto
    moreover have "take ?c (drop off (sp_buf p)) = take ?c (drop off (contents p))"
      by (simp add: contents_def drop_take)
    moreover have "take ?c (drop off (contents p)) @ drop (off + ?c) (contents p) = drop off (contents p)"
      using append_take_drop_id [of ?c "drop off (contents p)"] by (simp add: add.commute)
    ultimately show ?thesis using False n rd by simp
  qed
qed simp

lemma value_show_contents:
  assumes "simple_ok p"
  shows "value_show p = Some (int (length (takeWhile (\<lambda>b. b \<noteq> 0) (contents p))) + 1,
    takeWhile (\<lambda>b. b \<noteq> 0) (contents p) @ [10])"
proof -
  have l: "sp_len p < length (sp_buf p)" "sp_buf p ! sp_len p = 0" "length (sp_buf p) = 128"
    using assms by (auto simp: simple_ok_def)
  then have split: "sp_buf p = contents p @ 0 # drop (Suc (sp_len p)) (sp_buf p)"
    by (metis contents_def id_take_nth_drop)
  then have "0 \<in> set (sp_buf p)" by (metis in_set_conv_decomp)
  moreover have "takeWhile (\<lambda>b. b \<noteq> 0) (sp_buf p) = takeWhile (\<lambda>b. b \<noteq> 0) (contents p)"
    by (subst split) (simp add: takeWhile_tail)
  moreover have "length (takeWhile (\<lambda>b. b \<noteq> 0) (contents p)) \<le> 127"
    using length_takeWhile_le [of "\<lambda>b. b \<noteq> 0" "contents p"] assms by (simp add: contents_def simple_ok_def)
  ultimately show ?thesis by (simp add: value_show_def PAGE_SIZE_def)
qed

lemma value_store_ok:
  assumes "simple_ok p" and "value_store p xs = (r, p')"
  shows "simple_ok p' \<and> contents p' = take 127 xs \<and> r = int (length xs)"
  using assms by (auto simp: value_store_def simple_ok_def contents_def Let_def min_def nth_append)

lemma simple_write_ok:
  assumes "simple_ok p" and "simple_write p xs (length xs) = (r, p')"
  shows "simple_ok p' \<and> contents p' = take 127 xs \<and> r = int (min (length xs) 127)"
  using assms by (auto simp: simple_write_def copy_from_user_def simple_ok_def contents_def Let_def min_def nth_append)

lemma cdev_write_ok:
  assumes "libfs_ok L" and "simple_ok p" and "cdev_write L p pos xs = (r, p', pos')"
  shows "simple_ok p' \<and> r = int (min (length xs) (127 - pos)) \<and> pos' = pos + nat r \<and>
    contents p' = take (nat r) (take pos (sp_buf p) @ xs)"
proof (cases "pos \<ge> 127 \<or> xs = []")
  case True
  with assms have "simple_write_to_buffer L (sp_buf p) 127 pos xs = (0, sp_buf p, pos)"
    by (auto simp: libfs_ok_def simple_ok_def)
  with assms True show ?thesis
    by (auto simp: cdev_write_def simple_ok_def contents_def Let_def)
next
  case False
  let ?n = "min (length xs) (127 - pos)"
  have w: "simple_write_to_buffer L (sp_buf p) 127 pos xs =
      (int ?n, take pos (sp_buf p) @ take ?n xs @ drop (pos + ?n) (sp_buf p), pos + ?n)"
    using assms(1,2) False by (auto simp: libfs_ok_def simple_ok_def Let_def)
  have "take ?n (take pos (sp_buf p) @ take ?n xs @ zs) = take ?n (take pos (sp_buf p) @ xs)" for zs
    using False assms(2) by (auto simp: simple_ok_def min_def)
  with assms False w show ?thesis
    by (auto simp: cdev_write_def simple_ok_def contents_def Let_def nth_list_update)
qed

section \<open>Properties\<close>

text \<open>
  Property C28: what is written is read. In the driver with the misc device, after a write to the device
  node or a store to the attribute of any bytes, a reader of the device node with chunks of any positive
  size gets the first 127 of these bytes and then end of file, and the attribute shows them up to the
  first zero byte, with a newline.
\<close>

theorem simple_pdrv_roundtrip:
  assumes "libfs_ok L" and "simple_ok p" and "0 < n"
    and "p' = snd (simple_write p xs (length xs)) \<or> p' = snd (value_store p xs)"
  shows "read_all (\<lambda>off. simple_read L p' n off) 128 0 = Some (take 127 xs) \<and>
    map_option snd (value_show p') = Some (takeWhile (\<lambda>b. b \<noteq> 0) (take 127 xs) @ [10])"
proof -
  have p': "simple_ok p' \<and> contents p' = take 127 xs"
    using assms(4) simple_write_ok [OF assms(2), of xs] value_store_ok [OF assms(2), of xs]
    by (metis prod.collapse)
  then have "sp_len p' - 0 < 128" by (simp add: simple_ok_def)
  from read_all_contents [OF assms(1) _ assms(3) this] p' value_show_contents [of p'] show ?thesis by simp
qed

definition libfs_doc :: libfs where
  "libfs_doc = \<lparr>simple_read_from_buffer = (\<lambda>count pos from available.
       if pos \<ge> available \<or> count = 0 then (0, [], pos)
       else let n = min count (available - pos) in (int n, take n (drop pos from), pos + n)),
     simple_write_to_buffer = (\<lambda>to available pos from.
       if pos \<ge> available \<or> from = [] then (0, to, pos)
       else let n = min (length from) (available - pos)
            in (int n, take pos to @ take n from @ drop (pos + n) to, pos + n))\<rparr>"

lemma libfs_doc_ok: "libfs_ok libfs_doc"
  by (simp add: libfs_ok_def libfs_doc_def)

theorem simple_pdrv_roundtrip_witness:
  "\<exists>p'. read_all (\<lambda>off. simple_read libfs_doc p' 2 off) 128 0 = Some [104, 105, 0, 33] \<and>
     map_option snd (value_show p') = Some [104, 105, 10]"
  using simple_pdrv_roundtrip [OF libfs_doc_ok, of "\<lparr>sp_buf = replicate 128 0, sp_len = 0\<rparr>" 2
      "snd (value_store \<lparr>sp_buf = replicate 128 0, sp_len = 0\<rparr> [104, 105, 0, 33])" "[104, 105, 0, 33]"]
  by (auto simp: simple_ok_def)

text \<open>
  Property C29: in the drivers with the character device a second write to an open file loses data. Each
  write returns the number of bytes that still fit in the 127, but the valid length becomes that number
  and not the end of what was written: after writing \<open>xs\<close> and then \<open>ys\<close> a reader gets only the first
  \<open>length ys\<close> bytes of both, and nothing at all if \<open>xs\<close> had filled the buffer.
\<close>

theorem cdev_second_write:
  assumes L: "libfs_ok L" and ok: "simple_ok p" and n: "0 < n" and len: "length xs \<le> 127"
    and w1: "cdev_write L p 0 xs = (r1, p1, pos1)" and w2: "cdev_write L p1 pos1 ys = (r2, p2, pos2)"
  shows "r1 = int (length xs) \<and> r2 = int (min (length ys) (127 - length xs)) \<and>
    read_all (\<lambda>off. simple_read L p1 n off) 128 0 = Some xs \<and>
    read_all (\<lambda>off. simple_read L p2 n off) 128 0 = Some (take (nat r2) (xs @ ys))"
proof -
  note 1 = cdev_write_ok [OF L ok w1]
  then have ok1: "simple_ok p1" and c1: "contents p1 = xs" "r1 = int (length xs)" "pos1 = length xs"
    using len by auto
  note 2 = cdev_write_ok [OF L ok1 w2]
  have tk: "take pos1 (sp_buf p1) = xs"
  proof -
    have "length (contents p1) = sp_len p1" using ok1 by (simp add: contents_def simple_ok_def)
    then have "sp_len p1 = pos1" using c1 by simp
    then show ?thesis using c1(1) by (simp add: contents_def)
  qed
  have "simple_ok p2" "contents p2 = take (nat r2) (xs @ ys)"
    using 2 unfolding tk by blast+
  moreover have "sp_len q - 0 < 128" if "simple_ok q" for q using that by (simp add: simple_ok_def)
  ultimately show ?thesis
    using read_all_contents [OF L ok1 n, of 0 128] read_all_contents [OF L _ n, of p2 0 128] ok1 c1(1,2) 2 c1(3)
    by (simp del: take_append)
qed

theorem cdev_second_write_witness:
  "\<exists>p2. read_all (\<lambda>off. simple_read libfs_doc p2 5 off) 128 0 = Some [1, 2]"
proof -
  let ?p = "\<lparr>sp_buf = replicate 128 0, sp_len = 0\<rparr>"
  obtain r1 p1 pos1 where 1: "cdev_write libfs_doc ?p 0 [1, 2, 3] = (r1, p1, pos1)"
    by (metis prod_cases3)
  obtain r2 p2 pos2 where 2: "cdev_write libfs_doc p1 pos1 [4, 5] = (r2, p2, pos2)"
    by (metis prod_cases3)
  from cdev_second_write [OF libfs_doc_ok _ _ _ 1 2, of 5] show ?thesis by (auto simp: simple_ok_def)
qed

end
