(* ===== verification/Simple_Races.thy ===== *)
theory Simple_Races
  imports Simple_Pdrv
begin

text \<open>
  The drivers with a buffer when their calls overlap. They have no lock: a call is a sequence of parts, and the parts of the
  calls that are under way interleave in any order. A part is a statement of the code. \<^verbatim>\<open>memcpy\<close> and the copies from user
  space are one part each.

  In \<^verbatim>\<open>value_store\<close> the length is read again from the shared structure by \<^verbatim>\<open>memcpy\<close>. The kernel passes the bytes in a
  buffer that is one byte longer than they are, with a zero at the end; what is read beyond it is \<open>junk\<close>, and
  \<open>sr_overread\<close> records that it happened.
\<close>

text \<open>The parts: \<^verbatim>\<open>priv->len = n\<close>; \<^verbatim>\<open>memcpy(priv->buf, buf, priv->len)\<close>; \<^verbatim>\<open>priv->buf[priv->len] = 0\<close>; \<^verbatim>\<open>copy_from_user(priv->buf, ubuf, len)\<close>, which
  ends the call if it fails; \<^verbatim>\<open>priv->buf[len] = 0\<close>; \<^verbatim>\<open>simple_write_to_buffer\<close>, which is followed by \<^verbatim>\<open>priv->len = ret\<close> unless it fails.\<close>

datatype sr_part =
    P_len nat
  | P_memcpy "u8 list"
  | P_end
  | P_copy "u8 list" nat
  | P_end_at nat
  | P_buffer nat "u8 list"

text \<open>The calls as their parts.\<close>

definition value_store_parts :: "u8 list \<Rightarrow> sr_part list" where
  "value_store_parts buf = [P_len (min (length buf) (128 - 1)), P_memcpy buf, P_end]"

definition simple_write_parts :: "u8 list \<Rightarrow> nat \<Rightarrow> sr_part list" where
  "simple_write_parts ubuf len = (let len = min len (128 - 1) in [P_copy ubuf len, P_end_at len, P_len len])"

definition cdev_write_parts :: "nat \<Rightarrow> u8 list \<Rightarrow> sr_part list" where
  "cdev_write_parts pos ubuf = [P_buffer pos ubuf, P_end]"

text \<open>What \<^verbatim>\<open>memcpy\<close> reads.\<close>

definition memcpy_source :: "(nat \<Rightarrow> u8) \<Rightarrow> u8 list \<Rightarrow> nat \<Rightarrow> u8 list" where
  "memcpy_source junk buf n = map (\<lambda>i. if i < length buf then buf ! i else if i = length buf then 0 else junk i) [0..<n]"

text \<open>One part: the structure, the parts still to do, and whether \<^verbatim>\<open>memcpy\<close> read beyond its source.\<close>

fun sr_part_step :: "libfs \<Rightarrow> (nat \<Rightarrow> u8) \<Rightarrow> sr_part \<Rightarrow> sr_part list \<Rightarrow> simple_priv \<Rightarrow> simple_priv \<times> sr_part list \<times> bool" where
  "sr_part_step L junk (P_len n) rest p = (p\<lparr>sp_len := n\<rparr>, rest, False)"
| "sr_part_step L junk (P_memcpy buf) rest p =
     (p\<lparr>sp_buf := memcpy_source junk buf (sp_len p) @ drop (sp_len p) (sp_buf p)\<rparr>, rest, sp_len p > length buf + 1)"
| "sr_part_step L junk P_end rest p = (p\<lparr>sp_buf := (sp_buf p)[sp_len p := 0]\<rparr>, rest, False)"
| "sr_part_step L junk (P_copy ubuf n) rest p =
     (case copy_from_user (sp_buf p) ubuf n of
        (left, buf) \<Rightarrow> (p\<lparr>sp_buf := buf\<rparr>, if left \<noteq> 0 then [] else rest, False))"
| "sr_part_step L junk (P_end_at n) rest p = (p\<lparr>sp_buf := (sp_buf p)[n := 0]\<rparr>, rest, False)"
| "sr_part_step L junk (P_buffer pos ubuf) rest p =
     (case simple_write_to_buffer L (sp_buf p) (128 - 1) pos ubuf of
        (ret, buf, _) \<Rightarrow> (p\<lparr>sp_buf := buf\<rparr>, if ret \<ge> 0 then P_len (nat ret) # rest else rest, False))"

text \<open>A call that nothing interrupts, with the number of parts it may take.\<close>

fun sr_call :: "libfs \<Rightarrow> (nat \<Rightarrow> u8) \<Rightarrow> nat \<Rightarrow> sr_part list \<Rightarrow> simple_priv \<Rightarrow> simple_priv \<times> bool" where
  "sr_call L junk 0 ps p = (p, False)"
| "sr_call L junk (Suc n) [] p = (p, False)"
| "sr_call L junk (Suc n) (a # ps) p =
     (case sr_part_step L junk a ps p of
        (p', ps', bad) \<Rightarrow> (case sr_call L junk n ps' p' of (p'', bad') \<Rightarrow> (p'', bad \<or> bad')))"








section \<open>A call on its own\<close>

lemma memcpy_source_exact: "n \<le> length buf \<Longrightarrow> memcpy_source junk buf n = take n buf"
  by (intro nth_equalityI) (auto simp: memcpy_source_def)

text \<open>The parts of a call one after the other are the call.\<close>

lemma parts_are_calls:
  "sr_call L junk 4 (value_store_parts buf) p = (snd (value_store p buf), False)"
  "sr_call L junk 4 (simple_write_parts ubuf len) p = (snd (simple_write p ubuf len), False)"
  "sr_call L junk 4 (cdev_write_parts pos ubuf) p = (fst (snd (cdev_write L p pos ubuf)), False)"
proof -
  show "sr_call L junk 4 (value_store_parts buf) p = (snd (value_store p buf), False)"
    by (simp add: value_store_parts_def value_store_def memcpy_source_exact numeral_eq_Suc Let_def)
  show "sr_call L junk 4 (simple_write_parts ubuf len) p = (snd (simple_write p ubuf len), False)"
    by (simp add: simple_write_parts_def simple_write_def numeral_eq_Suc Let_def split: prod.split)
  show "sr_call L junk 4 (cdev_write_parts pos ubuf) p = (fst (snd (cdev_write L p pos ubuf)), False)"
    by (simp add: cdev_write_parts_def cdev_write_def numeral_eq_Suc Let_def split: prod.split)
qed

section \<open>Any interleaving\<close>












section \<open>One call at a time\<close>

text \<open>What is left of a call reads only its own source and leaves the device well formed.\<close>

fun sr_finishes :: "libfs \<Rightarrow> (nat \<Rightarrow> u8) \<Rightarrow> nat \<Rightarrow> sr_part list \<Rightarrow> simple_priv \<Rightarrow> bool" where
  "sr_finishes L junk n [] p = simple_ok p"
| "sr_finishes L junk 0 (a # ps) p = False"
| "sr_finishes L junk (Suc n) (a # ps) p =
     (case sr_part_step L junk a ps p of (p', ps', bad) \<Rightarrow> \<not> bad \<and> sr_finishes L junk n ps' p')"

lemma finishes_nil [simp]: "sr_finishes L junk n [] p = simple_ok p"
  by (cases n) simp_all









section \<open>Two calls at once\<close>





section \<open>Properties\<close>



end
