(* ===== verification/Tty_Loopback.thy ===== *)
theory Tty_Loopback
  imports Kernel_Trace
begin

text \<open>
  The TTY drivers of \<^verbatim>\<open>openwrt/kernel/soft_uart\<close> without hardware: \<^verbatim>\<open>gpt/softuart_tty.c\<close> and
  \<^verbatim>\<open>gpt/tty_loopback.c\<close> echo at once, \<^verbatim>\<open>gpt/softuart_tty-main.c\<close> and \<^verbatim>\<open>softuart_tty/softuart_tty-main.c\<close>
  echo from a work item, \<^verbatim>\<open>gpt/mini_uart.c\<close> echoes a string and \<^verbatim>\<open>dummy_uart/dummy_uart-main.c\<close> drops what is
  written. The return value of \<^verbatim>\<open>tty_port_open\<close> and the like is an argument.
\<close>

section \<open>gpt/softuart\_tty.c\<close>

text \<open>\<open>ret\<close> is the answer of \<^verbatim>\<open>tty_standard_install\<close>; the flag says whether the port was attached.\<close>

definition suart_install :: "int \<Rightarrow> int \<times> bool" where
  "suart_install ret = (if ret \<noteq> 0 then (ret, False) else (0, True))"

definition suart_open :: "int \<Rightarrow> int" where
  "suart_open ret = ret"

definition suart_write :: "u8 list \<Rightarrow> int \<times> kact list" where
  "suart_write buf = (int (length buf), map Tty_flip_char buf @ [Tty_flip_push])"

definition suart_write_room :: nat where "suart_write_room = 4096"


text \<open>\<open>su\<close>: is the driver data set? The device node is removed through the class.\<close>

definition suart_remove :: "bool \<Rightarrow> kenv \<Rightarrow> unit kprog" where
  "suart_remove su E =
     (if \<not> su then State_Monad.return ()
      else kseq E [Device_destroy, Tty_unregister_driver, Put_tty_driver, Tty_port_destroy])"



section \<open>gpt/tty\_loopback.c\<close>

record loopback =
  lb_baud :: u32
  lb_cflag :: u32
  lb_counter :: u32

definition lb_open :: "int \<Rightarrow> int" where
  "lb_open ret = ret"

definition lb_write :: "bool \<Rightarrow> loopback \<Rightarrow> u8 list \<Rightarrow> int \<times> loopback \<times> kact list" where
  "lb_write initialized lb buf =
     (if \<not> initialized then (- EIO, lb, [])
      else (int (length buf), lb\<lparr>lb_counter := lb_counter lb + of_nat (length buf)\<rparr>,
            map Tty_flip_char buf @ [Tty_flip_push]))"

definition lb_write_room :: int where "lb_write_room = 4096"

definition lb_set_termios :: "u32 \<Rightarrow> u32 \<Rightarrow> loopback \<Rightarrow> loopback" where
  "lb_set_termios rate c_cflag lb =
     (let baud = rate;
          baud = (if baud = 0 then lb_baud lb else baud)
      in lb\<lparr>lb_baud := baud, lb_cflag := c_cflag\<rparr>)"





section \<open>gpt/mini\_uart.c\<close>

definition muart_open :: int where "muart_open = 0"

definition muart_write :: "u8 list \<Rightarrow> int \<times> kact list" where
  "muart_write buf = (int (length buf), map Tty_flip_char buf @ [Tty_flip_push])"





section \<open>softuart\_tty-main.c\<close>

text \<open>The buffer between write and the work item.\<close>

record suart_dev =
  rx_buf :: "u8 list"
  rx_len :: nat

definition suart_rx_work_fn :: "suart_dev \<Rightarrow> suart_dev \<times> kact list" where
  "suart_rx_work_fn su =
     (if rx_len su \<noteq> 0
      then (su\<lparr>rx_len := 0\<rparr>, map Tty_flip_char (take (rx_len su) (rx_buf su)) @ [Tty_flip_push])
      else (su, []))"

definition sm_open :: int where "sm_open = 0"

definition sm_write :: "suart_dev \<Rightarrow> u8 list \<Rightarrow> int \<times> suart_dev \<times> kact list" where
  "sm_write su buf =
     (let count = length buf
      in if count = 0 then (0, su, [])
         else (let count = (if count > 256 then 256 else count);
                   su = su\<lparr>rx_buf := take count buf @ drop count (rx_buf su), rx_len := count\<rparr>
               in (int count, su, [Schedule_work ''rx_work''])))"



text \<open>The version in \<^verbatim>\<open>softuart_tty\<close> has the same buffer and work item and registers a device.\<close>

definition st_rx_work_fn :: "suart_dev \<Rightarrow> suart_dev \<times> kact list" where
  "st_rx_work_fn = suart_rx_work_fn"

definition st_write :: "suart_dev \<Rightarrow> u8 list \<Rightarrow> int \<times> suart_dev \<times> kact list" where
  "st_write = sm_write"

definition st_read :: int where "st_read = 0"





section \<open>dummy\_uart-main.c\<close>

text \<open>The driver data is found through the port when it is not set, so opening always succeeds; the
  result is the return value and whether it was set by this call.\<close>

definition dummy_open :: "bool \<Rightarrow> int \<times> bool" where
  "dummy_open driver_data = (if \<not> driver_data then (0, True) else (0, False))"

definition dummy_write :: "u8 list \<Rightarrow> int" where
  "dummy_write buf = int (length buf)"






section \<open>Life cycles\<close>












section \<open>Properties\<close>


text \<open>
  The buffer of \<^verbatim>\<open>softuart_tty-main.c\<close> between write and the work item. The work item delivers the
  first 256 bytes of the last write that was not empty, in order, and then nothing until the next write;
  whatever an earlier write had put there is lost, although it returned its full count.
\<close>

theorem suart_last_write_wins:
  assumes buf: "length (rx_buf su) = 256" and w1: "sm_write su xs = (r1, su1, as1)"
    and w2: "sm_write su1 ys = (r2, su2, as2)" and ne: "ys \<noteq> []"
  shows "r1 = int (min (length xs) 256) \<and> r2 = int (min (length ys) 256) \<and> as2 = [Schedule_work ''rx_work''] \<and>
    snd (suart_rx_work_fn su2) = map Tty_flip_char (take 256 ys) @ [Tty_flip_push] \<and>
    snd (suart_rx_work_fn (fst (suart_rx_work_fn su2))) = []"
proof -
  have "length (rx_buf su1) = 256"
    using w1 buf by (auto simp: sm_write_def Let_def split: if_splits)
  then show ?thesis
    using w1 w2 ne by (auto simp: sm_write_def suart_rx_work_fn_def Let_def split: if_splits)
qed

theorem suart_last_write_wins_witness:
  "snd (suart_rx_work_fn (fst (snd (sm_write (fst (snd (sm_write \<lparr>rx_buf = replicate 256 0, rx_len = 0\<rparr> [1, 2, 3]))) [4]))))
     = [Tty_flip_char 4, Tty_flip_push]"
proof -
  let ?su = "\<lparr>rx_buf = replicate 256 0, rx_len = 0\<rparr>"
  obtain r1 su1 as1 where 1: "sm_write ?su [1, 2, 3] = (r1, su1, as1)" by (metis prod_cases3)
  obtain r2 su2 as2 where 2: "sm_write su1 [4] = (r2, su2, as2)" by (metis prod_cases3)
  from suart_last_write_wins [OF _ 1 2] show ?thesis by (simp add: 1 2)
qed

end
