(* ===== verification/Panel_Drivers.thy ===== *)
theory Panel_Drivers
  imports Kernel_Trace
begin

text \<open>
  The platform drivers \<^verbatim>\<open>linux/kernel/regulator/regulator-main.c\<close> and
  \<^verbatim>\<open>linux/kernel/gpioirq/gpioirq-main.c\<close>. What the device managed calls (\<^verbatim>\<open>devm\<close>) acquire is released by
  the driver core and not counted. A GPIO descriptor is the answer of the call that acquired it: 0 for a
  descriptor, a positive number for \<^verbatim>\<open>NULL\<close>, a negative one for an \<^verbatim>\<open>ERR_PTR\<close>.
\<close>

section \<open>regulator-main.c\<close>

record jdi_panel =
  enable_gpio :: int
  reset_gpio :: int
  dcdc_en_gpio :: int

definition NULL_GPIO :: int where "NULL_GPIO = 1"

text \<open>The result is the return value and the new value of the pointer.\<close>

definition dsi_gpio_acquire :: "kenv \<Rightarrow> int \<Rightarrow> string \<Rightarrow> (int \<times> int) kprog" where
  "dsi_gpio_acquire E pgp name =
     (if pgp \<le> 0 then State_Monad.return (0, pgp)
      else do {
        gp \<leftarrow> kdo E (Devm_gpiod_get_optional name);
        State_Monad.return (if gp < 0 then gp else 0, gp) })"

definition regulator_init :: "kenv \<Rightarrow> int kprog" where
  "regulator_init E = do {
     ret \<leftarrow> kdo E Devm_regulator_bulk_get;
     if ret < 0 then State_Monad.return ret else do {
     ret \<leftarrow> kdo E Regulator_bulk_enable;
     if ret < 0 then State_Monad.return ret else State_Monad.return ret }}"

text \<open>\<open>of_id\<close>: does the device match?\<close>

definition regulator_probe :: "bool \<Rightarrow> kenv \<Rightarrow> (int \<times> jdi_panel) kprog" where
  "regulator_probe of_id E =
     (let jdi = \<lparr>enable_gpio = NULL_GPIO, reset_gpio = NULL_GPIO, dcdc_en_gpio = NULL_GPIO\<rparr>
      in if \<not> of_id then State_Monad.return (- ENODEV, jdi) else do {
     m \<leftarrow> kdo E Devm_kzalloc;
     if m \<noteq> 0 then State_Monad.return (- ENOMEM, jdi) else do {
     ret \<leftarrow> regulator_init E;
     if ret < 0 then State_Monad.return (ret, jdi) else do {
     (ret, gp) \<leftarrow> dsi_gpio_acquire E (enable_gpio jdi) ''enable'';
     let jdi = jdi\<lparr>enable_gpio := gp\<rparr>;
     if ret \<noteq> 0 then State_Monad.return (ret, jdi) else do {
     (ret, gp) \<leftarrow> dsi_gpio_acquire E (reset_gpio jdi) ''reset'';
     let jdi = jdi\<lparr>reset_gpio := gp\<rparr>;
     if ret \<noteq> 0 then State_Monad.return (ret, jdi) else do {
     (ret, gp) \<leftarrow> dsi_gpio_acquire E (dcdc_en_gpio jdi) ''dcdc-en'';
     let jdi = jdi\<lparr>dcdc_en_gpio := gp\<rparr>;
     if ret \<noteq> 0 then State_Monad.return (ret, jdi) else do {
     _ \<leftarrow> kseq E [Gpiod_set_value ''reset'' 0, Gpiod_set_value ''dcdc-en'' 1];
     State_Monad.return (ret, jdi) }}}}}})"

definition regulator_remove :: "kenv \<Rightarrow> jdi_panel \<Rightarrow> unit kprog" where
  "regulator_remove E jdi = kseq E [Regulator_bulk_disable,
     Gpiod_set_value ''enable'' 0, Gpiod_set_value ''reset'' 1, Gpiod_set_value ''dcdc-en'' 0]"

text \<open>The result of \<^verbatim>\<open>platform_driver_register\<close> is ignored.\<close>

definition regulator_init_module :: "kenv \<Rightarrow> (int \<times> unit) kprog" where
  "regulator_init_module E = do {
     _ \<leftarrow> kdo E Platform_driver_register;
     State_Monad.return (0, ()) }"

definition regulator_exit_module :: "kenv \<Rightarrow> unit \<Rightarrow> unit kprog" where
  "regulator_exit_module E _ = kseq E [Platform_driver_unregister]"

section \<open>gpioirq-main.c\<close>

definition setup_irq :: "kenv \<Rightarrow> int kprog" where
  "setup_irq E = do {
     _ \<leftarrow> kdo E (Gpiod_to_irq ''irq'');
     irq \<leftarrow> kdo E Platform_get_irq;
     kdo E (Devm_request_irq irq) }"

definition dev_gpio_acquire :: "kenv \<Rightarrow> int \<Rightarrow> string \<Rightarrow> (int \<times> int) kprog" where
  "dev_gpio_acquire E pgp name =
     (if pgp \<le> 0 then State_Monad.return (0, pgp)
      else do {
        gp \<leftarrow> kdo E (Devm_gpiod_get_optional name);
        State_Monad.return (if gp < 0 then gp else 0, gp) })"

definition gpioirq_probe :: "bool \<Rightarrow> kenv \<Rightarrow> (int \<times> int) kprog" where
  "gpioirq_probe of_id E =
     (if \<not> of_id then State_Monad.return (- ENODEV, NULL_GPIO) else do {
     m \<leftarrow> kdo E Devm_kzalloc;
     if m \<noteq> 0 then State_Monad.return (- ENOMEM, NULL_GPIO) else do {
     (ret, gp) \<leftarrow> dev_gpio_acquire E NULL_GPIO ''irq'';
     if ret \<noteq> 0 then State_Monad.return (ret, gp) else do {
     ret \<leftarrow> setup_irq E;
     State_Monad.return (ret, gp) }}})"

definition gpioirq_remove :: "kenv \<Rightarrow> int \<Rightarrow> unit kprog" where
  "gpioirq_remove E _ = State_Monad.return ()"

definition gpioirq_init_module :: "kenv \<Rightarrow> (int \<times> unit) kprog" where
  "gpioirq_init_module E = do {
     _ \<leftarrow> kdo E Platform_driver_register;
     State_Monad.return (0, ()) }"

definition gpioirq_exit_module :: "kenv \<Rightarrow> unit \<Rightarrow> unit kprog" where
  "gpioirq_exit_module E _ = kseq E [Platform_driver_unregister]"

section \<open>Life cycles\<close>

text \<open>The documented answers: \<^verbatim>\<open>regulator_bulk_enable\<close> answers 0 or a negative errno.\<close>

definition enable_answers :: "kenv \<Rightarrow> bool" where
  "enable_answers E \<longleftrightarrow> (\<forall>tr. E tr Regulator_bulk_enable \<le> 0)"

lemma kspec_acquire:
  "(\<And>r. Q (if r < 0 then r else 0, r) H) \<Longrightarrow> Q (0, pgp) H \<Longrightarrow> kspec H (dsi_gpio_acquire E pgp name) Q"
  by (auto simp: dsi_gpio_acquire_def intro!: kspec_rules)

lemma kspec_regulator_init:
  assumes "enable_answers E" and "Q 0 (add_mset R_regulators H)" and "\<And>r. r < 0 \<Longrightarrow> Q r H"
  shows "kspec H (regulator_init E) Q"
proof -
  have b: "kspec H (kdo E Regulator_bulk_enable) Q"
    by (rule kspec_do_that [where P = "\<lambda>r. r \<le> 0"]) (use assms in \<open>auto simp: enable_answers_def\<close>)
  show ?thesis
    unfolding regulator_init_def
    by (rule kspec_bind, rule kspec_do) (auto intro: kspec_return b assms(3))
qed

lemma regulator_leaves:
  "leaves enable_answers (regulator_probe of_id) regulator_remove {{#}, {#R_regulators#}} {#}"
  by (rule leavesI)
    (auto simp: regulator_probe_def regulator_remove_def ENODEV_def ENOMEM_def Let_def
      intro!: kspec_rules kspec_acquire kspec_regulator_init)

lemma gpioirq_leaves: "leaves (\<lambda>_. True) (gpioirq_probe of_id) gpioirq_remove {{#}} {#}"
  by (rule leavesI)
    (auto simp: gpioirq_probe_def gpioirq_remove_def dev_gpio_acquire_def setup_irq_def NULL_GPIO_def
      ENODEV_def ENOMEM_def intro!: kspec_rules)

section \<open>Leftovers that do occur\<close>

lemma regulator_leak:
  "held (snd (run_state (regulator_probe True
     (\<lambda>tr c. if c = Devm_gpiod_get_optional ''reset'' then -1 else 0)) [])) = Some {#R_regulators#}"
  by (simp add: regulator_probe_def regulator_init_def dsi_gpio_acquire_def NULL_GPIO_def kdo_def
      State_Monad.bind_def State_Monad.return_def held_def Let_def)

text \<open>The modules ignore a failing registration.\<close>

lemma regulator_module_unregistered:
  "fst (run_state (regulator_init_module (\<lambda>_ _. -1)) []) = (0, ()) \<and>
   held (snd (run_state (regulator_exit_module (\<lambda>_ _. -1) ())
     (snd (run_state (regulator_init_module (\<lambda>_ _. -1)) [])))) = None"
  by (simp add: regulator_init_module_def regulator_exit_module_def kdo_def State_Monad.bind_def
      State_Monad.return_def held_def)

lemma gpioirq_module_unregistered:
  "fst (run_state (gpioirq_init_module (\<lambda>_ _. -1)) []) = (0, ()) \<and>
   held (snd (run_state (gpioirq_exit_module (\<lambda>_ _. -1) ())
     (snd (run_state (gpioirq_init_module (\<lambda>_ _. -1)) [])))) = None"
  by (simp add: gpioirq_init_module_def gpioirq_exit_module_def kdo_def State_Monad.bind_def
      State_Monad.return_def held_def)

end
