(* ===== verification/Test_Modules.thy ===== *)
theory Test_Modules
  imports Kernel_Trace
begin

text \<open>
  The kernel test modules: \<^verbatim>\<open>linux/kernel/dtmod\<close>, which reads a node of the device tree,
  \<^verbatim>\<open>linux/kernel/platform\<close>, \<^verbatim>\<open>linux/kernel/testmod\<close>, \<^verbatim>\<open>openwrt/kernel/kmod\<close> and
  \<^verbatim>\<open>openwrt/kernel/pdrv_sysfs\<close>. What they log at the level for information is kept as values where it depends on
  the device or the kernel; banners and traces are left out.
\<close>

section \<open>dtmod-main.c\<close>

text \<open>What the kernel finds in the node of the device: memory resources by name, with first and last address, strings and numbers.\<close>

record dt_node =
  resource_byname :: "string \<Rightarrow> (u64 \<times> u64) option"
  property_string :: "string \<Rightarrow> string option"
  property_u32 :: "string \<Rightarrow> u32 option"

datatype dt_info = No_resource string | Resource string u64 u64 | String_info "string option" | Unsigned_info u32

definition resource_size :: "u64 \<times> u64 \<Rightarrow> u64" where
  "resource_size r = snd r - fst r + 1"

definition resource_names :: "string list" where
  "resource_names = [''ohci'', ''config'', ''ehci'']"

definition get_named_resources :: "dt_node \<Rightarrow> dt_info list" where
  "get_named_resources pdev =
     map (\<lambda>name. case resource_byname pdev name of
                    None \<Rightarrow> No_resource name
                  | Some res \<Rightarrow> Resource name (fst res) (resource_size res)) resource_names"

definition get_strring :: "dt_node \<Rightarrow> dt_info" where
  "get_strring pdev =
     (let label = None;
          label = (case property_string pdev ''label'' of None \<Rightarrow> label | Some s \<Rightarrow> Some s)
      in String_info label)"

definition get_uint :: "dt_node \<Rightarrow> dt_info" where
  "get_uint pdev =
     (let foo = - 1;
          foo = (case property_u32 pdev ''foo'' of None \<Rightarrow> foo | Some v \<Rightarrow> v)
      in Unsigned_info foo)"

definition dtmod_probe :: "dt_node \<Rightarrow> int \<times> dt_info list" where
  "dtmod_probe pdev = (0, get_named_resources pdev @ [get_strring pdev] @ [get_uint pdev])"

definition dtmod_remove :: int where
  "dtmod_remove = 0"

text \<open>The result of \<^verbatim>\<open>platform_driver_register\<close> is ignored.\<close>

definition dtmod_init :: "kenv \<Rightarrow> (int \<times> unit) kprog" where
  "dtmod_init E = do {
     _ \<leftarrow> kdo E Platform_driver_register;
     State_Monad.return (0, ()) }"

definition dtmod_exit :: "kenv \<Rightarrow> unit \<Rightarrow> unit kprog" where
  "dtmod_exit E _ = kseq E [Platform_driver_unregister]"

section \<open>The other modules\<close>

text \<open>\<^verbatim>\<open>platform/testmod-main.c\<close>\<close>

definition platform_probe :: "kenv \<Rightarrow> (int \<times> unit) kprog" where
  "platform_probe E = State_Monad.return (0, ())"

definition platform_remove :: "kenv \<Rightarrow> unit \<Rightarrow> unit kprog" where
  "platform_remove E _ = State_Monad.return ()"

definition platform_init :: "kenv \<Rightarrow> (int \<times> unit) kprog" where
  "platform_init E = do {
     _ \<leftarrow> kdo E Platform_driver_register;
     State_Monad.return (0, ()) }"

definition platform_exit :: "kenv \<Rightarrow> unit \<Rightarrow> unit kprog" where
  "platform_exit E _ = kseq E [Platform_driver_unregister]"

text \<open>\<^verbatim>\<open>testmod/testmod-main.c\<close>: the constants of the page tables are those of the kernel it is built for.\<close>

record page_tables =
  PAGE_OFFSET :: u64
  PGDIR_SHIFT :: int
  PUD_SHIFT :: int
  PMD_SHIFT :: int
  PAGE_SHIFT :: int
  PTRS_PER_PGD :: int
  PTRS_PER_PUD :: int
  PTRS_PER_PMD :: int
  PTRS_PER_PTE :: int
  PAGE_MASK :: u64

definition get_pgtable_macro :: "page_tables \<Rightarrow> (string \<times> int) list" where
  "get_pgtable_macro P =
     [(''PAGE_OFFSET'', uint (PAGE_OFFSET P)), (''PGDIR_SHIFT'', PGDIR_SHIFT P), (''PUD_SHIFT'', PUD_SHIFT P),
      (''PMD_SHIFT'', PMD_SHIFT P), (''PAGE_SHIFT'', PAGE_SHIFT P), (''PTRS_PER_PGD'', PTRS_PER_PGD P),
      (''PTRS_PER_PUD'', PTRS_PER_PUD P), (''PTRS_PER_PMD'', PTRS_PER_PMD P), (''PTRS_PER_PTE'', PTRS_PER_PTE P),
      (''PAGE_MASK'', uint (PAGE_MASK P))]"

definition testmod_init :: "page_tables \<Rightarrow> int \<times> (string \<times> int) list" where
  "testmod_init P = (0, get_pgtable_macro P)"

text \<open>\<^verbatim>\<open>pdrv_sysfs_main.c\<close>; the kernel macro registers and unregisters the driver.\<close>

definition pdrv_sysfs_probe :: "kenv \<Rightarrow> (int \<times> unit) kprog" where
  "pdrv_sysfs_probe E = State_Monad.return (0, ())"

definition pdrv_sysfs_remove :: "kenv \<Rightarrow> unit \<Rightarrow> unit kprog" where
  "pdrv_sysfs_remove E _ = State_Monad.return ()"

section \<open>Life cycles\<close>

definition registers :: "kenv \<Rightarrow> bool" where
  "registers E \<longleftrightarrow> (\<forall>tr. E tr Platform_driver_register = 0)"

interpretation dt_mod: driver_lifecycle registers dtmod_init dtmod_exit
  by unfold_locales
    (auto simp: dtmod_init_def dtmod_exit_def registers_def kdo_known [where c = Platform_driver_register] intro!: kspec_rules)

interpretation platform_mod: driver_lifecycle registers platform_init platform_exit
  by unfold_locales
    (auto simp: platform_init_def platform_exit_def registers_def kdo_known [where c = Platform_driver_register] intro!: kspec_rules)

interpretation platform_dev: driver_lifecycle "\<lambda>_. True" platform_probe platform_remove
  by unfold_locales (auto simp: platform_probe_def platform_remove_def intro!: kspec_rules)

interpretation pdrv_sysfs: driver_lifecycle "\<lambda>_. True" pdrv_sysfs_probe pdrv_sysfs_remove
  by unfold_locales (auto simp: pdrv_sysfs_probe_def pdrv_sysfs_remove_def intro!: kspec_rules)

lemma test_modules_unregistered:
  "fst (run_state (dtmod_init (\<lambda>_ _. -1)) []) = (0, ()) \<and>
   held (snd (run_state (dtmod_exit (\<lambda>_ _. -1) ()) (snd (run_state (dtmod_init (\<lambda>_ _. -1)) [])))) = None \<and>
   fst (run_state (platform_init (\<lambda>_ _. -1)) []) = (0, ()) \<and>
   held (snd (run_state (platform_exit (\<lambda>_ _. -1) ()) (snd (run_state (platform_init (\<lambda>_ _. -1)) [])))) = None"
  by (simp add: dtmod_init_def dtmod_exit_def platform_init_def platform_exit_def kdo_def State_Monad.bind_def
      State_Monad.return_def held_def)

section \<open>The node of the repository\<close>

text \<open>A node as the kernel makes it from \<^verbatim>\<open>reg\<close>, \<^verbatim>\<open>reg-names\<close> and the other properties.\<close>

definition of_node :: "(u64 \<times> u64) list \<Rightarrow> string list \<Rightarrow> (string \<times> string) list \<Rightarrow> (string \<times> u32) list \<Rightarrow> dt_node" where
  "of_node reg names strings numbers =
     \<lparr>resource_byname = (\<lambda>n. map_option (\<lambda>(start, len). (start, start + len - 1)) (map_of (zip names reg) n)),
      property_string = map_of strings, property_u32 = map_of numbers\<rparr>"

text \<open>The node of \<^verbatim>\<open>dt/test.dts\<close>, and one without any property.\<close>

definition test_node :: dt_node where
  "test_node = of_node [(0x4a064000, 0x800), (0x4a064800, 0x200), (0x4a064c00, 0x200)] [''config'', ''ohci'', ''ehci'']
     [(''label'', ''NODE'')] [(''foo'', 3)]"

lemma resource_size_reg: "resource_size (start, start + len - 1) = len"
  by (simp add: resource_size_def)

lemma dtmod_reads_node:
  "dtmod_probe test_node =
     (0, [Resource ''ohci'' 0x4a064800 0x200, Resource ''config'' 0x4a064000 0x800, Resource ''ehci'' 0x4a064c00 0x200,
       String_info (Some ''NODE''), Unsigned_info 3])"
  "dtmod_probe (of_node [] [] [] []) =
     (0, [No_resource ''ohci'', No_resource ''config'', No_resource ''ehci'', String_info None, Unsigned_info 0xFFFFFFFF])"
  by (simp_all add: dtmod_probe_def test_node_def of_node_def get_named_resources_def resource_names_def get_strring_def
      get_uint_def resource_size_def Let_def)

end
