(* ===== verification/C_Macros.thy ===== *)
theory C_Macros
  imports Prelude "HOL-Library.Signed_Division"
begin

text \<open>
  The arithmetic macros of the repository's headers: \<^verbatim>\<open>c/macro.h\<close>, \<^verbatim>\<open>c/ceil_div.c\<close>,
  \<^verbatim>\<open>c/buffer_align.c\<close>, \<^verbatim>\<open>linux/kernel/slave-spi-driver/macro.h\<close> and \<^verbatim>\<open>imx8mm/hello_world/macro.h\<close>, which
  disagree on some of them, and the programs that only try them out. The operands are of type \<^verbatim>\<open>int\<close>: division truncates, and \<open>None\<close> is undefined
  behaviour, that is an intermediate result outside of the range of \<^verbatim>\<open>int\<close> or a division by zero. The
  masks are on unsigned types.
\<close>

section \<open>Arithmetic of int\<close>

definition int_ok :: "int \<Rightarrow> bool" where
  "int_ok x \<longleftrightarrow> - 2147483648 \<le> x \<and> x \<le> 2147483647"

definition chk :: "int \<Rightarrow> int option" where
  "chk x = (if int_ok x then Some x else None)"

definition c_add :: "int \<Rightarrow> int \<Rightarrow> int option" where "c_add a b = chk (a + b)"
definition c_sub :: "int \<Rightarrow> int \<Rightarrow> int option" where "c_sub a b = chk (a - b)"
definition c_mul :: "int \<Rightarrow> int \<Rightarrow> int option" where "c_mul a b = chk (a * b)"
definition c_div :: "int \<Rightarrow> int \<Rightarrow> int option" where "c_div a b = (if b = 0 then None else chk (a sdiv b))"
definition c_mod :: "int \<Rightarrow> int \<Rightarrow> int option" where
  "c_mod a b = (if b = 0 \<or> \<not> int_ok (a sdiv b) then None else Some (a smod b))"

section \<open>The macros\<close>

text \<open>\<^verbatim>\<open>(((a) + (b) - 1) / (b))\<close>\<close>

definition CEIL_DIV :: "int \<Rightarrow> int \<Rightarrow> int option" where
  "CEIL_DIV a b = Option.bind (c_add a b) (\<lambda>s. Option.bind (c_sub s 1) (\<lambda>d. c_div d b))"

text \<open>\<^verbatim>\<open>(((a)+(a)%(b))/(b))\<close>: \<^verbatim>\<open>MATH_DIV\<close> of \<^verbatim>\<open>c/macro.h\<close>, \<^verbatim>\<open>ROUND_DIV\<close> of \<^verbatim>\<open>c/ceil_div.c\<close> and, under the
  name \<^verbatim>\<open>CEIL_DIV\<close>, of the SPI driver.\<close>

definition MATH_DIV :: "int \<Rightarrow> int \<Rightarrow> int option" where
  "MATH_DIV a b = Option.bind (c_mod a b) (\<lambda>m. Option.bind (c_add a m) (\<lambda>s. c_div s b))"

definition ROUND_DIV :: "int \<Rightarrow> int \<Rightarrow> int option" where
  "ROUND_DIV a b = Option.bind (c_mod a b) (\<lambda>m. Option.bind (c_add a m) (\<lambda>s. c_div s b))"

definition spi_CEIL_DIV :: "int \<Rightarrow> int \<Rightarrow> int option" where
  "spi_CEIL_DIV a b = Option.bind (c_mod a b) (\<lambda>m. Option.bind (c_add a m) (\<lambda>s. c_div s b))"

text \<open>\<^verbatim>\<open>((A) / (B) + ((A) % (B) != 0))\<close>\<close>

definition imx_CEIL_DIV :: "int \<Rightarrow> int \<Rightarrow> int option" where
  "imx_CEIL_DIV a b = Option.bind (c_div a b) (\<lambda>q. Option.bind (c_mod a b) (\<lambda>m. c_add q (of_bool (m \<noteq> 0))))"

text \<open>\<^verbatim>\<open>((A) / (B) + ((A) % (B) >= ((B) + 1) / 2))\<close>\<close>

definition imx_ROUND_DIV :: "int \<Rightarrow> int \<Rightarrow> int option" where
  "imx_ROUND_DIV a b =
     Option.bind (c_div a b) (\<lambda>q. Option.bind (c_mod a b) (\<lambda>m. Option.bind (c_add b 1) (\<lambda>b1.
       Option.bind (c_div b1 2) (\<lambda>h. c_add q (of_bool (m \<ge> h))))))"

text \<open>\<^verbatim>\<open>((((n) < 0) == ((d) < 0)) ? (((n) + (d)/2)/(d)) : (((n) - (d)/2)/(d)))\<close>\<close>

definition DIV_ROUND_CLOSEST :: "int \<Rightarrow> int \<Rightarrow> int option" where
  "DIV_ROUND_CLOSEST n d =
     Option.bind (c_div d 2) (\<lambda>h.
       if (n < 0) = (d < 0) then Option.bind (c_add n h) (\<lambda>s. c_div s d)
       else Option.bind (c_sub n h) (\<lambda>s. c_div s d))"

text \<open>\<^verbatim>\<open>((x)<(Z)?(Z):(Z)*((x)/(Z)+((x)%(Z)?1:0)))\<close>\<close>

definition ALIGN_BUFFER_SIZE :: "int \<Rightarrow> int \<Rightarrow> int option" where
  "ALIGN_BUFFER_SIZE x Z =
     (if x < Z then Some Z
      else Option.bind (c_div x Z) (\<lambda>q. Option.bind (c_mod x Z) (\<lambda>m.
             Option.bind (c_add q (if m \<noteq> 0 then 1 else 0)) (\<lambda>k. c_mul Z k))))"

text \<open>\<^verbatim>\<open>((X > 0) - (X < 0))\<close>\<close>

definition SIGN :: "int \<Rightarrow> int" where
  "SIGN x = of_bool (x > 0) - of_bool (x < 0)"

text \<open>\<^verbatim>\<open>(( (x) + ((sz) - 1) )&-(sz))\<close> and \<^verbatim>\<open>(((x) + ((sz) - 1)) & ~((sz) - 1))\<close>, on an unsigned type.\<close>

definition ALIGN_OF :: "u32 \<Rightarrow> u32 \<Rightarrow> u32" where
  "ALIGN_OF x sz = (x + (sz - 1)) AND (- sz)"

definition imx_ALIGN_OF :: "u32 \<Rightarrow> u32 \<Rightarrow> u32" where
  "imx_ALIGN_OF x sz = (x + (sz - 1)) AND NOT (sz - 1)"

text \<open>The mask of the \<open>n\<close> lowest bits of a 32-bit type. The first version shifts by the width of the
  type if \<open>n = 0\<close>, which is undefined, and by a negative amount beyond it.\<close>

definition BIT_MASK_RIGHT :: "nat \<Rightarrow> u32 option" where
  "BIT_MASK_RIGHT n =
     (if n = 0 \<or> n > 32 then None
      else Some (- of_bool (n \<noteq> 0) AND drop_bit (32 - n) (- 1)))"

text \<open>The second version, for any unsigned type, and the mask of the whole type.\<close>

definition imx_BIT_MASK_RIGHT :: "nat \<Rightarrow> 'a::len word" where
  "imx_BIT_MASK_RIGHT n =
     (if n = 0 then 0 else if n \<ge> LENGTH('a) then - 1 else drop_bit (LENGTH('a) - n) (- 1))"

definition imx_BIT_MASK_UNSIGNED :: "'a::len word" where
  "imx_BIT_MASK_UNSIGNED = - 1"

text \<open>The other macros of \<^verbatim>\<open>imx8mm/hello_world/macro.h\<close>, on operands of type \<^verbatim>\<open>int\<close>.\<close>

definition imx_SIGN :: "int \<Rightarrow> int" where
  "imx_SIGN x = of_bool (x > 0) - of_bool (x < 0)"

definition imx_DIV_ROUND_UP :: "int \<Rightarrow> int \<Rightarrow> int option" where
  "imx_DIV_ROUND_UP = imx_CEIL_DIV"

definition imx_ALIGN_OF_int :: "int \<Rightarrow> int \<Rightarrow> int option" where
  "imx_ALIGN_OF_int x sz =
     Option.bind (c_sub sz 1) (\<lambda>m. Option.bind (c_add x m) (\<lambda>s. Some (s AND NOT m)))"

definition imx_ALIGN_SHORT :: "int \<Rightarrow> int option" where "imx_ALIGN_SHORT x = imx_ALIGN_OF_int x 2"
definition imx_ALIGN_DWORD :: "int \<Rightarrow> int option" where "imx_ALIGN_DWORD x = imx_ALIGN_OF_int x 4"

definition imx_ALIGN_BUFFER_SIZE :: "int \<Rightarrow> int \<Rightarrow> int option" where
  "imx_ALIGN_BUFFER_SIZE x Z =
     (if x < Z then Some Z
      else Option.bind (c_div x Z) (\<lambda>q. Option.bind (c_mod x Z) (\<lambda>m.
             Option.bind (c_add q (if m \<noteq> 0 then 1 else 0)) (\<lambda>k. c_mul Z k))))"

text \<open>\<^verbatim>\<open>(sizeof(a) / sizeof((a)[0]))\<close> for an array of \<open>n\<close> elements of \<open>sz\<close> bytes.\<close>

definition imx_ARRAY_SIZE :: "nat \<Rightarrow> nat \<Rightarrow> nat" where
  "imx_ARRAY_SIZE n sz = n * sz div sz"

section \<open>The programs that use them\<close>

text \<open>The assertions of \<^verbatim>\<open>test_macros\<close> after the two on literals in source text.\<close>

definition test_macros :: "bool list" where
  "test_macros =
     [imx_BIT_MASK_RIGHT 0 = (0 :: u8), imx_BIT_MASK_RIGHT 8 = (0xFF :: u32), imx_BIT_MASK_RIGHT 12 = (0xFFF :: u32),
      imx_BIT_MASK_RIGHT 32 = (0xFFFFFFFF :: u32), imx_BIT_MASK_UNSIGNED = (0xFF :: u8),
      imx_ARRAY_SIZE 5 4 = 5, imx_SIGN (-10) = -1, imx_SIGN 0 = 0, imx_SIGN 10 = 1,
      imx_CEIL_DIV 10 3 = Some 4, imx_DIV_ROUND_UP 10 3 = Some 4, imx_CEIL_DIV 12 3 = Some 4,
      imx_ROUND_DIV 10 3 = Some 3, imx_ROUND_DIV 8 3 = Some 3, imx_ROUND_DIV 7 3 = Some 2,
      imx_ALIGN_OF_int 10 4 = Some 12, imx_ALIGN_OF_int 12 4 = Some 12, imx_ALIGN_OF_int 13 4 = Some 16,
      imx_ALIGN_SHORT 3 = Some 4, imx_ALIGN_SHORT 4 = Some 4, imx_ALIGN_SHORT 5 = Some 6,
      imx_ALIGN_DWORD 5 = Some 8, imx_ALIGN_DWORD 8 = Some 8, imx_ALIGN_DWORD 9 = Some 12,
      imx_ALIGN_BUFFER_SIZE 10 8 = Some 16, imx_ALIGN_BUFFER_SIZE 16 8 = Some 16, imx_ALIGN_BUFFER_SIZE 1 8 = Some 8]"

text \<open>\<^verbatim>\<open>ceil_div.c\<close>: the operands, both quotients and whether the line is marked; the quotient of type
  \<^verbatim>\<open>float\<close> that is printed too is left out. \<^verbatim>\<open>buffer_align.c\<close>: the size, the aligned size and the rest.\<close>

definition ceil_div_pairs :: "(int \<times> int) list" where
  "ceil_div_pairs = [(0, 1), (8, 4), (9, 3), (10, 5), (17, 5), (55, 8), (60, 30), (77, 17), (99, 90), (9, 5), (9, 6),
     (9, 7), (90, 61)]"

definition ceil_div_main :: "(int \<times> int \<times> int option \<times> int option \<times> bool) list" where
  "ceil_div_main =
     map (\<lambda>(d, r). let l = CEIL_DIV d r; m = ROUND_DIV d r in (d, r, l, m, l \<noteq> m)) ceil_div_pairs"

definition MTD_PAGE_SZ :: int where "MTD_PAGE_SZ = 1056"

definition buffer_align_main :: "(int \<times> int option \<times> int option) list" where
  "buffer_align_main =
     map (\<lambda>sz. let sza = ALIGN_BUFFER_SIZE sz MTD_PAGE_SZ in (sz, sza, Option.bind sza (\<lambda>a. c_sub a sz)))
       [MTD_PAGE_SZ - 512, MTD_PAGE_SZ, MTD_PAGE_SZ + 16, MTD_PAGE_SZ * 2, MTD_PAGE_SZ * 2 + 256, MTD_PAGE_SZ * 4,
        MTD_PAGE_SZ * 7 + 15]"

section \<open>What they compute\<close>

text \<open>Division of a non-negative by a positive number is that of HOL.\<close>

lemma sdiv_nonneg: "0 \<le> a \<Longrightarrow> 0 < b \<Longrightarrow> a sdiv b = a div (b :: int)"
proof (cases "a = 0")
  case False
  assume "0 \<le> a" "0 < b"
  with False have "sgn a = 1" "sgn b = 1" by (simp_all add: sgn_if)
  with \<open>0 \<le> a\<close> \<open>0 < b\<close> show ?thesis by (simp add: signed_divide_int_def)
qed (simp add: signed_divide_int_def)

lemma smod_nonneg: "0 \<le> a \<Longrightarrow> 0 < b \<Longrightarrow> a smod b = a mod (b :: int)"
proof (cases "a = 0")
  case False
  assume "0 \<le> a" "0 < b"
  with False have "sgn a = 1" by (simp add: sgn_if)
  with \<open>0 \<le> a\<close> \<open>0 < b\<close> show ?thesis by (simp add: signed_modulo_int_def)
qed (simp add: signed_modulo_int_def)

lemma div_bounds: "0 \<le> a \<Longrightarrow> 0 < b \<Longrightarrow> 0 \<le> a div b \<and> a div b \<le> (a :: int)"
  using int_div_less_self [of a b] pos_imp_zdiv_nonneg_iff [of b a] by (cases "b = 1 \<or> a = 0") auto

lemma c_div_nonneg: "0 \<le> a \<Longrightarrow> 0 < b \<Longrightarrow> int_ok a \<Longrightarrow> c_div a b = Some (a div b)"
  using div_bounds [of a b] by (simp add: c_div_def chk_def int_ok_def sdiv_nonneg)

lemma c_mod_nonneg: "0 \<le> a \<Longrightarrow> 0 < b \<Longrightarrow> int_ok a \<Longrightarrow> c_mod a b = Some (a mod b)"
  using div_bounds [of a b] by (simp add: c_mod_def int_ok_def sdiv_nonneg smod_nonneg)

text \<open>The references: the quotient rounded up, and rounded to the nearest with halves up.\<close>

definition ceil_of :: "int \<Rightarrow> int \<Rightarrow> int" where
  "ceil_of a b = - ((- a) div b)"

definition round_of :: "int \<Rightarrow> int \<Rightarrow> int" where
  "round_of a b = (2 * a + b) div (2 * b)"

lemma div_two: "0 \<le> x \<Longrightarrow> x < 2 * b \<Longrightarrow> x div b = of_bool (b \<le> x)" for x b :: int
  by (cases "b \<le> x") (simp_all add: div_pos_geq div_pos_pos_trivial)

lemma half_le: "b \<le> r + b div 2 \<longleftrightarrow> b \<le> 2 * r" "(b + 1) div 2 \<le> r \<longleftrightarrow> b \<le> 2 * r" for b r :: int
  by presburger+

lemma quot_plus: "0 < b \<Longrightarrow> (a div b * b + x) div b = a div b + x div b" for a b x :: int
  by (simp add: div_add1_eq)

lemma round_of_eq: "0 < b \<Longrightarrow> round_of a b = a div b + of_bool (b \<le> 2 * (a mod b))"
proof -
  assume b: "0 < b"
  have "2 * a + b = a div b * (2 * b) + (2 * (a mod b) + b)"
  proof -
    have "a div b * (2 * b) = 2 * (a div b * b)" by simp
    then show ?thesis using div_mult_mod_eq [of a b] by linarith
  qed
  then have "round_of a b = a div b + (2 * (a mod b) + b) div (2 * b)"
    using b div_mult_self1 [of "2 * b" "2 * (a mod b) + b" "a div b"]
    by (simp only: round_of_def add.commute [of "a div b * (2 * b)"])
  also have "(2 * (a mod b) + b) div (2 * b) = of_bool (2 * b \<le> 2 * (a mod b) + b)"
    using b pos_mod_bound [OF b, of a] pos_mod_sign [OF b, of a] by (intro div_two) linarith+
  finally show ?thesis by simp
qed

lemma ceil_of_eq: "0 < b \<Longrightarrow> ceil_of a b = a div b + of_bool (a mod b \<noteq> 0)"
  by (simp add: ceil_of_def zdiv_zminus1_eq_if)

lemma ceil_of_sum: "0 < b \<Longrightarrow> (a + b - 1) div b = ceil_of a b"
proof -
  assume b: "0 < b"
  have "a + b - 1 = a div b * b + (a mod b + b - 1)"
    using div_mult_mod_eq [of a b] by simp
  then have "(a + b - 1) div b = a div b + (a mod b + b - 1) div b"
    using quot_plus [OF b] by metis
  also have "(a mod b + b - 1) div b = of_bool (b \<le> a mod b + b - 1)"
    using b pos_mod_bound [OF b, of a] pos_mod_sign [OF b, of a] by (intro div_two) linarith+
  also have "b \<le> a mod b + b - 1 \<longleftrightarrow> a mod b \<noteq> 0"
    using pos_mod_sign [OF b, of a] by linarith
  finally show ?thesis by (simp add: ceil_of_eq [OF b])
qed

lemma round_of_mod: "0 < b \<Longrightarrow> (a + a mod b) div b = round_of a b"
proof -
  assume b: "0 < b"
  have "a + a mod b = a div b * b + 2 * (a mod b)"
    using div_mult_mod_eq [of a b] by simp
  then have "(a + a mod b) div b = a div b + 2 * (a mod b) div b"
    using quot_plus [OF b] by metis
  also have "2 * (a mod b) div b = of_bool (b \<le> 2 * (a mod b))"
    using b pos_mod_bound [OF b, of a] by (intro div_two) auto
  finally show ?thesis by (simp add: round_of_eq [OF b])
qed

lemma round_of_half: "0 < b \<Longrightarrow> (a + b div 2) div b = round_of a b"
proof -
  assume b: "0 < b"
  have "a + b div 2 = a div b * b + (a mod b + b div 2)"
    using div_mult_mod_eq [of a b] by simp
  then have "(a + b div 2) div b = a div b + (a mod b + b div 2) div b"
    using quot_plus [OF b] by metis
  also have "(a mod b + b div 2) div b = of_bool (b \<le> a mod b + b div 2)"
    using b pos_mod_bound [OF b, of a] pos_mod_sign [OF b, of a] by (intro div_two) linarith+
  also have "b \<le> a mod b + b div 2 \<longleftrightarrow> b \<le> 2 * (a mod b)"
    by (rule half_le)
  finally show ?thesis by (simp add: round_of_eq [OF b])
qed

lemma ALIGN_OF_imx: "ALIGN_OF x sz = imx_ALIGN_OF x sz"
  by (simp add: ALIGN_OF_def imx_ALIGN_OF_def minus_eq_not_minus_1)

lemma drop_mask: "n \<le> 32 \<Longrightarrow> drop_bit (32 - n) (- 1) = (mask n :: u32)"
  by (rule bit_word_eqI) (auto simp: bit_drop_bit_eq bit_mask_iff)

section \<open>Properties\<close>

text \<open>
  Property C32: the division macros on non-negative operands. Both \<^verbatim>\<open>CEIL_DIV\<close> round up, the one of
  \<^verbatim>\<open>imx8mm\<close> for all operands and the other one unless the sum of the operands overflows. \<^verbatim>\<open>MATH_DIV\<close>, \<^verbatim>\<open>ROUND_DIV\<close>,
  both versions, and \<^verbatim>\<open>DIV_ROUND_CLOSEST\<close> all round to the nearest with halves up, each with its own
  condition for overflow. The macro that the SPI driver calls \<^verbatim>\<open>CEIL_DIV\<close>, documented as the smallest
  \<open>N\<close> with \<open>x \<le> y * N\<close>, rounds to the nearest.
\<close>

theorem division_macros:
  assumes a: "0 \<le> a" "a \<le> 2147483647" and b: "0 < b" "b \<le> 2147483647"
  shows "CEIL_DIV a b = (if a + b \<le> 2147483647 then Some (ceil_of a b) else None) \<and>
    imx_CEIL_DIV a b = Some (ceil_of a b) \<and>
    MATH_DIV a b = (if a + a mod b \<le> 2147483647 then Some (round_of a b) else None) \<and>
    ROUND_DIV a b = MATH_DIV a b \<and> spi_CEIL_DIV a b = MATH_DIV a b \<and>
    imx_ROUND_DIV a b = (if b < 2147483647 then Some (round_of a b) else None) \<and>
    DIV_ROUND_CLOSEST a b = (if a + b div 2 \<le> 2147483647 then Some (round_of a b) else None)"
proof -
  have ok: "int_ok a" "int_ok b" using a b by (auto simp: int_ok_def)
  have dm: "c_div a b = Some (a div b)" "c_mod a b = Some (a mod b)" "c_div b 2 = Some (b div 2)"
    using a b ok by (auto intro: c_div_nonneg c_mod_nonneg)
  have m: "0 \<le> a mod b" "a mod b < b" using b by auto
  have q: "0 \<le> a div b" "a div b \<le> a" using div_bounds [of a b] a b by auto
  have qs: "a div b + 1 \<le> 2147483647" if "a mod b \<noteq> 0"
  proof -
    have "b \<noteq> 1" using that by auto
    then have "a = 0 \<or> a div b < a" using int_div_less_self [of a b] a b by force
    with a that show ?thesis by auto
  qed
  have "CEIL_DIV a b = (if a + b \<le> 2147483647 then Some (ceil_of a b) else None)"
    using a b ceil_of_sum [OF b(1), of a] c_div_nonneg [of "a + b - 1" b]
    by (auto simp: CEIL_DIV_def c_add_def c_sub_def chk_def int_ok_def)
  moreover have "imx_CEIL_DIV a b = Some (ceil_of a b)"
    using q qs a by (auto simp: imx_CEIL_DIV_def dm c_add_def chk_def int_ok_def ceil_of_eq [OF b(1)])
  moreover have "MATH_DIV a b = (if a + a mod b \<le> 2147483647 then Some (round_of a b) else None)"
    using a b m round_of_mod [OF b(1), of a] c_div_nonneg [of "a + a mod b" b]
    by (auto simp: MATH_DIV_def dm c_add_def chk_def int_ok_def)
  moreover have "ROUND_DIV a b = MATH_DIV a b" "spi_CEIL_DIV a b = MATH_DIV a b"
    by (simp_all add: ROUND_DIV_def MATH_DIV_def spi_CEIL_DIV_def)
  moreover have "imx_ROUND_DIV a b = (if b < 2147483647 then Some (round_of a b) else None)"
  proof (cases "b < 2147483647")
    case True
    note half_le(2) [of b "a mod b"]
    moreover have "a div b + 1 \<le> 2147483647" if "b \<le> 2 * (a mod b)"
      using that qs b by (cases "a mod b = 0") auto
    ultimately show ?thesis
      using True b q a c_div_nonneg [of "b + 1" 2]
      by (auto simp: imx_ROUND_DIV_def dm c_add_def chk_def int_ok_def round_of_eq [OF b(1)])
  next
    case False
    with b show ?thesis by (simp add: imx_ROUND_DIV_def dm c_add_def chk_def int_ok_def)
  qed
  moreover have "DIV_ROUND_CLOSEST a b = (if a + b div 2 \<le> 2147483647 then Some (round_of a b) else None)"
    using a b round_of_half [OF b(1), of a] c_div_nonneg [of "a + b div 2" b] div_bounds [of b 2]
    by (auto simp: DIV_ROUND_CLOSEST_def dm c_add_def chk_def int_ok_def)
  ultimately show ?thesis by simp
qed

theorem division_macros_witness:
  "spi_CEIL_DIV 9 7 = Some 1 \<and> imx_CEIL_DIV 9 7 = Some 2 \<and> CEIL_DIV 9 7 = Some 2"
  using division_macros [of 9 7] by (simp add: ceil_of_def round_of_def)

text \<open>
  The alignment macros agree and round up to a multiple of a power of two; the masks agree where the
  first version is defined.
\<close>

lemma align_macros:
  assumes "k < 32" and "unat x + 2 ^ k - 1 < 2 ^ 32"
  shows "ALIGN_OF x (2 ^ k) = imx_ALIGN_OF x (2 ^ k)"
    and "unat (imx_ALIGN_OF x (2 ^ k)) = (unat x + 2 ^ k - 1) div 2 ^ k * 2 ^ k"
proof -
  show "ALIGN_OF x (2 ^ k) = imx_ALIGN_OF x (2 ^ k)" by (rule ALIGN_OF_imx)
  have m: "(2 :: u32) ^ k - 1 = mask k" by (simp add: mask_eq_exp_minus_1)
  have um: "unat (mask k :: u32) = 2 ^ k - 1"
  proof -
    have "(mask k :: nat) < 2 ^ k" by (simp add: mask_eq_exp_minus_1)
    also have "(2 :: nat) ^ k \<le> 2 ^ 32" using assms(1) by (intro power_increasing) simp_all
    finally have "unat (of_nat (mask k) :: u32) = mask k" by (simp add: unat_of_nat)
    then show ?thesis by (simp add: of_nat_mask_eq mask_eq_exp_minus_1)
  qed
  have sum: "unat (x + mask k) = unat x + 2 ^ k - 1"
    using assms(2) by (simp add: unat_word_ariths um)
  have "imx_ALIGN_OF x (2 ^ k) = push_bit k (drop_bit k (x + mask k))"
    by (rule bit_word_eqI)
      (auto simp: imx_ALIGN_OF_def m bit_simps)
  moreover have "unat (push_bit k (drop_bit k (x + mask k))) = take_bit 32 (push_bit k (drop_bit k (unat (x + mask k))))"
  proof -
    have "unat (x + mask k) < 2 ^ 32" using assms(2) by (simp only: sum)
    then have "take_bit 32 (unat (x + mask k)) = unat (x + mask k)" by (rule take_bit_nat_eq_self)
    then show ?thesis by (simp add: unsigned_push_bit_eq unsigned_drop_bit_eq)
  qed
  moreover have "(unat x + 2 ^ k - 1) div 2 ^ k * 2 ^ k < 2 ^ 32"
    using assms(2) by (intro le_less_trans [OF div_times_less_eq_dividend])
  ultimately show "unat (imx_ALIGN_OF x (2 ^ k)) = (unat x + 2 ^ k - 1) div 2 ^ k * 2 ^ k"
    by (simp only: sum push_bit_eq_mult drop_bit_eq_div take_bit_eq_mod mod_less)
qed

lemma mask_macros:
  "imx_BIT_MASK_RIGHT n = (mask (min n LENGTH('a)) :: 'a::len word)" "0 < n \<Longrightarrow> n \<le> 32 \<Longrightarrow> BIT_MASK_RIGHT n = Some (mask n)"
proof -
  have drop: "drop_bit (LENGTH('a) - n) (- 1) = (mask n :: 'a word)" if "n \<le> LENGTH('a)"
    using that by (intro bit_word_eqI) (auto simp: bit_drop_bit_eq bit_mask_iff)
  have all: "(mask LENGTH('a) :: 'a word) = - 1" by (rule bit_word_eqI) (simp add: bit_mask_iff)
  show "imx_BIT_MASK_RIGHT n = (mask (min n LENGTH('a)) :: 'a word)"
  proof (cases "n \<ge> LENGTH('a)")
    case True
    then have "0 < n" using len_gt_0 less_le_trans by blast
    with True all show ?thesis by (simp add: imx_BIT_MASK_RIGHT_def)
  qed (simp add: imx_BIT_MASK_RIGHT_def drop)
  show "0 < n \<Longrightarrow> n \<le> 32 \<Longrightarrow> BIT_MASK_RIGHT n = Some (mask n)"
    by (simp add: BIT_MASK_RIGHT_def drop_mask)
qed

text \<open>The smallest multiple that is not zero and not below the size.\<close>

lemma buffer_size:
  assumes x: "0 \<le> x" "x \<le> 2147483647" and Z: "0 < Z" "Z \<le> 2147483647"
  shows "ALIGN_BUFFER_SIZE x Z =
    (if Z * max 1 (ceil_of x Z) \<le> 2147483647 then Some (Z * max 1 (ceil_of x Z)) else None)"
proof (cases "x < Z")
  case True
  then have "ceil_of x Z \<le> 1" using x by (simp add: ceil_of_eq [OF Z(1)])
  with True Z show ?thesis by (simp add: ALIGN_BUFFER_SIZE_def max_def)
next
  case False
  have ok: "int_ok x" using x by (simp add: int_ok_def)
  have "x div Z * Z \<le> x" using Z(1) by (simp add: minus_mod_eq_div_mult [symmetric])
  have "x div Z \<ge> 1" using False Z(1) by (simp add: pos_imp_zdiv_pos_iff int_one_le_iff_zero_less)
  then have c: "max 1 (ceil_of x Z) = x div Z + of_bool (x mod Z \<noteq> 0)"
    by (simp add: ceil_of_eq [OF Z(1)])
  have "x div Z + 1 \<le> 2147483647" if "x mod Z \<noteq> 0"
  proof -
    have "Z \<noteq> 1" using that by auto
    then have "x div Z < x" using int_div_less_self [of x Z] False Z by force
    with x show ?thesis by linarith
  qed
  moreover have "- 2147483648 \<le> Z * (x div Z)" "- 2147483648 \<le> Z * (x div Z + 1)"
    using Z(1) \<open>x div Z \<ge> 1\<close> by (intro order_trans [OF _ mult_nonneg_nonneg]; simp)+
  ultimately show ?thesis
    using False \<open>x div Z \<ge> 1\<close> x Z div_bounds [OF x(1) Z(1)]
    unfolding c
    by (auto simp: ALIGN_BUFFER_SIZE_def c_div_nonneg [OF x(1) Z(1) ok] c_mod_nonneg [OF x(1) Z(1) ok] c_add_def c_mul_def
        chk_def int_ok_def)
qed

lemma test_macros_hold: "\<forall>b \<in> set test_macros. b"
  by code_simp

text \<open>
  Property C38: the sizes that \<^verbatim>\<open>ALIGN_BUFFER_SIZE\<close> gives are the smallest multiples of the unit that are not
  zero and not below the size, and it overflows exactly if that multiple does not fit. So \<^verbatim>\<open>buffer_align.c\<close>
  prints multiples of its page with a rest below a page; \<^verbatim>\<open>ceil_div.c\<close> marks exactly the quotients with a
  remainder below half of the divisor; and all assertions of \<^verbatim>\<open>test_macros\<close> hold.
\<close>

theorem buffer_sizes:
  assumes "0 \<le> x" "x \<le> 2147483647" and "0 < Z" "Z \<le> 2147483647"
  shows "(\<forall>s. ALIGN_BUFFER_SIZE x Z = Some s \<longrightarrow> Z dvd s \<and> Z \<le> s \<and> x \<le> s \<and> (s < x + Z \<or> s = Z)) \<and>
    (ALIGN_BUFFER_SIZE x Z = None \<longleftrightarrow> 2147483647 < Z * max 1 (ceil_of x Z)) \<and>
    imx_ALIGN_BUFFER_SIZE x Z = ALIGN_BUFFER_SIZE x Z \<and>
    (\<forall>(sz, sza, rest) \<in> set buffer_align_main. \<exists>s r. sza = Some s \<and> MTD_PAGE_SZ dvd s \<and> rest = Some r \<and> 0 \<le> r \<and> r < MTD_PAGE_SZ) \<and>
    (\<forall>(d, r, l, m, marked) \<in> set ceil_div_main. l \<noteq> None \<and> m \<noteq> None \<and> marked = (0 < d mod r \<and> 2 * (d mod r) < r)) \<and>
    (\<forall>b \<in> set test_macros. b)"
proof (intro conjI test_macros_hold)
  define q r where "q = x div Z" and "r = x mod Z"
  have div: "x = Z * q + r" and m: "0 \<le> r" "r < Z" "0 \<le> q" and c: "ceil_of x Z = q + of_bool (r \<noteq> 0)"
    using assms ceil_of_eq [OF assms(3), of x] by (simp_all add: q_def r_def pos_imp_zdiv_nonneg_iff)
  show "\<forall>s. ALIGN_BUFFER_SIZE x Z = Some s \<longrightarrow> Z dvd s \<and> Z \<le> s \<and> x \<le> s \<and> (s < x + Z \<or> s = Z)"
  proof (intro allI impI)
    fix s
    assume "ALIGN_BUFFER_SIZE x Z = Some s"
    then have s: "s = Z * max 1 (q + of_bool (r \<noteq> 0))" using buffer_size [OF assms] unfolding c by (metis option.distinct(1) option.inject)
    show "Z dvd s \<and> Z \<le> s \<and> x \<le> s \<and> (s < x + Z \<or> s = Z)"
    proof (cases "q = 0")
      case True
      with s div m show ?thesis by simp
    next
      case False
      then have "s = Z * q + (if r \<noteq> 0 then Z else 0)" and "Z * 1 \<le> Z * q"
        using s m assms(3) by (simp_all add: max_def algebra_simps)
      then show ?thesis using div m s by auto
    qed
  qed
  show "ALIGN_BUFFER_SIZE x Z = None \<longleftrightarrow> 2147483647 < Z * max 1 (ceil_of x Z)"
    using buffer_size [OF assms] by auto
  show "imx_ALIGN_BUFFER_SIZE x Z = ALIGN_BUFFER_SIZE x Z"
    by (simp add: imx_ALIGN_BUFFER_SIZE_def ALIGN_BUFFER_SIZE_def)
  have out: "buffer_align_main = [(544, Some 1056, Some 512), (1056, Some 1056, Some 0), (1072, Some 2112, Some 1040),
      (2112, Some 2112, Some 0), (2368, Some 3168, Some 800), (4224, Some 4224, Some 0), (7407, Some 8448, Some 1041)]"
    by code_simp
  show "\<forall>(sz, sza, rest) \<in> set buffer_align_main.
      \<exists>s r. sza = Some s \<and> MTD_PAGE_SZ dvd s \<and> rest = Some r \<and> 0 \<le> r \<and> r < MTD_PAGE_SZ"
    unfolding out MTD_PAGE_SZ_def by simp
  show "\<forall>(d, r, l, m, marked) \<in> set ceil_div_main. l \<noteq> None \<and> m \<noteq> None \<and> marked = (0 < d mod r \<and> 2 * (d mod r) < r)"
    by code_simp
qed

text \<open>A size that fills its page but for one byte, and one whose multiple does not fit.\<close>

theorem buffer_sizes_witness:
  "ALIGN_BUFFER_SIZE 1057 1056 = Some 2112 \<and> ALIGN_BUFFER_SIZE 2147483647 1056 = None \<and>
   imx_ALIGN_BUFFER_SIZE 1057 1056 = ALIGN_BUFFER_SIZE 1057 1056"
proof -
  have "ALIGN_BUFFER_SIZE 1057 1056 = Some 2112" by code_simp
  then show ?thesis
    using buffer_sizes [of 1057 1056] buffer_sizes [of 2147483647 1056] by (simp add: ceil_of_def)
qed

end
