(* ===== verification/Keys_Manager.thy ===== *)
theory Keys_Manager
  imports Prelude
begin

text \<open>
  The key input of \<^verbatim>\<open>qt/qkeywin/KeysManager.cpp\<close> and \<^verbatim>\<open>KeysManager.h\<close>: a keypad of nineteen keys that edits
  text in a widget, with several symbols on a key, or presses buttons. The Qt library is not part of the
  repository: what the class asks it is the record \<open>qt_env\<close>, and what the class makes it do, signals
  included, is a list of actions. A symbol is a Unicode code point.
\<close>

type_synonym widget = nat
type_synonym button = nat

record qt_env =
  is_spin :: "widget \<Rightarrow> bool"
  digits_property :: "widget \<Rightarrow> bool"
  focus_widget :: "widget option"
  enabled_visible :: "button \<Rightarrow> bool"
  to_lower :: "nat \<Rightarrow> nat"

datatype km_act =
    Emit_shift bool | Set_visible button bool | Set_label "nat list" | Set_focus widget
  | Set_read_only widget bool | Commit_string widget "nat list"
  | Connect button string | Disconnect button string
  | Emit_start_edit widget | Emit_edit_ok widget | Emit_edit_cancel widget | Emit_edit_done widget bool
  | Emit_key nat | Emit_on_key nat | Emit_release_key nat | Emit_on_release nat
  | Animate_click button | Step_up widget | Step_down widget
  | Kill_timer | Start_timer_ms nat

section \<open>Keys\<close>

definition KEY_9 :: nat where "KEY_9 = 9"
definition KEY_OK :: nat where "KEY_OK = 11"
definition KEY_K1 :: nat where "KEY_K1 = 12"
definition KEY_K2 :: nat where "KEY_K2 = 13"
definition KEY_K3 :: nat where "KEY_K3 = 14"
definition KEY_K4 :: nat where "KEY_K4 = 15"
definition KEY_K5 :: nat where "KEY_K5 = 16"
definition KEY_PTT :: nat where "KEY_PTT = 17"
definition KEY_CALL :: nat where "KEY_CALL = 18"
definition KEY_UNKNOWN :: nat where "KEY_UNKNOWN = 19"
definition KEY_MAX :: nat where "KEY_MAX = 20"

lemmas key_defs = KEY_9_def KEY_OK_def KEY_K1_def KEY_K2_def KEY_K3_def KEY_K4_def KEY_K5_def KEY_PTT_def
  KEY_CALL_def KEY_UNKNOWN_def KEY_MAX_def

text \<open>The tables of functions that emit the signals of the keys: on release only two keys have one, and those of the
  last entry emit nothing.\<close>

definition emitters :: "nat \<Rightarrow> km_act list" where
  "emitters key = (if key < KEY_UNKNOWN then [Emit_key key] else [])"

definition emitters_release :: "nat \<Rightarrow> km_act list option" where
  "emitters_release key =
     (if key = KEY_PTT \<or> key = KEY_CALL then Some [Emit_release_key key] else if key = KEY_UNKNOWN then Some [] else None)"

datatype qt_key =
    Key_Pause | Key_F1 | Key_F2 | Key_F3 | Key_F4 | Key_F5 | Key_F6 | Key_F7 | Key_F8 | Key_F9 | Key_F10
  | Key_F11 | Key_F12 | Key_Print | Key_ScrollLock | Key_Backspace | Key_Return | Key_PageUp | Key_PageDown
  | Key_zero | Key_other nat

definition KeyCodes :: "qt_key list" where
  "KeyCodes = [Key_Pause, Key_F6, Key_F7, Key_F8, Key_F9, Key_F10, Key_F11, Key_F12, Key_Print, Key_ScrollLock,
     Key_Backspace, Key_Return, Key_F1, Key_F2, Key_F3, Key_F4, Key_F5, Key_PageUp, Key_PageDown, Key_zero]"

text \<open>The map that the constructor fills, with the default of its lookups.\<close>

definition KeysCodeIdx :: "qt_key \<Rightarrow> nat" where
  "KeysCodeIdx k = (case map_of (zip KeyCodes [0..<KEY_MAX]) k of None \<Rightarrow> KEY_UNKNOWN | Some i \<Rightarrow> i)"

definition sSymbols :: "nat list list" where
  "sSymbols = [[48, 32], [49, 44, 33, 63], [50, 0x410, 0x411, 0x412, 0x413], [51, 0x414, 0x415, 0x416, 0x417],
     [52, 0x418, 0x419, 0x41A, 0x41B], [53, 0x41C, 0x41D, 0x41E, 0x41F], [54, 0x420, 0x421, 0x422, 0x423],
     [55, 0x424, 0x426, 0x425, 0x427], [56, 0x428, 0x429, 0x42A, 0x42B], [57, 0x42C, 0x42D, 0x42E, 0x42F],
     [45], [45]]"

section \<open>State\<close>

record edit_buttons =
  eb_ok :: "button option"
  eb_cancel :: "button option"
  eb_shift :: "button option"
  eb_up :: "button option"
  eb_down :: "button option"

definition no_buttons :: edit_buttons where
  "no_buttons = \<lparr>eb_ok = None, eb_cancel = None, eb_shift = None, eb_up = None, eb_down = None\<rparr>"

definition button_array :: "edit_buttons \<Rightarrow> button option list" where
  "button_array e = [eb_ok e, eb_cancel e, eb_shift e, eb_up e, eb_down e]"

text \<open>\<open>has_label\<close>: a label is set and still exists; \<open>timer_on\<close>: \<^verbatim>\<open>timerId\<close> is a running timer.\<close>

record keys_manager =
  keysPressed :: "bool list"
  has_label :: bool
  editor :: "widget option"
  flShift :: bool
  currentAlphaKey :: nat
  numAlphaSyms :: nat
  currentSym :: nat
  timer_on :: bool
  flDigits :: bool
  editButtons :: edit_buttons
  slaveButtons :: "nat \<rightharpoonup> button"

definition keys_manager_new :: keys_manager where
  "keys_manager_new = \<lparr>keysPressed = replicate KEY_MAX False, has_label = False, editor = None, flShift = False,
     currentAlphaKey = KEY_UNKNOWN, numAlphaSyms = 0, currentSym = 0, timer_on = False, flDigits = False,
     editButtons = no_buttons, slaveButtons = (\<lambda>_. None)\<rparr>"

section \<open>Buttons and slots\<close>

text \<open>An index of \<^verbatim>\<open>KEY_PTT\<close> or more fails an assertion.\<close>

definition setSlaveButton :: "nat \<Rightarrow> button option \<Rightarrow> keys_manager \<Rightarrow> keys_manager option" where
  "setSlaveButton idx btn s =
     (if idx < KEY_PTT then Some (s\<lparr>slaveButtons := (slaveButtons s)(idx := btn)\<rparr>) else None)"

definition on_button :: "button option \<Rightarrow> (button \<Rightarrow> km_act list) \<Rightarrow> km_act list" where
  "on_button b f = (case b of None \<Rightarrow> [] | Some b \<Rightarrow> f b)"

definition resetEditButtons :: "keys_manager \<Rightarrow> keys_manager \<times> km_act list" where
  "resetEditButtons s =
     (s\<lparr>editButtons := no_buttons\<rparr>,
      concat (map (\<lambda>b. on_button b (\<lambda>b. [Disconnect b ''all''])) (button_array (editButtons s))))"

definition setEditButtons :: "edit_buttons \<Rightarrow> keys_manager \<Rightarrow> keys_manager \<times> km_act list" where
  "setEditButtons e s =
     (let (s, as) = resetEditButtons s
      in (s\<lparr>editButtons := e\<rparr>,
          as @ on_button (eb_ok e) (\<lambda>b. [Connect b ''stopEditOK'']) @
          on_button (eb_cancel e) (\<lambda>b. [Connect b ''stopEditCancel'']) @
          on_button (eb_shift e) (\<lambda>b. [Connect b ''setShift'', Connect b ''onShift'']) @
          concat (map (\<lambda>b. on_button b (\<lambda>b. [Set_visible b False])) (button_array e))))"

definition setShift :: "bool \<Rightarrow> keys_manager \<Rightarrow> keys_manager \<times> km_act list" where
  "setShift fl s = (s\<lparr>flShift := fl\<rparr>, [Emit_shift fl])"

definition doToggleShift :: "keys_manager \<Rightarrow> keys_manager \<times> km_act list" where
  "doToggleShift s = (s\<lparr>flShift := \<not> flShift s\<rparr>, [Emit_shift (\<not> flShift s)])"

definition setLabel :: "bool \<Rightarrow> keys_manager \<Rightarrow> keys_manager" where
  "setLabel l s = s\<lparr>has_label := l\<rparr>"

definition isSpinBox :: "qt_env \<Rightarrow> keys_manager \<Rightarrow> bool" where
  "isSpinBox Q s = (case editor s of None \<Rightarrow> False | Some w \<Rightarrow> is_spin Q w)"

definition label_text :: "nat list \<Rightarrow> keys_manager \<Rightarrow> km_act list" where
  "label_text t s = (if has_label s then [Set_label t] else [])"

definition startEdit :: "qt_env \<Rightarrow> widget option \<Rightarrow> keys_manager \<Rightarrow> keys_manager \<times> km_act list" where
  "startEdit Q w s =
     (if editor s \<noteq> None then (s, [])
      else
        let foc = (case w of Some v \<Rightarrow> [Set_focus v] | None \<Rightarrow> []);
            w = (case w of Some v \<Rightarrow> Some v | None \<Rightarrow> focus_widget Q)
        in (case w of
              None \<Rightarrow> (s, foc)
            | Some w \<Rightarrow>
                let e = editButtons s;
                    show_ok = on_button (eb_ok e) (\<lambda>b. [Set_visible b True]) @
                              on_button (eb_cancel e) (\<lambda>b. [Set_visible b True]) @ [Set_read_only w False];
                    (s, shift) = setShift False s;
                    s = s\<lparr>flDigits := digits_property Q w\<rparr>;
                    s = s\<lparr>editor := Some w\<rparr>;
                    spb = is_spin Q w
                in (s, foc @ show_ok @ shift @ label_text [] s @
                      on_button (eb_shift e) (\<lambda>b. [Set_visible b (\<not> flDigits s)]) @
                      on_button (eb_up e) (\<lambda>b. Set_visible b spb # (if spb then [Connect b ''stepUp''] else [])) @
                      on_button (eb_down e) (\<lambda>b. Set_visible b spb # (if spb then [Connect b ''stepDown''] else [])) @
                      [Emit_start_edit w])))"

definition stopEdit :: "qt_env \<Rightarrow> bool \<Rightarrow> keys_manager \<Rightarrow> keys_manager \<times> km_act list" where
  "stopEdit Q ok s =
     (let (s, shift) = setShift False s;
          e = editButtons s;
          hide = on_button (eb_ok e) (\<lambda>b. [Set_visible b False]) @
                 on_button (eb_cancel e) (\<lambda>b. [Set_visible b False]) @
                 on_button (eb_shift e) (\<lambda>b. [Set_visible b False])
      in (case editor s of
            None \<Rightarrow> (s, shift @ hide)
          | Some w \<Rightarrow>
              (s\<lparr>editor := None\<rparr>,
               shift @ hide @
               (if is_spin Q w
                then on_button (eb_up e) (\<lambda>b. [Set_visible b False, Disconnect b ''stepUp'']) @
                     on_button (eb_down e) (\<lambda>b. [Set_visible b False, Disconnect b ''stepDown''])
                else []) @
               [if ok then Emit_edit_ok w else Emit_edit_cancel w, Emit_edit_done w ok, Set_read_only w True])))"

definition stopEditOK :: "qt_env \<Rightarrow> keys_manager \<Rightarrow> keys_manager \<times> km_act list" where
  "stopEditOK Q s = stopEdit Q True s"

definition stopEditCancel :: "qt_env \<Rightarrow> keys_manager \<Rightarrow> keys_manager \<times> km_act list" where
  "stopEditCancel Q s = stopEdit Q False s"

section \<open>Key events\<close>

definition processAlphaKey :: "qt_env \<Rightarrow> nat \<Rightarrow> widget \<Rightarrow> keys_manager \<Rightarrow> keys_manager \<times> km_act list" where
  "processAlphaKey Q key w s =
     (let syms = sSymbols ! key
      in if flDigits s
         then (s\<lparr>currentAlphaKey := KEY_UNKNOWN\<rparr>, Commit_string w [syms ! 0] # label_text [] s)
         else
           let s = (if key \<noteq> currentAlphaKey s
                    then s\<lparr>numAlphaSyms := length syms, currentSym := 0, currentAlphaKey := key\<rparr>
                    else s\<lparr>currentSym := (if currentSym s + 1 \<ge> numAlphaSyms s then 0 else currentSym s + 1)\<rparr>);
               t = chars ''['' @ take (currentSym s) syms @ chars ''<b>'' @ [syms ! currentSym s] @ chars ''</b>'' @
                   drop (length syms - (numAlphaSyms s - currentSym s - 1)) syms @ chars '']''
           in (s, label_text (if \<not> flShift s then map (to_lower Q) t else t) s))"

definition processKeyPress :: "qt_env \<Rightarrow> nat \<Rightarrow> bool \<Rightarrow> keys_manager \<Rightarrow> keys_manager \<times> km_act list" where
  "processKeyPress Q key autorepeat s =
     (let s = s\<lparr>timer_on := True\<rparr>;
          timer = [Kill_timer, Start_timer_ms 1000];
          s = s\<lparr>keysPressed := (keysPressed s)[key := True]\<rparr>;
          (s, as) =
            (case editor s of
               Some w \<Rightarrow>
                 if key \<le> KEY_K5
                 then (if key \<le> KEY_OK then processAlphaKey Q key w s
                       else if autorepeat then (s, [])
                       else if key = KEY_K1 then stopEdit Q True s
                       else if key = KEY_K2 then stopEdit Q False s
                       else if key = KEY_K3 then
                         (let (s, as) = (if \<not> flDigits s then doToggleShift s else (s, []))
                          in (s, as @ (if is_spin Q w then [Step_down w] else [])))
                       else if key = KEY_K4 then (s, if is_spin Q w then [Step_up w] else [])
                       else (s, []))
                 else if autorepeat then (s, [])
                 else (s, case slaveButtons s key of
                            Some b \<Rightarrow> if enabled_visible Q b then [Animate_click b] else emitters key @ [Emit_on_key key]
                          | None \<Rightarrow> emitters key @ [Emit_on_key key])
             | None \<Rightarrow>
                 if autorepeat then (s, [])
                 else (s, case slaveButtons s key of
                            Some b \<Rightarrow> if enabled_visible Q b then [Animate_click b] else emitters key @ [Emit_on_key key]
                          | None \<Rightarrow> emitters key @ [Emit_on_key key]))
      in (s, timer @ as))"

definition processKeyRelease :: "nat \<Rightarrow> bool \<Rightarrow> keys_manager \<Rightarrow> keys_manager \<times> km_act list" where
  "processKeyRelease key autorepeat s =
     (if autorepeat then (s, [])
      else
        let s = s\<lparr>keysPressed := (keysPressed s)[key := False]\<rparr>
        in if editor s \<noteq> None \<and> key < KEY_K1 then (s, [])
           else (s, (case emitters_release key of None \<Rightarrow> [] | Some as \<Rightarrow> as) @ [Emit_on_release key]))"

definition processKeyEvent :: "qt_env \<Rightarrow> bool \<Rightarrow> qt_key \<Rightarrow> bool \<Rightarrow> keys_manager \<Rightarrow> keys_manager \<times> km_act list" where
  "processKeyEvent Q press code autorepeat s =
     (let key = KeysCodeIdx code
      in if key < KEY_UNKNOWN
         then (if press then processKeyPress Q key autorepeat s else processKeyRelease key autorepeat s)
         else (s, []))"

datatype qt_event = Key_press qt_key bool | Key_release qt_key bool | Other_event

definition eventFilter :: "qt_env \<Rightarrow> qt_event \<Rightarrow> keys_manager \<Rightarrow> keys_manager \<times> km_act list" where
  "eventFilter Q ev s =
     (case ev of
        Key_press k rep \<Rightarrow> processKeyEvent Q True k rep s
      | Key_release k rep \<Rightarrow> processKeyEvent Q False k rep s
      | Other_event \<Rightarrow> (s, []))"

text \<open>The loop over the keys; then the pending symbol. \<open>None\<close> is the failed assertion.\<close>

fun release_all :: "nat list \<Rightarrow> keys_manager \<Rightarrow> keys_manager \<times> km_act list" where
  "release_all [] s = (s, [])"
| "release_all (k # ks) s =
     (let (s, as) = (if keysPressed s ! k then processKeyRelease k False s else (s, []));
          (s, bs) = release_all ks s
      in (s, as @ bs))"

definition timerEvent :: "qt_env \<Rightarrow> keys_manager \<Rightarrow> (keys_manager \<times> km_act list) option" where
  "timerEvent Q s =
     (let s = s\<lparr>timer_on := False\<rparr>;
          (s, as) = release_all [0..<KEY_MAX] s;
          reset = (\<lambda>s. s\<lparr>currentAlphaKey := KEY_UNKNOWN, currentSym := 0\<rparr>)
      in (case editor s of
            Some w \<Rightarrow>
              if currentAlphaKey s \<le> KEY_9
              then (if currentSym s < length (sSymbols ! currentAlphaKey s)
                    then (let sym = sSymbols ! currentAlphaKey s ! currentSym s;
                              sym = (if \<not> flShift s then to_lower Q sym else sym)
                          in Some (reset s, Kill_timer # as @ [Commit_string w [sym]] @ label_text [] s))
                    else None)
              else Some (reset s, Kill_timer # as @ label_text [] s)
          | None \<Rightarrow> Some (reset s, Kill_timer # as @ label_text [] s)))"


section \<open>The machine\<close>

text \<open>
  What can happen to a manager: an event reaches the filter, the running timer fires, or one of the public
  functions and slots is called. An event that would fail an assertion is not a step.
\<close>

datatype km_event =
    Event qt_event | Timer | Start_edit "widget option" | Stop_edit bool | Stop_edit_OK | Stop_edit_cancel
  | Shift bool | Toggle_shift | Edit_buttons edit_buttons | Reset_buttons | Slave_button nat "button option"
  | Label bool

definition km_step :: "qt_env \<Rightarrow> km_event \<Rightarrow> keys_manager \<Rightarrow> (keys_manager \<times> km_act list) option" where
  "km_step Q e s =
     (case e of
        Event ev \<Rightarrow> Some (eventFilter Q ev s)
      | Timer \<Rightarrow> if timer_on s then timerEvent Q s else None
      | Start_edit w \<Rightarrow> Some (startEdit Q w s)
      | Stop_edit ok \<Rightarrow> Some (stopEdit Q ok s)
      | Stop_edit_OK \<Rightarrow> Some (stopEditOK Q s)
      | Stop_edit_cancel \<Rightarrow> Some (stopEditCancel Q s)
      | Shift fl \<Rightarrow> Some (setShift fl s)
      | Toggle_shift \<Rightarrow> Some (doToggleShift s)
      | Edit_buttons b \<Rightarrow> Some (setEditButtons b s)
      | Reset_buttons \<Rightarrow> Some (resetEditButtons s)
      | Slave_button i b \<Rightarrow> map_option (\<lambda>s. (s, [])) (setSlaveButton i b s)
      | Label l \<Rightarrow> Some (setLabel l s, []))"

inductive km_reach :: "qt_env \<Rightarrow> keys_manager \<Rightarrow> bool" for Q where
  start: "km_reach Q keys_manager_new"
| step: "km_reach Q s \<Longrightarrow> km_step Q e s = Some (s', as) \<Longrightarrow> km_reach Q s'"

text \<open>
  The invariant: twenty flags, of which only those of real keys are ever set, and only while the timer
  runs; a pending key is a key with symbols, the timer runs, and the current symbol is one of its symbols.
\<close>

definition km_inv :: "keys_manager \<Rightarrow> bool" where
  "km_inv s \<longleftrightarrow> length (keysPressed s) = KEY_MAX \<and>
     (\<forall>k < KEY_MAX. keysPressed s ! k \<longrightarrow> timer_on s \<and> k < KEY_UNKNOWN) \<and>
     (currentAlphaKey s \<noteq> KEY_UNKNOWN \<longrightarrow>
        timer_on s \<and> currentAlphaKey s \<le> KEY_OK \<and>
        numAlphaSyms s = length (sSymbols ! currentAlphaKey s) \<and> currentSym s < numAlphaSyms s)"

lemma list_update_nth: "k < length l \<Longrightarrow> l[i := x] ! k = (if k = i then x else l ! k)"
  by (simp add: nth_list_update)

text \<open>What the functions leave alone. The keypad state is all the invariant speaks of.\<close>

definition pad :: "keys_manager \<Rightarrow> bool list \<times> bool \<times> nat \<times> nat \<times> nat" where
  "pad s = (keysPressed s, timer_on s, currentAlphaKey s, numAlphaSyms s, currentSym s)"

lemma km_inv_pad: "pad s' = pad s \<Longrightarrow> km_inv s \<Longrightarrow> km_inv s'"
  by (auto simp: pad_def km_inv_def)

lemma pad_slots [simp]:
  "pad (fst (setShift fl s)) = pad s" "pad (fst (doToggleShift s)) = pad s"
  "pad (fst (resetEditButtons s)) = pad s" "pad (fst (setEditButtons b s)) = pad s"
  "pad (setLabel l s) = pad s" "pad (fst (startEdit Q w s)) = pad s" "pad (fst (stopEdit Q ok s)) = pad s"
  "setSlaveButton i x s = Some s' \<Longrightarrow> pad s' = pad s"
  by (auto simp: pad_def setShift_def doToggleShift_def resetEditButtons_def setEditButtons_def setLabel_def
      startEdit_def stopEdit_def setSlaveButton_def Let_def split: option.splits if_splits)

lemma km_inv_pad_eq: "pad s' = pad s \<Longrightarrow> km_inv s' = km_inv s"
  by (metis km_inv_pad)

lemma km_inv_slots [simp]:
  "km_inv (fst (setShift fl s)) = km_inv s" "km_inv (fst (doToggleShift s)) = km_inv s"
  "km_inv (fst (resetEditButtons s)) = km_inv s" "km_inv (fst (setEditButtons b s)) = km_inv s"
  "km_inv (setLabel l s) = km_inv s" "km_inv (fst (startEdit Q w s)) = km_inv s"
  "km_inv (fst (stopEdit Q ok s)) = km_inv s"
  by (rule km_inv_pad_eq, simp)+

lemma km_inv_slave: "setSlaveButton i x s = Some s' \<Longrightarrow> km_inv s \<Longrightarrow> km_inv s'"
  by (meson km_inv_pad pad_slots)

lemma sSymbols_bounds: "key \<le> KEY_OK \<Longrightarrow> 0 < length (sSymbols ! key)"
  by (auto simp: sSymbols_def key_defs less_Suc_eq numeral_eq_Suc le_less)

lemma km_inv_alpha:
  "km_inv s \<Longrightarrow> timer_on s \<Longrightarrow> key \<le> KEY_OK \<Longrightarrow> km_inv (fst (processAlphaKey Q key w s))"
  using sSymbols_bounds [of key] by (auto simp: processAlphaKey_def km_inv_def Let_def)

lemma km_inv_press:
  assumes "km_inv s" and "key < KEY_UNKNOWN"
  shows "km_inv (fst (processKeyPress Q key rep s))"
proof -
  let ?s = "s\<lparr>timer_on := True, keysPressed := (keysPressed s)[key := True]\<rparr>"
  have inv: "km_inv ?s"
    using assms by (auto simp: km_inv_def list_update_nth split: if_splits)
  have alpha: "km_inv (fst (processAlphaKey Q key w ?s))" if "key \<le> KEY_OK" for w
    using km_inv_alpha [OF inv _ that] by simp
  have slots: "km_inv (fst (stopEdit Q ok ?s))" "km_inv (fst (doToggleShift ?s))" for ok
    using inv by simp_all
  show ?thesis
    using inv alpha slots
    by (auto simp: processKeyPress_def Let_def prod.case_eq_if split: option.split)
qed

lemma km_inv_release: "km_inv s \<Longrightarrow> km_inv (fst (processKeyRelease key rep s))"
  by (cases "key < KEY_MAX") (auto simp: processKeyRelease_def km_inv_def Let_def nth_list_update)

text \<open>The loop of the timer clears every flag and does nothing else to the manager.\<close>

lemma clear_flag: "\<not> l ! k \<Longrightarrow> l[k := False] = l"
  by (metis (full_types) list_update_id)

lemma release_all_state:
  "fst (release_all ks s) = s\<lparr>keysPressed := fold (\<lambda>k l. l[k := False]) ks (keysPressed s)\<rparr>"
proof (induction ks arbitrary: s)
  case (Cons k ks)
  have "fst (if keysPressed s ! k then processKeyRelease k False s else (s, [])) =
    s\<lparr>keysPressed := (keysPressed s)[k := False]\<rparr>"
    by (simp add: processKeyRelease_def Let_def clear_flag)
  then show ?case
    by (simp add: Cons Let_def prod.case_eq_if)
qed simp

lemma fold_clear_nth:
  "i < length l \<Longrightarrow> fold (\<lambda>k l. l[k := False]) ks l ! i \<longleftrightarrow> l ! i \<and> i \<notin> set ks"
  by (induction ks arbitrary: l) (auto simp: list_update_nth split: if_splits)

lemma length_fold_clear [simp]: "length (fold (\<lambda>k l. l[k := False]) ks l) = length l"
  by (induction ks arbitrary: l) auto

lemma fold_clear_all: "fold (\<lambda>k l. l[k := False]) [0..<length l] l = replicate (length l) False"
  by (rule nth_equalityI) (auto simp: fold_clear_nth)

lemma release_all_keys:
  "length (keysPressed s) = KEY_MAX \<Longrightarrow>
   fst (release_all [0..<KEY_MAX] s) = s\<lparr>keysPressed := replicate KEY_MAX False\<rparr>"
  using fold_clear_all [of "keysPressed s"] by (simp add: release_all_state)

text \<open>The symbol that is pending, as it will be committed.\<close>

definition pending_symbol :: "qt_env \<Rightarrow> keys_manager \<Rightarrow> nat" where
  "pending_symbol Q s =
     (let sym = sSymbols ! currentAlphaKey s ! currentSym s in if flShift s then sym else to_lower Q sym)"

text \<open>What the timer does in a state of the invariant: its assertion holds.\<close>

definition timer_acts :: "qt_env \<Rightarrow> keys_manager \<Rightarrow> km_act list" where
  "timer_acts Q s = Kill_timer # snd (release_all [0..<KEY_MAX] (s\<lparr>timer_on := False\<rparr>)) @
     (case editor s of
        Some w \<Rightarrow> if currentAlphaKey s \<le> KEY_9 then [Commit_string w [pending_symbol Q s]] else []
      | None \<Rightarrow> []) @ label_text [] s"

definition quiet_pad :: "keys_manager \<Rightarrow> keys_manager" where
  "quiet_pad s = s\<lparr>keysPressed := replicate KEY_MAX False, timer_on := False,
     currentAlphaKey := KEY_UNKNOWN, currentSym := 0\<rparr>"

lemma timerEvent_inv:
  assumes "km_inv s"
  shows "timerEvent Q s = Some (quiet_pad s, timer_acts Q s)"
proof -
  obtain s' as where rel: "release_all [0..<KEY_MAX] (s\<lparr>timer_on := False\<rparr>) = (s', as)"
    by fastforce
  have s': "s' = s\<lparr>timer_on := False, keysPressed := replicate KEY_MAX False\<rparr>"
    using release_all_keys [of "s\<lparr>timer_on := False\<rparr>"] rel assms by (simp add: km_inv_def)
  have "currentSym s < length (sSymbols ! currentAlphaKey s)" if "currentAlphaKey s \<le> KEY_9"
    using assms that by (auto simp: km_inv_def key_defs)
  then show ?thesis
    by (auto simp: timerEvent_def rel s' timer_acts_def quiet_pad_def pending_symbol_def label_text_def
        Let_def split: option.split)
qed

lemma km_inv_quiet [simp]: "km_inv (quiet_pad s)"
  by (simp add: km_inv_def quiet_pad_def)

lemma km_inv_event: "km_inv s \<Longrightarrow> km_inv (fst (eventFilter Q ev s))"
  by (auto simp: eventFilter_def processKeyEvent_def Let_def km_inv_press km_inv_release split: qt_event.split)

lemma km_inv_step:
  assumes "km_inv s" and "km_step Q e s = Some (s', as)"
  shows "km_inv s'"
proof (cases e)
  case (Event ev)
  then show ?thesis using assms km_inv_event [of s Q ev] by (simp add: km_step_def)
next
  case Timer
  then show ?thesis using assms by (auto simp: km_step_def timerEvent_inv split: if_splits)
qed (use assms in \<open>auto simp: km_step_def stopEditOK_def stopEditCancel_def
        dest!: arg_cong [where f = fst] intro: km_inv_slave\<close>)

lemma km_reach_inv: "km_reach Q s \<Longrightarrow> km_inv s"
proof (induction rule: km_reach.induct)
  case start
  then show ?case by (simp add: km_inv_def keys_manager_new_def)
next
  case step
  then show ?case by (blast intro: km_inv_step)
qed

section \<open>Runs\<close>

fun km_run :: "qt_env \<Rightarrow> km_event list \<Rightarrow> keys_manager \<Rightarrow> (keys_manager \<times> km_act list) option" where
  "km_run Q [] s = Some (s, [])"
| "km_run Q (e # es) s =
     (case km_step Q e s of
        None \<Rightarrow> None
      | Some (s, as) \<Rightarrow> (case km_run Q es s of None \<Rightarrow> None | Some (s, bs) \<Rightarrow> Some (s, as @ bs)))"

lemma km_run_append:
  "km_run Q (es @ fs) s =
     (case km_run Q es s of
        None \<Rightarrow> None
      | Some (s, as) \<Rightarrow> (case km_run Q fs s of None \<Rightarrow> None | Some (s, bs) \<Rightarrow> Some (s, as @ bs)))"
  by (induction es arbitrary: s) (auto split: option.splits)

lemma km_run_reach: "km_run Q es s = Some (s', as) \<Longrightarrow> km_reach Q s \<Longrightarrow> km_reach Q s'"
proof (induction es arbitrary: s as)
  case (Cons e es)
  then show ?case
    by (auto split: option.splits) (blast intro: km_reach.step)
qed simp

text \<open>What the widgets are told, and which keys are reported as released.\<close>

definition commits :: "km_act list \<Rightarrow> (widget \<times> nat list) list" where
  "commits as = concat (map (\<lambda>a. case a of Commit_string w t \<Rightarrow> [(w, t)] | _ \<Rightarrow> []) as)"

definition releases :: "km_act list \<Rightarrow> nat list" where
  "releases as = concat (map (\<lambda>a. case a of Emit_on_release k \<Rightarrow> [k] | _ \<Rightarrow> []) as)"

lemma commits_simps [simp]:
  "commits [] = []" "commits (a # as) = (case a of Commit_string w t \<Rightarrow> [(w, t)] | _ \<Rightarrow> []) @ commits as"
  "commits (as @ bs) = commits as @ commits bs" "commits (label_text t s) = []"
  "(\<And>b. commits (f b) = []) \<Longrightarrow> commits (on_button x f) = []"
  by (auto simp: commits_def label_text_def on_button_def split: option.split)

lemma releases_simps [simp]:
  "releases [] = []" "releases (a # as) = (case a of Emit_on_release k \<Rightarrow> [k] | _ \<Rightarrow> []) @ releases as"
  "releases (as @ bs) = releases as @ releases bs" "releases (label_text t s) = []"
  by (auto simp: releases_def label_text_def)

lemma release_acts:
  "distinct ks \<Longrightarrow> snd (release_all ks s) =
     concat (map (\<lambda>k. if keysPressed s ! k then snd (processKeyRelease k False s) else []) ks)"
proof (induction ks arbitrary: s)
  case (Cons k ks)
  let ?s = "s\<lparr>keysPressed := (keysPressed s)[k := False]\<rparr>"
  have "keysPressed ?s ! j = keysPressed s ! j"
    "snd (processKeyRelease j False ?s) = snd (processKeyRelease j False s)" if "j \<in> set ks" for j
  proof -
    have "k \<noteq> j" using that Cons.prems by auto
    then show "keysPressed ?s ! j = keysPressed s ! j" by simp
    show "snd (processKeyRelease j False ?s) = snd (processKeyRelease j False s)"
      by (simp add: processKeyRelease_def Let_def)
  qed
  then have "snd (release_all ks ?s) =
      concat (map (\<lambda>k. if keysPressed s ! k then snd (processKeyRelease k False s) else []) ks)"
    using Cons by (auto intro!: arg_cong [where f = concat])
  moreover have "fst (if keysPressed s ! k then processKeyRelease k False s else (s, [])) = ?s"
    by (simp add: processKeyRelease_def Let_def clear_flag)
  ultimately show ?case
    by (auto simp: Let_def prod.case_eq_if)
qed simp

lemma emitters_quiet [simp]:
  "commits (emitters k) = []" "releases (emitters k) = []"
  "commits (case emitters_release k of None \<Rightarrow> [] | Some as \<Rightarrow> as) = []"
  "releases (case emitters_release k of None \<Rightarrow> [] | Some as \<Rightarrow> as) = []"
  by (simp_all add: emitters_def emitters_release_def)

lemma commits_release_all [simp]: "commits (snd (release_all ks s)) = []"
proof (induction ks arbitrary: s)
  case (Cons k ks)
  have "commits (snd (processKeyRelease k rep s)) = []" for k rep s
    by (simp add: processKeyRelease_def Let_def)
  with Cons show ?case by (simp add: Let_def prod.case_eq_if)
qed simp

lemma commits_timer:
  "commits (timer_acts Q s) =
     (case editor s of
        Some w \<Rightarrow> if currentAlphaKey s \<le> KEY_9 then [(w, [pending_symbol Q s])] else [] | None \<Rightarrow> [])"
  by (simp add: timer_acts_def split: option.split)

lemma releases_timer:
  "releases (timer_acts Q s) =
     filter (\<lambda>k. keysPressed s ! k \<and> (editor s = None \<or> KEY_K1 \<le> k)) [0..<KEY_MAX]"
proof -
  have "releases (concat (map (\<lambda>k. if keysPressed s ! k
           then snd (processKeyRelease k False (s\<lparr>timer_on := False\<rparr>)) else []) ks)) =
      filter (\<lambda>k. keysPressed s ! k \<and> (editor s = None \<or> KEY_K1 \<le> k)) ks" for ks
    by (induction ks) (auto simp: processKeyRelease_def Let_def)
  then show ?thesis
    by (simp add: timer_acts_def release_acts split: option.split)
qed

section \<open>The invariant\<close>

text \<open>
  Property C22: the key pad state is consistent whatever happens. In every reachable state a flag is set
  only for a real key and only while the timer runs, and a pending symbol is a symbol of its key; so the
  timer, when it runs, does not fail its assertion: it reports the release of every key that is still
  down, once and in order, except the text keys of a running edit, commits at most one symbol, and leaves no
  key down and nothing pending.
\<close>

theorem keys_invariant:
  assumes "km_reach Q s"
  shows "km_inv s \<and>
    (timer_on s \<longrightarrow>
      (\<exists>as. km_step Q Timer s = Some (quiet_pad s, as) \<and>
        releases as = filter (\<lambda>k. keysPressed s ! k \<and> (editor s = None \<or> KEY_K1 \<le> k)) [0..<KEY_MAX] \<and>
        length (commits as) \<le> 1))"
  using km_reach_inv [OF assms]
  by (auto simp: km_step_def timerEvent_inv releases_timer commits_timer split: option.split)

section \<open>Text input\<close>

lemma KeysCodeIdx_nth: "k < KEY_MAX \<Longrightarrow> KeysCodeIdx (KeyCodes ! k) = k"
proof -
  assume k: "k < KEY_MAX"
  have "distinct KeyCodes" and "length KeyCodes = KEY_MAX"
    by (simp_all add: KeyCodes_def KEY_MAX_def)
  then have "map_of (zip KeyCodes [0..<KEY_MAX]) (KeyCodes ! k) = Some k"
    using k by (simp add: map_of_zip_nth)
  then show ?thesis by (simp add: KeysCodeIdx_def)
qed

text \<open>A press or a release of a key; the keys that were pressed; the length of the last run of one key.\<close>

fun tap :: "bool \<times> nat \<times> bool \<Rightarrow> km_event" where
  "tap (press, k, rep) = Event (if press then Key_press (KeyCodes ! k) rep else Key_release (KeyCodes ! k) rep)"

definition presses :: "(bool \<times> nat \<times> bool) list \<Rightarrow> nat list" where
  "presses es = map (\<lambda>(_, k, _). k) (filter fst es)"

definition last_run :: "nat list \<Rightarrow> nat" where
  "last_run ks = length (takeWhile (\<lambda>k. k = last ks) (rev ks))"

lemma last_run_snoc:
  "last_run (ks @ [k]) = (if ks \<noteq> [] \<and> last ks = k then Suc (last_run ks) else 1)"
  by (cases ks rule: rev_cases) (auto simp: last_run_def)

lemma last_run_pos: "ks \<noteq> [] \<Longrightarrow> 0 < last_run ks"
  by (cases ks rule: rev_cases) (auto simp: last_run_def)

text \<open>The reference: the symbol that a sequence of presses selects.\<close>

definition selected :: "nat list \<Rightarrow> nat" where
  "selected ks = (last_run ks - 1) mod length (sSymbols ! last ks)"

lemma selected_snoc:
  assumes "k \<le> KEY_OK"
  shows "selected (ks @ [k]) =
    (if ks \<noteq> [] \<and> last ks = k
     then (if selected ks + 1 \<ge> length (sSymbols ! k) then 0 else selected ks + 1) else 0)"
proof -
  have pos: "0 < length (sSymbols ! k)" using sSymbols_bounds assms by blast
  show ?thesis
  proof (cases "ks \<noteq> [] \<and> last ks = k")
    case True
    then obtain n where n: "last_run ks = Suc n"
      using last_run_pos [of ks] by (cases "last_run ks") auto
    have "n mod length (sSymbols ! k) < length (sSymbols ! k)" using pos by simp
    then show ?thesis
      using True n by (auto simp: selected_def last_run_snoc mod_Suc)
  qed (use pos in \<open>auto simp: selected_def last_run_snoc\<close>)
qed


text \<open>The state after the presses and releases \<open>es\<close> of text keys, begun in \<open>s\<close> with nothing pending.\<close>

definition tapped :: "keys_manager \<Rightarrow> nat list \<Rightarrow> keys_manager \<Rightarrow> bool" where
  "tapped s ks s' \<longleftrightarrow>
     editor s' = editor s \<and> flDigits s' = flDigits s \<and> flShift s' = flShift s \<and> (ks \<noteq> [] \<longrightarrow> timer_on s') \<and>
     (if ks = [] \<or> flDigits s then currentAlphaKey s' = KEY_UNKNOWN
      else currentAlphaKey s' = last ks \<and> numAlphaSyms s' = length (sSymbols ! last ks) \<and>
           currentSym s' = selected ks)"

lemma text_key: "k \<le> KEY_OK \<Longrightarrow> k < KEY_UNKNOWN \<and> k < KEY_MAX \<and> k < KEY_K1 \<and> k \<le> KEY_K5 \<and> k \<noteq> KEY_UNKNOWN"
  by (simp add: key_defs)

lemma tap_press:
  assumes "tapped s ks s1" and "editor s = Some w" and "k \<le> KEY_OK"
    and "km_step Q (tap (True, k, rep)) s1 = Some (s2, as)"
  shows "tapped s (ks @ [k]) s2 \<and> commits as = (if flDigits s then [(w, [sSymbols ! k ! 0])] else [])"
  using assms text_key [OF assms(3)]
  by (auto simp: tapped_def km_step_def eventFilter_def processKeyEvent_def KeysCodeIdx_nth processKeyPress_def
      processAlphaKey_def Let_def prod.case_eq_if selected_snoc split: if_splits)

lemma tap_release:
  assumes "tapped s ks s1" and "editor s = Some w" and "k \<le> KEY_OK"
    and "km_step Q (tap (False, k, rep)) s1 = Some (s2, as)"
  shows "tapped s ks s2 \<and> commits as = []"
  using assms text_key [OF assms(3)]
  by (auto simp: tapped_def km_step_def eventFilter_def processKeyEvent_def KeysCodeIdx_nth processKeyRelease_def
      Let_def split: if_splits)

lemma tap_run:
  assumes "editor s = Some w" and "currentAlphaKey s = KEY_UNKNOWN" and "\<forall>(_, k, _) \<in> set es. k \<le> KEY_OK"
  shows "\<exists>s' as. km_run Q (map tap es) s = Some (s', as) \<and> tapped s (presses es) s' \<and>
    commits as = (if flDigits s then map (\<lambda>k. (w, [sSymbols ! k ! 0])) (presses es) else [])"
  using assms(3)
proof (induction es rule: rev_induct)
  case Nil
  then show ?case using assms by (simp add: tapped_def presses_def)
next
  case (snoc e es)
  obtain p k rep where e: "e = (p, k, rep)" by (cases e) auto
  with snoc.prems have k: "k \<le> KEY_OK" by simp
  from snoc obtain s1 as where run: "km_run Q (map tap es) s = Some (s1, as)" and st: "tapped s (presses es) s1"
    and com: "commits as = (if flDigits s then map (\<lambda>k. (w, [sSymbols ! k ! 0])) (presses es) else [])"
    by auto
  obtain s2 bs where step: "km_step Q (tap e) s1 = Some (s2, bs)"
    by (cases "eventFilter Q (if p then Key_press (KeyCodes ! k) rep else Key_release (KeyCodes ! k) rep) s1")
       (auto simp: e km_step_def)
  show ?case
  proof (cases p)
    case True
    then show ?thesis
      using tap_press [OF st assms(1) k, of Q rep s2 bs] step run com e
      by (simp add: km_run_append presses_def)
  next
    case False
    then show ?thesis
      using tap_release [OF st assms(1) k, of Q rep s2 bs] step run com e
      by (simp add: km_run_append presses_def)
  qed
qed


text \<open>What the timer commits after a run of text keys.\<close>

definition multitap :: "qt_env \<Rightarrow> bool \<Rightarrow> nat list \<Rightarrow> nat list" where
  "multitap Q shift ks =
     (if last ks \<le> KEY_9
      then [if shift then sSymbols ! last ks ! selected ks else to_lower Q (sSymbols ! last ks ! selected ks)]
      else [])"

text \<open>
  Property C21: text input. While a widget is edited and nothing is pending, press and release text keys
  in any order, then let the timer fire. In a widget for digits every press has entered the first symbol of
  its key, and nothing is pending at the end. In any other widget the presses enter nothing; the timer
  enters one symbol, selected by the last run of presses of one key: the run steps cyclically through
  the symbols of that key. Whatever was selected before is lost, and so is everything if the last key was
  DEL or OK. The edit goes on.
\<close>

theorem keys_text_input:
  assumes "km_reach Q s" and "editor s = Some w" and "currentAlphaKey s = KEY_UNKNOWN"
    and "\<forall>(_, k, _) \<in> set es. k \<le> KEY_OK" and "presses es \<noteq> []"
  shows "\<exists>s' as. km_run Q (map tap es @ [Timer]) s = Some (s', as) \<and>
    commits as = (if flDigits s then map (\<lambda>k. (w, [sSymbols ! k ! 0])) (presses es)
                  else map (\<lambda>c. (w, [c])) (multitap Q (flShift s) (presses es))) \<and>
    editor s' = Some w \<and> currentAlphaKey s' = KEY_UNKNOWN \<and> keysPressed s' = replicate KEY_MAX False"
proof -
  obtain s1 as where run: "km_run Q (map tap es) s = Some (s1, as)" and st: "tapped s (presses es) s1"
    and com: "commits as = (if flDigits s then map (\<lambda>k. (w, [sSymbols ! k ! 0])) (presses es) else [])"
    using tap_run [OF assms(2-4)] by blast
  have inv: "km_inv s1"
    using km_reach_inv [OF km_run_reach [OF run assms(1)]] .
  from st assms(2,5) have "editor s1 = Some w" and "timer_on s1"
    by (simp_all add: tapped_def)
  then show ?thesis
    using st assms(2,5) com
    by (auto simp: km_run_append run km_step_def timerEvent_inv [OF inv] commits_timer quiet_pad_def tapped_def
        pending_symbol_def multitap_def Let_def key_defs)
qed

text \<open>An environment: a form with a line edit 0, a spin box 1 for digits and a line edit 2.\<close>

definition form_env :: qt_env where
  "form_env = \<lparr>is_spin = (\<lambda>w. w = 1), digits_property = (\<lambda>w. w = 1), focus_widget = None,
     enabled_visible = (\<lambda>_. True), to_lower = (\<lambda>c. if 0x410 \<le> c \<and> c \<le> 0x42F then c + 32 else c)\<rparr>"

lemma editing_reach: "km_reach Q (fst (startEdit Q (Some w) keys_manager_new))"
  by (rule km_reach.step [OF km_reach.start, of Q "Start_edit (Some w)" _ "snd (startEdit Q (Some w) keys_manager_new)"])
     (simp add: km_step_def)

lemma editing_state:
  "editor (fst (startEdit Q (Some w) keys_manager_new)) = Some w"
  "currentAlphaKey (fst (startEdit Q (Some w) keys_manager_new)) = KEY_UNKNOWN"
  "flDigits (fst (startEdit Q (Some w) keys_manager_new)) = digits_property Q w"
  "flShift (fst (startEdit Q (Some w) keys_manager_new)) = False"
  by (simp_all add: startEdit_def keys_manager_new_def setShift_def Let_def)

theorem keys_invariant_witness:
  "\<exists>as. km_step form_env Timer
      (fst (processKeyPress form_env KEY_PTT False (fst (startEdit form_env (Some 0) keys_manager_new)))) =
     Some (quiet_pad (fst (processKeyPress form_env KEY_PTT False (fst (startEdit form_env (Some 0) keys_manager_new)))), as) \<and>
    releases as = [KEY_PTT]"
proof -
  let ?s = "fst (startEdit form_env (Some 0) keys_manager_new)"
  let ?s1 = "fst (processKeyPress form_env KEY_PTT False ?s)"
  have "km_step form_env (tap (True, KEY_PTT, False)) ?s = Some (processKeyPress form_env KEY_PTT False ?s)"
    by (simp add: km_step_def eventFilter_def processKeyEvent_def KeysCodeIdx_nth key_defs)
  then have reach: "km_reach form_env ?s1"
    using km_reach.step [OF editing_reach] by (metis prod.collapse)
  have pad: "timer_on ?s1" "keysPressed ?s1 = (replicate KEY_MAX False)[KEY_PTT := True]" "editor ?s1 = Some 0"
    by (simp_all add: processKeyPress_def startEdit_def keys_manager_new_def setShift_def Let_def key_defs)
  have "filter (\<lambda>k. (replicate KEY_MAX False)[KEY_PTT := True] ! k \<and> KEY_K1 \<le> k) [0..<KEY_MAX] = [KEY_PTT]"
    by code_simp
  then show ?thesis
    using keys_invariant [OF reach] pad by auto
qed

theorem keys_text_input_witness:
  "\<exists>s' as. km_run form_env (map tap [(True, 2, False), (True, 3, False), (False, 3, False), (True, 3, True),
      (True, 3, False)] @ [Timer]) (fst (startEdit form_env (Some 0) keys_manager_new)) = Some (s', as) \<and>
    commits as = [(0, [0x435])]"
proof -
  have "multitap form_env False (presses [(True, 2, False), (True, 3, False), (False, 3, False), (True, 3, True),
      (True, 3, False)]) = [0x435]"
    by code_simp
  then show ?thesis
    using keys_text_input [OF editing_reach editing_state(1,2), of "[(True, 2, False), (True, 3, False),
        (False, 3, False), (True, 3, True), (True, 3, False)]" form_env 0]
    by (auto simp: editing_state key_defs presses_def form_env_def)
qed


text \<open>The keys that finish an edit, and the start of another one, leave the pending symbol alone.\<close>

lemma stop_edit:
  assumes "editor s = Some w"
  shows "commits (snd (stopEdit Q ok s)) = []"
    and "(if ok then Emit_edit_ok w else Emit_edit_cancel w) \<in> set (snd (stopEdit Q ok s))"
    and "fst (stopEdit Q ok s) = s\<lparr>flShift := False, editor := None\<rparr>"
  using assms by (simp_all add: stopEdit_def setShift_def Let_def on_button_def split: option.split)

lemma finish_press:
  assumes "editor s = Some w" and "fin \<in> {KEY_K1, KEY_K2}"
  shows "km_step Q (tap (True, fin, False)) s =
    Some (map_prod id (\<lambda>as. [Kill_timer, Start_timer_ms 1000] @ as)
      (stopEdit Q (fin = KEY_K1) (s\<lparr>timer_on := True, keysPressed := (keysPressed s)[fin := True]\<rparr>)))"
proof -
  have "fin < KEY_MAX" "fin < KEY_UNKNOWN" "fin \<le> KEY_K5" "\<not> fin \<le> KEY_OK" "fin \<noteq> KEY_K1 \<Longrightarrow> fin = KEY_K2"
    "KEY_K1 \<noteq> KEY_K2"
    using assms(2) by (auto simp: key_defs)
  with assms(1) show ?thesis
    by (auto simp: km_step_def eventFilter_def processKeyEvent_def KeysCodeIdx_nth processKeyPress_def
        Let_def prod.case_eq_if map_prod_def)
qed

lemma finish_step:
  assumes "editor s = Some w" and "fin \<in> {KEY_K1, KEY_K2}"
  shows "\<exists>s' as. km_step Q (tap (True, fin, False)) s = Some (s', as) \<and> commits as = [] \<and>
    (if fin = KEY_K1 then Emit_edit_ok w else Emit_edit_cancel w) \<in> set as \<and>
    editor s' = None \<and> timer_on s' \<and> \<not> flShift s' \<and>
    currentAlphaKey s' = currentAlphaKey s \<and> currentSym s' = currentSym s"
  unfolding finish_press [OF assms]
  using stop_edit [where s = "s\<lparr>timer_on := True, keysPressed := (keysPressed s)[fin := True]\<rparr>" and w = w
      and ok = "fin = KEY_K1" and Q = Q]
    assms(1)
  by (simp add: map_prod_def prod.case_eq_if)

lemma restart_step:
  assumes "editor s = None"
  shows "\<exists>s' as. km_step Q (Start_edit (Some v)) s = Some (s', as) \<and> commits as = [] \<and> editor s' = Some v \<and>
    timer_on s' = timer_on s \<and> \<not> flShift s' \<and>
    currentAlphaKey s' = currentAlphaKey s \<and> currentSym s' = currentSym s"
  using assms
  by (auto simp: km_step_def startEdit_def setShift_def Let_def label_text_def on_button_def split: option.split)

text \<open>
  Property C23: a pending symbol does not belong to an edit. If a text key is pressed and the edit is
  finished with K1 before the timer fires, the widget is reported as edited and the symbol is lost. If in
  addition another widget is edited before the timer fires, the symbol is entered there, also when
  the first edit was cancelled with K2, and also when the other widget is for digits.
\<close>

theorem keys_stale_symbol:
  assumes "km_reach Q s" and "editor s = Some w" and "\<not> flDigits s" and "currentAlphaKey s = KEY_UNKNOWN"
    and "k \<le> KEY_9" and "fin \<in> {KEY_K1, KEY_K2}"
  shows
    "(\<exists>s' as. km_run Q [tap (True, k, False), tap (True, fin, False), Timer] s = Some (s', as) \<and>
        commits as = [] \<and> (if fin = KEY_K1 then Emit_edit_ok w else Emit_edit_cancel w) \<in> set as \<and>
        currentAlphaKey s' = KEY_UNKNOWN) \<and>
     (\<exists>s' as. km_run Q [tap (True, k, False), tap (True, fin, False), Start_edit (Some v), Timer] s =
          Some (s', as) \<and>
        commits as = [(v, [to_lower Q (sSymbols ! k ! 0)])] \<and> editor s' = Some v)"
proof -
  have "k \<le> KEY_OK" using assms(5) by (simp add: key_defs)
  then obtain s1 as1 where s1: "km_run Q [tap (True, k, False)] s = Some (s1, as1)" "tapped s [k] s1"
    and as1: "commits as1 = []"
    using tap_run [OF assms(2,4), of "[(True, k, False)]" Q] assms(3) by (auto simp: presses_def)
  have "selected [k] = 0" by (simp add: selected_def last_run_def)
  with s1 assms(2,3) have ed1: "editor s1 = Some w" and sym1: "currentAlphaKey s1 = k" "currentSym s1 = 0"
    by (simp_all add: tapped_def)
  from finish_step [OF ed1 assms(6), of Q] obtain s2 as2 where
    s2: "km_step Q (tap (True, fin, False)) s1 = Some (s2, as2)"
      "commits as2 = []" "(if fin = KEY_K1 then Emit_edit_ok w else Emit_edit_cancel w) \<in> set as2"
      "editor s2 = None" "timer_on s2" "currentAlphaKey s2 = k" "currentSym s2 = 0"
    using sym1 by auto
  from restart_step [OF s2(4), of Q v] obtain s3 as3 where
    s3: "km_step Q (Start_edit (Some v)) s2 = Some (s3, as3)"
      "commits as3 = []" "editor s3 = Some v" "timer_on s3" "\<not> flShift s3" "currentAlphaKey s3 = k" "currentSym s3 = 0"
    using s2 by auto
  have inv: "km_inv s2" "km_inv s3"
    using km_reach_inv [OF km_run_reach [OF s1(1) assms(1)]] km_inv_step s2(1) s3(1) by blast+
  have tap1: "km_step Q (tap (True, k, False)) s = Some (s1, as1)"
    using s1(1) by (auto split: option.splits)
  have "km_step Q Timer s2 = Some (quiet_pad s2, timer_acts Q s2)"
    "km_step Q Timer s3 = Some (quiet_pad s3, timer_acts Q s3)"
    using s2 s3 inv by (simp_all add: km_step_def timerEvent_inv)
  moreover have "commits (timer_acts Q s2) = []"
    "commits (timer_acts Q s3) = [(v, [to_lower Q (sSymbols ! k ! 0)])]"
    using s2 s3 assms(5) by (simp_all add: commits_timer pending_symbol_def)
  moreover have "currentAlphaKey (quiet_pad s2) = KEY_UNKNOWN" "editor (quiet_pad s3) = Some v"
    using s3 by (simp_all add: quiet_pad_def)
  ultimately show ?thesis
    using tap1 as1 s2(1-3) s3(1,2) by (auto simp del: tap.simps)
qed

theorem keys_stale_symbol_witness:
  "\<exists>s' as. km_run form_env [tap (True, 2, False), tap (True, KEY_K2, False), Start_edit (Some 1), Timer]
      (fst (startEdit form_env (Some 0) keys_manager_new)) = Some (s', as) \<and>
    commits as = [(1, [50])] \<and> editor s' = Some 1"
proof -
  have "to_lower form_env (sSymbols ! 2 ! 0) = 50" by code_simp
  then show ?thesis
    using keys_stale_symbol [OF editing_reach editing_state(1) _ editing_state(2), of form_env 0 2 KEY_K2 1]
    by (simp add: editing_state form_env_def key_defs)
qed

end
