(* ===== verification/Ini_Config.thy ===== *)
theory Ini_Config
  imports Prelude "HOL-Library.AList" "HOL-Library.List_Lexorder"
begin

text \<open>
  The configuration of \<^verbatim>\<open>qt/inistream/IniStreamConfig.cpp\<close>: chunks of INI text, as they come in datagrams,
  update a table of sections. A text is a list of UTF-16 code units. What the class takes from the Qt library
  is the record \<open>qt_text\<close>; its \<^verbatim>\<open>QMap\<close> is an association list with distinct keys, listed in the order of
  the keys.
\<close>

type_synonym qstring = "nat list"

record 'd qt_text =
  from_utf8 :: "8 word list \<Rightarrow> qstring"
  is_space :: "nat \<Rightarrow> bool"
  lower :: "qstring \<Rightarrow> qstring"
  int_text :: "int \<Rightarrow> qstring"
  to_int :: "qstring \<Rightarrow> int option"
  double_text :: "'d \<Rightarrow> qstring"
  to_double :: "qstring \<Rightarrow> 'd option"

datatype 'd qvariant = Invalid | QText qstring | QInt int | QDouble 'd

fun toString :: "'d qt_text \<Rightarrow> 'd qvariant \<Rightarrow> qstring" where
  "toString T Invalid = []"
| "toString T (QText s) = s"
| "toString T (QInt i) = int_text T i"
| "toString T (QDouble d) = double_text T d"

type_synonym ini = "(qstring \<times> (qstring \<times> qstring) list) list"

section \<open>Text\<close>

definition NL :: nat where "NL = 10"
definition QUOTE :: nat where "QUOTE = 34"
definition HASH :: nat where "HASH = 35"
definition SEMICOLON :: nat where "SEMICOLON = 59"
definition EQUALS :: nat where "EQUALS = 61"
definition LBRACKET :: nat where "LBRACKET = 91"
definition RBRACKET :: nat where "RBRACKET = 93"

lemmas char_defs = NL_def QUOTE_def HASH_def SEMICOLON_def EQUALS_def LBRACKET_def RBRACKET_def

definition starts_with :: "nat \<Rightarrow> qstring \<Rightarrow> bool" where
  "starts_with c s \<longleftrightarrow> s \<noteq> [] \<and> hd s = c"

definition ends_with :: "nat \<Rightarrow> qstring \<Rightarrow> bool" where
  "ends_with c s \<longleftrightarrow> s \<noteq> [] \<and> last s = c"

definition trimmed :: "'d qt_text \<Rightarrow> qstring \<Rightarrow> qstring" where
  "trimmed T s = rev (dropWhile (is_space T) (rev (dropWhile (is_space T) s)))"

definition inner :: "qstring \<Rightarrow> qstring" where
  "inner s = take (length s - 2) (drop 1 s)"

definition index_of :: "nat \<Rightarrow> qstring \<Rightarrow> nat option" where
  "index_of c s = (if c \<in> set s then Some (length (takeWhile (\<lambda>x. x \<noteq> c) s)) else None)"

fun split_at :: "nat \<Rightarrow> qstring \<Rightarrow> qstring list" where
  "split_at c [] = [[]]"
| "split_at c (x # xs) =
     (if x = c then [] # split_at c xs
      else case split_at c xs of [] \<Rightarrow> [[x]] | p # ps \<Rightarrow> (x # p) # ps)"

definition lines_of :: "qstring \<Rightarrow> qstring list" where
  "lines_of s = filter (\<lambda>l. l \<noteq> []) (split_at NL s)"

section \<open>The class\<close>

definition ini_normalize :: "'d qt_text \<Rightarrow> qstring \<Rightarrow> qstring" where
  "ini_normalize T s = lower T s"

text \<open>One turn of the loop; \<open>cur\<close> is \<^verbatim>\<open>currentSection\<close>.\<close>

definition parse_line :: "'d qt_text \<Rightarrow> qstring \<Rightarrow> qstring \<times> ini \<Rightarrow> qstring \<times> ini" where
  "parse_line T line = (\<lambda>(cur, m).
     (let s = trimmed T line
      in if s = [] \<or> starts_with SEMICOLON s \<or> starts_with HASH s then (cur, m)
         else if starts_with LBRACKET s \<and> ends_with RBRACKET s
         then (ini_normalize T (trimmed T (inner s)), m)
         else (case index_of EQUALS s of
             None \<Rightarrow> (cur, m)
           | Some eq \<Rightarrow>
               if cur = [] then (cur, m)
               else
                 let key = ini_normalize T (trimmed T (take eq s));
                     val = trimmed T (drop (eq + 1) s);
                     sec = (case map_of m cur of None \<Rightarrow> [] | Some sec \<Rightarrow> sec)
                 in if val = []
                    then (cur, AList.update cur (if map_of sec key \<noteq> None then AList.delete key sec else sec) m)
                    else
                      let val = (if length val \<ge> 2 \<and> starts_with QUOTE val \<and> ends_with QUOTE val
                                 then inner val else val)
                      in (cur, AList.update cur
                           (if map_of sec key = None then AList.update key val sec
                            else if map_of sec key \<noteq> Some val then AList.update key val sec
                            else sec) m))))"

definition parse_text :: "'d qt_text \<Rightarrow> qstring \<Rightarrow> ini \<Rightarrow> ini" where
  "parse_text T data m = snd (fold (parse_line T) (lines_of data) ([], m))"

definition parse :: "'d qt_text \<Rightarrow> 8 word list \<Rightarrow> ini \<Rightarrow> ini" where
  "parse T chunk m = parse_text T (from_utf8 T chunk) m"

definition get :: "'d qt_text \<Rightarrow> ini \<Rightarrow> qstring \<Rightarrow> qstring \<Rightarrow> 'd qvariant \<Rightarrow> 'd qvariant" where
  "get T m section key def =
     (case map_of m (ini_normalize T section) of
        None \<Rightarrow> def
      | Some sec \<Rightarrow> (case map_of sec key of Some v \<Rightarrow> QText v | None \<Rightarrow> def))"

definition getInt :: "'d qt_text \<Rightarrow> ini \<Rightarrow> qstring \<Rightarrow> qstring \<Rightarrow> int \<Rightarrow> int" where
  "getInt T m section key def =
     (case to_int T (toString T (get T m section key (QInt def))) of Some v \<Rightarrow> v | None \<Rightarrow> def)"

definition getDouble :: "'d qt_text \<Rightarrow> ini \<Rightarrow> qstring \<Rightarrow> qstring \<Rightarrow> 'd \<Rightarrow> 'd" where
  "getDouble T m section key def =
     (case to_double T (toString T (get T m section key (QDouble def))) of Some v \<Rightarrow> v | None \<Rightarrow> def)"

definition getBool :: "'d qt_text \<Rightarrow> ini \<Rightarrow> qstring \<Rightarrow> qstring \<Rightarrow> bool \<Rightarrow> bool" where
  "getBool T m section key def =
     (let s = lower T (trimmed T (toString T (get T m section key Invalid)))
      in if s \<in> {chars ''1'', chars ''true'', chars ''yes'', chars ''on''} then True
         else if s \<in> {chars ''0'', chars ''false'', chars ''no'', chars ''off''} then False
         else def)"

definition hasKey :: "'d qt_text \<Rightarrow> ini \<Rightarrow> qstring \<Rightarrow> qstring \<Rightarrow> bool" where
  "hasKey T m section key =
     (case map_of m (ini_normalize T section) of None \<Rightarrow> False | Some sec \<Rightarrow> map_of sec key \<noteq> None)"

definition hasSection :: "'d qt_text \<Rightarrow> ini \<Rightarrow> qstring \<Rightarrow> bool" where
  "hasSection T m section \<longleftrightarrow> map_of m (ini_normalize T section) \<noteq> None"

definition keys :: "'d qt_text \<Rightarrow> ini \<Rightarrow> qstring \<Rightarrow> qstring list" where
  "keys T m section = (case map_of m (ini_normalize T section) of None \<Rightarrow> [] | Some sec \<Rightarrow> sort (map fst sec))"

definition sections :: "ini \<Rightarrow> qstring \<Rightarrow> qstring list" where
  "sections m prefix = filter (\<lambda>s. prefix = [] \<or> take (length prefix) s = prefix) (sort (map fst m))"

section \<open>Assignments\<close>

text \<open>What a line says, and the assignments that a list of lines makes, each with its section.\<close>

datatype ini_line = Nothing | Header qstring | Assign qstring "qstring option"

definition read_line :: "'d qt_text \<Rightarrow> qstring \<Rightarrow> ini_line" where
  "read_line T line =
     (let s = trimmed T line
      in if s = [] \<or> hd s \<in> {SEMICOLON, HASH} then Nothing
         else if hd s = LBRACKET \<and> last s = RBRACKET then Header (lower T (trimmed T (inner s)))
         else if EQUALS \<notin> set s then Nothing
         else let val = trimmed T (tl (dropWhile (\<lambda>x. x \<noteq> EQUALS) s))
              in Assign (lower T (trimmed T (takeWhile (\<lambda>x. x \<noteq> EQUALS) s)))
                   (if val = [] then None
                    else if 2 \<le> length val \<and> hd val = QUOTE \<and> last val = QUOTE then Some (inner val)
                    else Some val))"

fun assignments :: "qstring \<Rightarrow> ini_line list \<Rightarrow> (qstring \<times> qstring \<times> qstring option) list" where
  "assignments cur [] = []"
| "assignments cur (Nothing # ls) = assignments cur ls"
| "assignments cur (Header s # ls) = assignments s ls"
| "assignments cur (Assign k v # ls) = (if cur = [] then [] else [(cur, k, v)]) @ assignments cur ls"

definition chunk_assignments :: "'d qt_text \<Rightarrow> qstring \<Rightarrow> (qstring \<times> qstring \<times> qstring option) list" where
  "chunk_assignments T data = assignments [] (map (read_line T) (lines_of data))"

definition section_of :: "ini \<Rightarrow> qstring \<Rightarrow> (qstring \<times> qstring) list" where
  "section_of m s = (case map_of m s of None \<Rightarrow> [] | Some sec \<Rightarrow> sec)"

definition ini_lookup :: "ini \<Rightarrow> qstring \<Rightarrow> qstring \<Rightarrow> qstring option" where
  "ini_lookup m s k = map_of (section_of m s) k"

definition assign :: "qstring \<times> qstring \<times> qstring option \<Rightarrow> ini \<Rightarrow> ini" where
  "assign = (\<lambda>(s, k, v) m.
     AList.update s (case v of None \<Rightarrow> AList.delete k (section_of m s) | Some v \<Rightarrow> AList.update k v (section_of m s)) m)"

text \<open>The tables the class can hold: distinct names.\<close>

definition ini_ok :: "ini \<Rightarrow> bool" where
  "ini_ok m \<longleftrightarrow> distinct (map fst m) \<and> (\<forall>(s, sec) \<in> set m. distinct (map fst sec))"

lemma update_same: "map_of al k = Some v \<Longrightarrow> distinct (map fst al) \<Longrightarrow> AList.update k v al = al"
  by (induction al) (auto split: if_splits)

lemma delete_absent: "map_of al k = None \<Longrightarrow> AList.delete k al = al"
  by (simp add: AList.delete_eq map_of_eq_None_iff filter_id_conv image_iff) force

lemma section_distinct: "ini_ok m \<Longrightarrow> distinct (map fst (section_of m s))"
  by (auto simp: ini_ok_def section_of_def split: option.split dest!: map_of_SomeD)

lemma set_update_subset: "p \<in> set (AList.update k v al) \<Longrightarrow> p = (k, v) \<or> p \<in> set al"
  by (induction al) (auto split: if_splits)

lemma ini_ok_update:
  "ini_ok m \<Longrightarrow> distinct (map fst sec) \<Longrightarrow> ini_ok (AList.update s sec m)"
  by (auto simp: ini_ok_def distinct_update dest!: set_update_subset)

lemma ini_ok_assign: "ini_ok m \<Longrightarrow> ini_ok (assign a m)"
  by (cases a) (auto simp: assign_def section_distinct distinct_update distinct_delete split: option.split
      intro!: ini_ok_update)

lemma index_of_split:
  "index_of c s = Some i \<Longrightarrow> take i s = takeWhile (\<lambda>x. x \<noteq> c) s \<and> drop (i + 1) s = tl (dropWhile (\<lambda>x. x \<noteq> c) s)"
  using takeWhile_eq_take [of "\<lambda>x. x \<noteq> c" s] dropWhile_eq_drop [of "\<lambda>x. x \<noteq> c" s]
  by (simp add: index_of_def drop_Suc tl_drop split: if_splits)

lemma delete_eq: "(if map_of al k \<noteq> None then AList.delete k al else al) = AList.delete k al"
  by (simp add: delete_absent)

lemma update_eq:
  "distinct (map fst al) \<Longrightarrow>
   (if map_of al k = None then AList.update k v al
    else if map_of al k \<noteq> Some v then AList.update k v al else al) = AList.update k v al"
  by (auto simp: update_same)

lemma parse_line_assign:
  assumes "ini_ok m"
  shows "parse_line T line (cur, m) =
    (case read_line T line of
       Nothing \<Rightarrow> (cur, m) | Header s \<Rightarrow> (s, m)
     | Assign k v \<Rightarrow> (cur, if cur = [] then m else assign (cur, k, v) m))"
proof -
  define s where "s = trimmed T line"
  have sec: "(case map_of m cur of None \<Rightarrow> [] | Some sec \<Rightarrow> sec) = section_of m cur"
    by (simp add: section_of_def)
  have dist: "distinct (map fst (section_of m cur))"
    using assms by (rule section_distinct)
  have ind: "(index_of EQUALS s = None) = (EQUALS \<notin> set s)"
    by (simp add: index_of_def)
  show ?thesis
  proof (cases "index_of EQUALS s")
    case None
    then show ?thesis
      using ind
      by (auto simp: parse_line_def read_line_def Let_def ini_normalize_def starts_with_def ends_with_def None
          simp flip: s_def)
  next
    case (Some i)
    then have eq: "EQUALS \<in> set s" using ind by force
    let ?val = "trimmed T (tl (dropWhile (\<lambda>x. x \<noteq> EQUALS) s))"
    note defs = parse_line_def read_line_def Let_def ini_normalize_def starts_with_def ends_with_def
    consider (skip) "s = [] \<or> hd s \<in> {SEMICOLON, HASH}"
      | (head) "s \<noteq> []" "hd s \<notin> {SEMICOLON, HASH}" "hd s = LBRACKET \<and> last s = RBRACKET"
      | (empty) "s \<noteq> []" "hd s \<notin> {SEMICOLON, HASH}" "\<not> (hd s = LBRACKET \<and> last s = RBRACKET)" "?val = []"
      | (val) "s \<noteq> []" "hd s \<notin> {SEMICOLON, HASH}" "\<not> (hd s = LBRACKET \<and> last s = RBRACKET)" "?val \<noteq> []"
      by blast
    then show ?thesis
    proof cases
      case skip
      then show ?thesis by (auto simp: defs simp flip: s_def)
    next
      case head
      then show ?thesis by (auto simp: defs simp flip: s_def)
    next
      case empty
      then show ?thesis
        using index_of_split [OF Some] eq
        by (auto simp: defs sec assign_def delete_absent Some simp flip: s_def)
    next
      case val
      have "(if hd s = LBRACKET \<and> last s = RBRACKET then x else y) = y" for x y :: "qstring \<times> ini"
        using val by auto
      moreover have "(if hd s = LBRACKET \<and> last s = RBRACKET then u else v) = v" for u v :: ini_line
        using val by auto
      ultimately show ?thesis
        using val(1,2,4) index_of_split [OF Some] eq
        by (simp add: defs sec assign_def update_eq [OF dist, simplified] Some flip: s_def)
    qed
  qed
qed

section \<open>A history of chunks\<close>

lemma fold_parse_line:
  assumes "ini_ok m"
  shows "snd (fold (parse_line T) ls (cur, m)) = fold assign (assignments cur (map (read_line T) ls)) m"
    and "ini_ok (snd (fold (parse_line T) ls (cur, m)))"
  using assms
  by (induction ls arbitrary: cur m)
     (auto simp: parse_line_assign ini_ok_assign split: ini_line.split)

lemma ini_ok_parse: "ini_ok m \<Longrightarrow> ini_ok (parse T chunk m)"
  using fold_parse_line(2) [of m T "lines_of (from_utf8 T chunk)" "[]"] by (simp add: parse_def parse_text_def)

lemma parse_assign:
  "ini_ok m \<Longrightarrow> parse T chunk m = fold assign (chunk_assignments T (from_utf8 T chunk)) m"
  by (simp add: parse_def parse_text_def chunk_assignments_def fold_parse_line)

definition history :: "'d qt_text \<Rightarrow> 8 word list list \<Rightarrow> (qstring \<times> qstring \<times> qstring option) list" where
  "history T chunks = concat (map (\<lambda>c. chunk_assignments T (from_utf8 T c)) chunks)"

lemma ini_ok_empty [simp]: "ini_ok []"
  by (simp add: ini_ok_def)

lemma ini_lookup_empty [simp]: "ini_lookup [] s k = None"
  by (simp add: ini_lookup_def section_of_def)

lemma parse_history:
  "ini_ok m \<Longrightarrow> fold (parse T) chunks m = fold assign (history T chunks) m \<and> ini_ok (fold (parse T) chunks m)"
proof (induction chunks arbitrary: m)
  case (Cons c chunks)
  note IH = Cons.IH [OF ini_ok_parse [OF Cons.prems, of T c]]
  have "fold (parse T) (c # chunks) m = fold assign (history T chunks) (parse T c m)"
    using IH by simp
  also have "\<dots> = fold assign (history T (c # chunks)) m"
    by (simp add: parse_assign [OF Cons.prems] history_def)
  finally show ?case
    using IH by (metis fold_simps(2))
qed (simp add: history_def)

lemma map_of_assign: "map_of (assign (s, k, v) m) t =
    (if t = s then Some (case v of None \<Rightarrow> AList.delete k (section_of m s) | Some v \<Rightarrow> AList.update k v (section_of m s))
     else map_of m t)"
  by (simp add: assign_def update_conv')

lemma lookup_assign:
  "ini_lookup (assign (s, k, v) m) t j = (if t = s \<and> j = k then v else ini_lookup m t j)"
  by (auto simp: ini_lookup_def section_of_def map_of_assign update_conv' delete_conv' split: option.split)

text \<open>The reference: the last assignment to a key decides.\<close>

definition last_assigned ::
    "(qstring \<times> qstring \<times> qstring option) list \<Rightarrow> qstring \<Rightarrow> qstring \<Rightarrow> qstring option \<Rightarrow> qstring option" where
  "last_assigned as s k old =
     (case filter (\<lambda>(t, j, _). t = s \<and> j = k) as of [] \<Rightarrow> old | b # bs \<Rightarrow> snd (snd (last (b # bs))))"

lemma lookup_fold_assign:
  "ini_lookup (fold assign as m) s k = last_assigned as s k (ini_lookup m s k)"
proof (induction as rule: rev_induct)
  case (snoc a as)
  obtain t j v where "a = (t, j, v)" by (cases a)
  with snoc show ?case
    by (cases "filter (\<lambda>(t, j, _). t = s \<and> j = k) as")
       (auto simp: last_assigned_def lookup_assign split: list.split)
qed (simp add: last_assigned_def)

lemma sections_fold_assign: "fst ` set (fold assign as m) = fst ` set m \<union> fst ` set as"
proof (induction as arbitrary: m)
  case (Cons a as)
  obtain t j v where "a = (t, j, v)" by (cases a)
  with Cons show ?case by (simp add: assign_def dom_update Un_ac)
qed simp

text \<open>
  Property C24: the table after any sequence of chunks. Names are distinct; the value of a key is the one of
  the last assignment to it, in whatever chunk, and a key whose last assignment is empty is gone; a section
  exists once any assignment was made in it, even one that deletes; and the sections are listed once each,
  in order.
\<close>

theorem ini_last_assignment:
  "let m = fold (parse T) chunks [] in
     ini_ok m \<and>
     (\<forall>s k. ini_lookup m s k = last_assigned (history T chunks) s k None) \<and>
     (\<forall>s. hasSection T m s = (lower T s \<in> fst ` set (history T chunks))) \<and>
     set (sections m []) = fst ` set (history T chunks) \<and> sorted (sections m []) \<and> distinct (sections m [])"
proof -
  have "fold (parse T) chunks [] = fold assign (history T chunks) []" and ok: "ini_ok (fold (parse T) chunks [])"
    using parse_history [OF ini_ok_empty, of T chunks] by blast+
  moreover have "map_of m s \<noteq> None \<longleftrightarrow> s \<in> fst ` set m" for m :: ini and s
    by (simp add: map_of_eq_None_iff)
  ultimately show ?thesis
    using ok sections_fold_assign [of "history T chunks" "[]"] lookup_fold_assign [of "history T chunks" "[]"]
    by (simp add: Let_def hasSection_def ini_normalize_def sections_def ini_ok_def)
qed

section \<open>Names\<close>

lemma assignments_lower:
  "(\<And>l k v. l \<in> set ls \<Longrightarrow> l = Assign k v \<Longrightarrow> k \<in> A) \<Longrightarrow> (s, k, v) \<in> set (assignments cur ls) \<Longrightarrow> k \<in> A"
  by (induction cur ls rule: assignments.induct) (auto split: if_splits)

lemma read_line_lower: "read_line T l = Assign k v \<Longrightarrow> k \<in> range (lower T)"
  by (auto simp: read_line_def Let_def split: if_splits)

lemma history_lower: "(s, k, v) \<in> set (history T chunks) \<Longrightarrow> k \<in> range (lower T)"
  by (auto simp: history_def chunk_assignments_def dest: read_line_lower [OF sym]
      elim!: assignments_lower [rotated, where A = "range (lower T)"])

lemma last_assigned_None:
  "(\<And>v. (s, k, v) \<notin> set as) \<Longrightarrow> last_assigned as s k old = old"
proof -
  assume "\<And>v. (s, k, v) \<notin> set as"
  then have "filter (\<lambda>(t, j, _). t = s \<and> j = k) as = []"
    by (auto simp: filter_empty_conv)
  then show ?thesis by (simp add: last_assigned_def)
qed

lemma get_lookup:
  "get T m s k def = (case ini_lookup m (lower T s) k of None \<Rightarrow> def | Some v \<Rightarrow> QText v)"
  "hasKey T m s k \<longleftrightarrow> ini_lookup m (lower T s) k \<noteq> None"
  "set (keys T m s) = {k. ini_lookup m (lower T s) k \<noteq> None}"
  using dom_map_of_conv_image_fst [of "section_of m (lower T s)"]
  by (auto simp: get_def hasKey_def keys_def ini_lookup_def section_of_def ini_normalize_def dom_def
      split: option.splits)

text \<open>
  \<^verbatim>\<open>parse\<close> stores names in lower case, the getters convert the section but not the key. So
  sections are found in any case, all keys that \<^verbatim>\<open>keys\<close> lists are in lower case, and a key given with an upper
  case letter is never found, whatever was parsed, although the text may contain it exactly as given.
\<close>

theorem ini_key_case:
  assumes "\<And>s. lower T (lower T s) = lower T s" and "lower T k \<noteq> k"
  shows "let m = fold (parse T) chunks [] in
    get T m s k def = def \<and> \<not> hasKey T m s k \<and>
    getInt T m s j i = getInt T m (lower T s) j i \<and> get T m s j def = get T m (lower T s) j def \<and>
    (\<forall>j \<in> set (keys T m s). lower T j = j)"
proof -
  have fold: "fold (parse T) chunks [] = fold assign (history T chunks) []"
    using parse_history [OF ini_ok_empty, of T chunks] by simp
  have none: "ini_lookup (fold assign (history T chunks) []) t j = None" if "lower T j \<noteq> j" for t j
  proof -
    have "(t, j, v) \<notin> set (history T chunks)" for v
      using history_lower [of t j v T chunks] that assms(1) by auto
    then show ?thesis
      by (simp add: lookup_fold_assign last_assigned_None)
  qed
  moreover have "lower T j = j" if "ini_lookup (fold assign (history T chunks) []) t j \<noteq> None" for t j
    by (rule ccontr) (use none that in simp)
  ultimately show ?thesis
    using assms by (simp add: Let_def fold get_lookup getInt_def)
qed

section \<open>Writing and reading\<close>

definition key_line :: "qstring \<times> qstring \<Rightarrow> qstring" where
  "key_line = (\<lambda>(k, v). k @ [EQUALS, QUOTE] @ v @ [QUOTE])"

definition header_line :: "qstring \<Rightarrow> qstring" where
  "header_line s = [LBRACKET] @ s @ [RBRACKET]"

definition ini_lines :: "ini \<Rightarrow> qstring list" where
  "ini_lines m = concat (map (\<lambda>(s, sec). header_line s # map key_line sec) m)"

definition render :: "ini \<Rightarrow> qstring" where
  "render m = concat (map (\<lambda>l. l @ [NL]) (ini_lines m))"

definition name_ok :: "'d qt_text \<Rightarrow> qstring \<Rightarrow> bool" where
  "name_ok T s \<longleftrightarrow> s \<noteq> [] \<and> NL \<notin> set s \<and> \<not> is_space T (hd s) \<and> \<not> is_space T (last s) \<and> lower T s = s"

definition writable :: "'d qt_text \<Rightarrow> ini \<Rightarrow> bool" where
  "writable T m \<longleftrightarrow> ini_ok m \<and>
     (\<forall>(s, sec) \<in> set m. name_ok T s \<and> sec \<noteq> [] \<and>
        (\<forall>(k, v) \<in> set sec. name_ok T k \<and> EQUALS \<notin> set k \<and> hd k \<notin> {SEMICOLON, HASH} \<and> NL \<notin> set v))"

lemma split_at_line:
  "c \<notin> set l \<Longrightarrow> split_at c (l @ c # rest) = l # split_at c rest"
  by (induction l) auto

lemma lines_of_concat:
  "(\<And>l. l \<in> set ls \<Longrightarrow> l \<noteq> [] \<and> NL \<notin> set l) \<Longrightarrow> lines_of (concat (map (\<lambda>l. l @ [NL]) ls)) = ls"
  by (induction ls) (auto simp: lines_of_def split_at_line)

lemma trimmed_id: "s \<noteq> [] \<Longrightarrow> \<not> is_space T (hd s) \<Longrightarrow> \<not> is_space T (last s) \<Longrightarrow> trimmed T s = s"
  by (simp add: trimmed_def dropWhile_eq_self_iff [THEN iffD2] hd_rev)

lemma inner_enclosed [simp]: "inner (a # s @ [b]) = s"
  by (simp add: inner_def)

lemma read_header:
  assumes "name_ok T s" and "\<forall>c \<in> {LBRACKET, RBRACKET, QUOTE}. \<not> is_space T c"
  shows "read_line T (header_line s) = Header s"
proof -
  have "trimmed T (header_line s) = header_line s" and "trimmed T s = s"
    using assms by (simp_all add: header_line_def name_ok_def trimmed_id)
  then show ?thesis
    using assms(1) by (simp add: read_line_def header_line_def name_ok_def char_defs)
qed

lemma read_key:
  assumes "name_ok T k" and "EQUALS \<notin> set k" and "hd k \<notin> {SEMICOLON, HASH}"
    and "\<forall>c \<in> {LBRACKET, RBRACKET, QUOTE}. \<not> is_space T c"
  shows "read_line T (key_line (k, v)) = Assign k (Some v)"
proof -
  have trim: "trimmed T (key_line (k, v)) = key_line (k, v)" "trimmed T (QUOTE # v @ [QUOTE]) = QUOTE # v @ [QUOTE]"
    "trimmed T k = k"
    using assms by (simp_all add: key_line_def name_ok_def trimmed_id)
  have part: "takeWhile (\<lambda>x. x \<noteq> EQUALS) (key_line (k, v)) = k"
    "tl (dropWhile (\<lambda>x. x \<noteq> EQUALS) (key_line (k, v))) = QUOTE # v @ [QUOTE]"
    using assms(2) by (auto simp: key_line_def takeWhile_append dropWhile_append dropWhile_eq_Nil_conv)
  have "hd (key_line (k, v)) = hd k" "last (key_line (k, v)) = QUOTE" "EQUALS \<in> set (key_line (k, v))"
    "key_line (k, v) \<noteq> []"
    using assms(1) by (simp_all add: key_line_def name_ok_def)
  then show ?thesis
    using assms(1,3) by (auto simp: read_line_def trim part name_ok_def Let_def) (auto simp: char_defs)
qed

lemma assignments_ini_lines:
  assumes "writable T m" and "\<forall>c \<in> {LBRACKET, RBRACKET, QUOTE}. \<not> is_space T c"
  shows "assignments cur (map (read_line T) (ini_lines m)) =
    concat (map (\<lambda>(s, sec). map (\<lambda>(k, v). (s, k, Some v)) sec) m)"
proof -
  have sec: "assignments s (map (read_line T) (map key_line sec) @ ls) =
      map (\<lambda>(k, v). (s, k, Some v)) sec @ assignments s ls"
    if "s \<noteq> []" "\<forall>(k, v) \<in> set sec. name_ok T k \<and> EQUALS \<notin> set k \<and> hd k \<notin> {SEMICOLON, HASH} \<and> NL \<notin> set v"
    for s sec ls
    using that(2)
  proof (induction sec)
    case (Cons p sec)
    obtain k v where p: "p = (k, v)" by (cases p)
    have "read_line T (key_line (k, v)) = Assign k (Some v)"
      using Cons.prems assms(2) by (intro read_key) (simp_all add: p)
    with Cons that(1) show ?case by (simp add: p)
  qed simp
  show ?thesis
    using assms(1)
  proof (induction m arbitrary: cur)
    case (Cons p m)
    obtain s kvs where p: "p = (s, kvs)" by (cases p)
    have ok: "name_ok T s" "s \<noteq> []"
      "\<forall>(k, v) \<in> set kvs. name_ok T k \<and> EQUALS \<notin> set k \<and> hd k \<notin> {SEMICOLON, HASH} \<and> NL \<notin> set v"
      and rest: "writable T m"
      using Cons.prems by (auto simp: writable_def p ini_ok_def name_ok_def)
    show ?case
      using sec [OF ok(2,3), of "map (read_line T) (ini_lines m)"] Cons.IH [OF rest]
      by (simp add: p ini_lines_def read_header [OF ok(1) assms(2)])
  qed (simp add: ini_lines_def)
qed

lemma update_fresh: "k \<notin> fst ` set al \<Longrightarrow> AList.update k v al = al @ [(k, v)]"
  by (induction al) auto

lemma update_last: "s \<notin> fst ` set m \<Longrightarrow> AList.update s y (m @ [(s, x)]) = m @ [(s, y)]"
  by (induction m) auto

lemma section_of_last: "s \<notin> fst ` set m \<Longrightarrow> section_of (m @ [(s, x)]) s = x"
  by (simp add: section_of_def map_add_def map_of_eq_None_iff [symmetric])

lemma section_of_fresh: "s \<notin> fst ` set m \<Longrightarrow> section_of m s = []"
  by (simp add: section_of_def map_of_eq_None_iff [THEN iffD2])

lemma assign_section:
  assumes "s \<notin> fst ` set m"
  shows "distinct (map fst (old @ kvs)) \<Longrightarrow>
    fold assign (map (\<lambda>(k, v). (s, k, Some v)) kvs) (m @ [(s, old)]) = m @ [(s, old @ kvs)]"
proof (induction kvs arbitrary: old)
  case (Cons p kvs)
  obtain k v where p: "p = (k, v)" by (cases p)
  with Cons.prems have "k \<notin> fst ` set old" by auto
  then have "assign (s, k, Some v) (m @ [(s, old)]) = m @ [(s, old @ [(k, v)])]"
    using assms by (simp add: assign_def section_of_last update_last update_fresh)
  then show ?case
    using Cons.IH [of "old @ [p]"] Cons.prems by (simp add: p)
qed simp

lemma assign_ini:
  assumes "ini_ok (m @ m')" and "\<forall>(s, sec) \<in> set m'. sec \<noteq> []"
  shows "fold assign (concat (map (\<lambda>(s, sec). map (\<lambda>(k, v). (s, k, Some v)) sec) m')) m = m @ m'"
  using assms
proof (induction m' arbitrary: m)
  case (Cons p m')
  obtain s k v kvs where p: "p = (s, (k, v) # kvs)"
    using Cons.prems(2) by (cases p; cases "snd p") auto
  have fresh: "s \<notin> fst ` set m" and dist: "distinct (map fst ([(k, v)] @ kvs))"
    using Cons.prems(1) by (auto simp: ini_ok_def p)
  have "assign (s, k, Some v) m = m @ [(s, [(k, v)])]"
    using fresh by (simp add: assign_def section_of_fresh update_fresh)
  then show ?case
    using Cons.IH [of "m @ [p]"] Cons.prems assign_section [OF fresh dist] by (simp add: p)
qed simp

text \<open>
  Property C25: what is written is read back. A table with clean lower-case names, without empty sections,
  written with its values in quotes, is read back exactly from the empty table; a value may hold anything
  but a line break, also quotes, equals signs and brackets.
\<close>

theorem ini_roundtrip:
  assumes "\<forall>c \<in> {LBRACKET, RBRACKET, QUOTE}. \<not> is_space T c"
    and "writable T m" and "from_utf8 T chunk = render m"
  shows "parse T chunk [] = m"
proof -
  have "l \<noteq> [] \<and> NL \<notin> set l" if "l \<in> set (ini_lines m)" for l
    using that assms(2)
    by (fastforce simp: ini_lines_def header_line_def key_line_def writable_def name_ok_def char_defs)
  then have "lines_of (render m) = ini_lines m"
    unfolding render_def by (rule lines_of_concat)
  then have "chunk_assignments T (render m) = concat (map (\<lambda>(s, sec). map (\<lambda>(k, v). (s, k, Some v)) sec) m)"
    unfolding chunk_assignments_def using assignments_ini_lines [OF assms(2,1)] by metis
  then have "parse T chunk [] = fold assign (concat (map (\<lambda>(s, sec). map (\<lambda>(k, v). (s, k, Some v)) sec) m)) []"
    by (simp add: parse_assign assms(3))
  also have "\<dots> = m"
    using assign_ini [of "[]" m] assms(2) by (auto simp: writable_def)
  finally show ?thesis .
qed

section \<open>Typed getters\<close>

text \<open>A missing key gives the default, when numbers are read back as they are written.\<close>

lemma getters_default:
  assumes "\<And>i. to_int T (int_text T i) = Some i" and "\<And>d. to_double T (double_text T d) = Some d"
    and "\<not> hasKey T m s k" and "trimmed T [] = []" and "lower T [] = []"
  shows "getInt T m s k i = i" and "getDouble T m s k d = d" and "getBool T m s k b = b"
  using assms by (simp_all add: getInt_def getDouble_def getBool_def get_lookup chars_def)

text \<open>An ASCII environment.\<close>

definition ascii_text :: "unit qt_text" where
  "ascii_text = \<lparr>from_utf8 = map unat, is_space = (\<lambda>c. c \<in> {9, 10, 11, 12, 13, 32}),
     lower = map (\<lambda>c. if 65 \<le> c \<and> c \<le> 90 then c + 32 else c),
     int_text = (\<lambda>i. if 0 \<le> i then chars (dec (nat i)) else 45 # chars (dec (nat (- i)))),
     to_int = (\<lambda>s. None), double_text = (\<lambda>_. []), to_double = (\<lambda>_. Some ())\<rparr>"

lemma ascii_lower_idem: "lower ascii_text (lower ascii_text s) = lower ascii_text s"
  by (simp add: ascii_text_def)

definition sample_chunk :: "8 word list" where
  "sample_chunk = map of_char ''[Cam0]'' @ [10] @ map of_char ''URL=x''"

theorem ini_key_case_witness:
  "get ascii_text (parse ascii_text sample_chunk []) (chars ''CAM0'') (chars ''URL'') Invalid = Invalid \<and>
   get ascii_text (parse ascii_text sample_chunk []) (chars ''CAM0'') (chars ''url'') Invalid = QText (chars ''x'')"
proof -
  have "lower ascii_text (chars ''URL'') \<noteq> chars ''URL''"
    by code_simp
  then have "let m = fold (parse ascii_text) [sample_chunk] [] in
      get ascii_text m (chars ''CAM0'') (chars ''URL'') Invalid = Invalid"
    using ini_key_case [of ascii_text "chars ''URL''" "[sample_chunk]" "chars ''CAM0''" Invalid, OF ascii_lower_idem]
    unfolding Let_def by blast
  moreover have "get ascii_text (parse ascii_text sample_chunk []) (chars ''CAM0'') (chars ''url'') Invalid =
      QText (chars ''x'')"
    by code_simp
  ultimately show ?thesis by (simp add: Let_def)
qed

theorem ini_roundtrip_witness:
  "parse ascii_text (map of_char ''[cam0]'' @ [10] @ map of_char ''url='' @ [34] @ map of_char ''a=b'' @ [34, 10]) [] =
     [(chars ''cam0'', [(chars ''url'', chars ''a=b'')])]"
proof (rule ini_roundtrip)
  show "writable ascii_text [(chars ''cam0'', [(chars ''url'', chars ''a=b'')])]" by code_simp
  show "from_utf8 ascii_text (map of_char ''[cam0]'' @ [10] @ map of_char ''url='' @ [34] @ map of_char ''a=b'' @ [34, 10]) =
      render [(chars ''cam0'', [(chars ''url'', chars ''a=b'')])]" by code_simp
qed (auto simp: ascii_text_def char_defs)

section \<open>The example program\<close>

text \<open>\<^verbatim>\<open>inistream/main.cpp\<close>: three chunks; the keys and values of the section after the first and after the second
  one are printed. The last component is the table at the end.\<close>

definition chunk_of :: "string list \<Rightarrow> 8 word list" where
  "chunk_of ls = 10 # concat (map (\<lambda>l. map of_char l @ [10]) ls)"

definition ini_main :: "'d qt_text \<Rightarrow> (qstring \<times> qstring) list \<times> (qstring \<times> qstring) list \<times> ini" where
  "ini_main T =
     (let cam0 = chars ''cam0'';
          shown = (\<lambda>cfg. map (\<lambda>key. (key, toString T (get T cfg cam0 key Invalid))) (keys T cfg cam0));
          cfg = parse T (chunk_of [''[cam0]'', ''URL=http://example.com'', ''Path=C:'' @ [CHR 0x5C] @ ''Data'', ''enabled=yes'']) [];
          first = shown cfg;
          cfg = parse T (chunk_of [''[cam0]'', ''URL='']) cfg;
          second = shown cfg;
          cfg = parse T (chunk_of [''[cam0]'', ''Path=C:'' @ [CHR 0x5C] @ ''Da_ta'']) cfg
      in (first, second, cfg))"

lemma ini_main_output:
  "ini_main ascii_text =
     ([(chars ''enabled'', chars ''yes''), (chars ''path'', chars (''C:'' @ [CHR 0x5C] @ ''Data'')),
       (chars ''url'', chars ''http://example.com'')],
      [(chars ''enabled'', chars ''yes''), (chars ''path'', chars (''C:'' @ [CHR 0x5C] @ ''Data''))],
      [(chars ''cam0'', [(chars ''path'', chars (''C:'' @ [CHR 0x5C] @ ''Da_ta'')), (chars ''enabled'', chars ''yes'')])])"
  by code_simp

end
