(* ===== verification/Keypad_Window.thy ===== *)
theory Keypad_Window
  imports Keys_Manager
begin

text \<open>
  The windows of \<^verbatim>\<open>qt/qkeywin\<close> around the key input: \<^verbatim>\<open>MainWindow.cpp\<close>, \<^verbatim>\<open>KbdWidget.cpp\<close> and
  the dialog that \<^verbatim>\<open>MainWindow.cpp\<close> makes. A signal of the manager calls the slots that are
  connected to it; here the slots run on the actions of a manager function in their order, when the function has
  returned. No function reads after a signal what a slot of that signal may write, and the
  signal that starts an edit is the last action of its function. What the library does to
  a widget is kept as far as the program asks for it: visible, read-only, checked, connected.
\<close>

section \<open>Widgets\<close>

definition lineEdit :: widget where "lineEdit = 0"
definition textEdit :: widget where "textEdit = 1"
definition lineEditDigits :: widget where "lineEditDigits = 2"
definition spinBox :: widget where "spinBox = 3"
definition main_window :: widget where "main_window = 4"
definition key_dialog :: widget where "key_dialog = 5"

lemmas widget_defs = lineEdit_def textEdit_def lineEditDigits_def spinBox_def main_window_def key_dialog_def

text \<open>The buttons \<^verbatim>\<open>btn_N0\<close> to \<^verbatim>\<open>btn_N9\<close> have the numbers 0 to 9.\<close>

definition btnOK :: button where "btnOK = 10"
definition btnCancel :: button where "btnCancel = 11"
definition btnShift :: button where "btnShift = 12"
definition btnUp :: button where "btnUp = 13"
definition btnDown :: button where "btnDown = 14"
definition pushButton :: button where "pushButton = 15"

lemmas button_defs = btnOK_def btnCancel_def btnShift_def btnUp_def btnDown_def pushButton_def


section \<open>State\<close>

datatype page = Page_main | Page_edit

text \<open>
  \<open>wn_watched\<close> is the static table of managers; \<open>None\<close> as a key is a widget that no longer exists.
  \<open>wn_steps\<close> sums up the steps that the spin box was told to make, \<open>wn_connected\<close> are the connections
  of the buttons with its steps; \<open>wn_dialog\<close> is whether the dialog is open, \<open>wn_results\<close> what it returned.
\<close>

record window =
  wn_watched :: "widget option \<rightharpoonup> keys_manager"
  wn_page :: page
  wn_shift_checked :: bool
  wn_check_box :: bool
  wn_read_only :: "widget \<Rightarrow> bool"
  wn_visible :: "button \<Rightarrow> bool"
  wn_connected :: "(button \<times> string) list"
  wn_label :: "nat list"
  wn_steps :: int
  wn_dialog :: bool
  wn_results :: "int list"


section \<open>Slots\<close>

definition onStartEdit :: "window \<Rightarrow> window" where
  "onStartEdit w = w\<lparr>wn_page := Page_edit\<rparr>"

definition onEditDone :: "window \<Rightarrow> window" where
  "onEditDone w = w\<lparr>wn_page := Page_main\<rparr>"

text \<open>
  \<^verbatim>\<open>setChecked\<close> of the button for the shift: a change is signalled to \<^verbatim>\<open>setShift\<close>, whose own signal finds
  the button as it should be.
\<close>

definition shift_checked :: "bool \<Rightarrow> window \<Rightarrow> window" where
  "shift_checked fl w =
     (if wn_shift_checked w = fl then w
      else w\<lparr>wn_shift_checked := fl,
             wn_watched := (wn_watched w)(Some main_window := map_option (\<lambda>k. fst (setShift fl k)) (wn_watched w (Some main_window)))\<rparr>)"

text \<open>An action of the manager of the window, but for the signal of a function key.\<close>

definition win_act :: "km_act \<Rightarrow> window \<Rightarrow> window" where
  "win_act a w =
     (case a of
        Emit_shift fl \<Rightarrow> shift_checked fl w
      | Set_visible b v \<Rightarrow> w\<lparr>wn_visible := (wn_visible w)(b := v)\<rparr>
      | Set_label t \<Rightarrow> w\<lparr>wn_label := t\<rparr>
      | Set_read_only x v \<Rightarrow> w\<lparr>wn_read_only := (wn_read_only w)(x := v)\<rparr>
      | Connect b slot \<Rightarrow> w\<lparr>wn_connected := wn_connected w @ [(b, slot)]\<rparr>
      | Disconnect b slot \<Rightarrow> w\<lparr>wn_connected := filter (\<lambda>c. c \<noteq> (b, slot)) (wn_connected w)\<rparr>
      | Emit_start_edit _ \<Rightarrow> onStartEdit w
      | Emit_edit_done _ _ \<Rightarrow> onEditDone w
      | Step_up _ \<Rightarrow> w\<lparr>wn_steps := wn_steps w + 1\<rparr>
      | Step_down _ \<Rightarrow> w\<lparr>wn_steps := wn_steps w - 1\<rparr>
      | _ \<Rightarrow> w)"





section \<open>Construction\<close>

definition key_buttons :: edit_buttons where
  "key_buttons = \<lparr>eb_ok = Some btnOK, eb_cancel = Some btnCancel, eb_shift = Some btnShift, eb_up = Some btnUp,
     eb_down = Some btnDown\<rparr>"





section \<open>The machine\<close>





section \<open>The invariant\<close>

text \<open>How the window looks while its manager is in a given state.\<close>

definition win_ok :: "keys_manager \<Rightarrow> window \<Rightarrow> bool" where
  "win_ok k w \<longleftrightarrow>
     editButtons k = key_buttons \<and> slaveButtons k = (\<lambda>i. if i < 10 then Some i else None) \<and>
     (editor k \<noteq> None \<longrightarrow> the (editor k) \<in> {lineEdit, textEdit, lineEditDigits, spinBox} \<and>
        flDigits k = (the (editor k) \<in> {lineEditDigits, spinBox})) \<and>
     (flShift k \<longrightarrow> editor k \<noteq> None \<and> \<not> flDigits k) \<and>
     (wn_page w = Page_edit \<longleftrightarrow> editor k \<noteq> None) \<and>
     wn_read_only w = (\<lambda>x. editor k \<noteq> Some x) \<and>
     wn_shift_checked w = flShift k \<and>
     wn_visible w btnOK = (editor k \<noteq> None) \<and> wn_visible w btnCancel = (editor k \<noteq> None) \<and>
     wn_visible w btnShift = (editor k \<noteq> None \<and> \<not> flDigits k) \<and>
     wn_visible w btnUp = (editor k = Some spinBox) \<and> wn_visible w btnDown = (editor k = Some spinBox) \<and>
     filter (\<lambda>c. c = (btnUp, ''stepUp'')) (wn_connected w) = (if editor k = Some spinBox then [(btnUp, ''stepUp'')] else []) \<and>
     filter (\<lambda>c. c = (btnDown, ''stepDown'')) (wn_connected w) =
       (if editor k = Some spinBox then [(btnDown, ''stepDown'')] else [])"

definition win_inv :: "window \<Rightarrow> bool" where
  "win_inv w \<longleftrightarrow> (\<exists>k d. wn_watched w = [Some main_window \<mapsto> k, Some key_dialog \<mapsto> d] \<and> km_inv k \<and> km_inv d \<and>
     editor d = None \<and> win_ok k w)"


lemma main_not_dialog [simp]: "main_window \<noteq> key_dialog" "key_dialog \<noteq> main_window"
  by (simp_all add: widget_defs)

lemma buttons_distinct [simp]:
  "btnOK \<noteq> btnCancel" "btnOK \<noteq> btnShift" "btnOK \<noteq> btnUp" "btnOK \<noteq> btnDown" "btnCancel \<noteq> btnOK"
  "btnCancel \<noteq> btnShift" "btnCancel \<noteq> btnUp" "btnCancel \<noteq> btnDown" "btnShift \<noteq> btnOK" "btnShift \<noteq> btnCancel"
  "btnShift \<noteq> btnUp" "btnShift \<noteq> btnDown" "btnUp \<noteq> btnOK" "btnUp \<noteq> btnCancel" "btnUp \<noteq> btnShift" "btnUp \<noteq> btnDown"
  "btnDown \<noteq> btnOK" "btnDown \<noteq> btnCancel" "btnDown \<noteq> btnShift" "btnDown \<noteq> btnUp"
  by (simp_all add: button_defs)


definition same_view :: "window \<Rightarrow> window \<Rightarrow> bool" where
  "same_view w' w \<longleftrightarrow> w'\<lparr>wn_label := wn_label w, wn_steps := wn_steps w\<rparr> = w"



lemma win_inv_label_steps [simp]: "win_inv (w\<lparr>wn_label := t, wn_steps := n\<rparr>) = win_inv w"
  by (simp add: win_inv_def win_ok_def)


text \<open>What \<open>win_ok\<close> reads of a manager.\<close>

definition core :: "keys_manager \<Rightarrow> widget option \<times> bool \<times> bool \<times> edit_buttons \<times> (nat \<rightharpoonup> button)" where
  "core k = (editor k, flShift k, flDigits k, editButtons k, slaveButtons k)"


lemma win_ok_watched [simp]: "win_ok k (w\<lparr>wn_watched := t\<rparr>) = win_ok k w"
  by (simp add: win_ok_def)












section \<open>Every step keeps the invariant\<close>













lemma core_quiet [simp]: "core (quiet_pad k) = core k"
  by (simp add: core_def quiet_pad_def)




lemma win_inv_frame [simp]:
  "win_inv (w\<lparr>wn_steps := n\<rparr>) = win_inv w" "win_inv (w\<lparr>wn_check_box := c\<rparr>) = win_inv w"
  "win_inv (w\<lparr>wn_dialog := b\<rparr>) = win_inv w"
  by (simp_all add: win_inv_def win_ok_def)


section \<open>The window at work\<close>






lemma check_box_acts [simp]: "wn_check_box (fold win_act as w) = wn_check_box w"
proof (induction as arbitrary: w)
  case (Cons a as)
  have "wn_check_box (win_act a w) = wn_check_box w"
    by (simp add: win_act_def shift_checked_def onStartEdit_def onEditDone_def split: km_act.split)
  then show ?case using Cons by simp
qed simp










end
