(* ===== verification/Virtual_Keyboard.thy ===== *)
theory Virtual_Keyboard
  imports Prelude
begin





section \<open>The input context\<close>








section \<open>The panel\<close>



section \<open>The machine\<close>





section \<open>Who gets the text\<close>











end
