(* ===== verification/Fork_Stdio.thy ===== *)
theory Fork_Stdio
  imports Prelude
begin

text \<open>
  The programs of \<^verbatim>\<open>c\<close> that print and fork: \<^verbatim>\<open>printf_fork_printf.c\<close>, \<^verbatim>\<open>printf_fork.c\<close>, \<^verbatim>\<open>fork_demo.c\<close>, and
  \<^verbatim>\<open>fscanf.c\<close>. The standard library keeps the printed text in a buffer of the process, which \<^verbatim>\<open>fork\<close> copies
  with the rest of its memory; a file descriptor and its offset are shared. A program is what it writes
  before the fork and what each process writes after it, and what can be observed is any interleaving of
  the processes. The texts are shorter than a buffer, so a buffer is written out at the end of
  the process, or up to the last line end if the stream is line buffered, as on a terminal.
\<close>

section \<open>Buffered output\<close>

datatype buffering = Line_buffered | Fully_buffered

text \<open>A write to the standard output, and one to the file that the program has opened.\<close>

datatype io = Put string | Put_file string

definition stdio_put :: "buffering \<Rightarrow> string \<Rightarrow> string \<Rightarrow> string \<times> io list" where
  "stdio_put m buf s =
     (let t = buf @ s; rest = rev (takeWhile (\<lambda>c. c \<noteq> CHR 0x0A) (rev t))
      in if m = Fully_buffered \<or> rest = t then (t, [])
         else (rest, [Put (take (length t - length rest) t)]))"

definition exit_flush :: "string \<Rightarrow> io list" where
  "exit_flush buf = (if buf = [] then [] else [Put buf])"

fun stdout_of :: "io list \<Rightarrow> string" where
  "stdout_of [] = []"
| "stdout_of (Put s # w) = s @ stdout_of w"
| "stdout_of (Put_file s # w) = stdout_of w"

fun file_of :: "io list \<Rightarrow> string" where
  "file_of [] = []"
| "file_of (Put s # w) = file_of w"
| "file_of (Put_file s # w) = s @ file_of w"

text \<open>The writes before the fork, those of the parent, and those of the child if there is one.\<close>

type_synonym forked = "io list \<times> io list \<times> io list option"

definition observable :: "forked \<Rightarrow> io list set" where
  "observable = (\<lambda>(before, parent, child).
     (\<lambda>w. before @ w) ` (case child of None \<Rightarrow> {parent} | Some child \<Rightarrow> shuffles parent child))"

section \<open>The programs\<close>

text \<open>\<open>child\<close> is the process id of the new process, \<open>None\<close> if \<^verbatim>\<open>fork\<close> fails.\<close>

definition printf_fork_printf :: "buffering \<Rightarrow> nat option \<Rightarrow> forked" where
  "printf_fork_printf m child =
     (let (buf, before) = stdio_put m [] ''Hello... '';
          bye = (let (buf, as) = stdio_put m buf ''Bye!'' in as @ exit_flush buf)
      in (before, bye, map_option (\<lambda>_. bye) child))"

text \<open>C leaves open which argument of a call is evaluated first: \<open>pid_first\<close> says that \<^verbatim>\<open>getpid()\<close> is.\<close>

definition printf_fork :: "bool \<Rightarrow> buffering \<Rightarrow> nat \<Rightarrow> nat option \<Rightarrow> forked" where
  "printf_fork pid_first m pid child =
     (let (buf, before) = stdio_put m [] (''printf: Before fork, pid:'' @ dec_int (int pid) @ '' ...'');
          after = (\<lambda>forked own.
            let (buf, as) = stdio_put m buf
                  (''fork:'' @ dec_int forked @ '' pid:'' @ dec_int (int own) @ '' '' @ newline)
            in as @ exit_flush buf)
      in (before,
          after (case child of None \<Rightarrow> -1 | Some c \<Rightarrow> int c) pid,
          map_option (\<lambda>c. after 0 (if pid_first then pid else c)) child))"

text \<open>\<open>None\<close>: \<^verbatim>\<open>malloc\<close> has failed and \<^verbatim>\<open>sprintf\<close> writes to a null pointer. \<open>fd_ok\<close>: the file could be opened;
  otherwise its writes fail and nothing looks at that.\<close>

definition fork_demo :: "bool \<Rightarrow> bool \<Rightarrow> buffering \<Rightarrow> nat option \<Rightarrow> forked option" where
  "fork_demo malloc_ok fd_ok m child =
     (if \<not> malloc_ok then None
      else
        let val = 10 :: int;
            write_fd = (\<lambda>s. if fd_ok then [Put_file s] else []);
            p = ''Hello'';
            (buf, as) = stdio_put m [] (p @ ''-'' @ dec_int val @ '' '');
            before = as @ write_fd p;
            after = (\<lambda>forked.
              let val = (if forked \<noteq> (0 :: int) then val + 1 else val);
                  p = ''World!'';
                  (buf, as) = stdio_put m buf (p @ ''-'' @ dec_int val @ '' '')
              in as @ write_fd p @ exit_flush buf)
        in Some (before, after (case child of None \<Rightarrow> -1 | Some c \<Rightarrow> int c), map_option (\<lambda>_. after 0) child))"

text \<open>\<^verbatim>\<open>fscanf.c\<close>: the contents of the file if it can be opened, and what \<^verbatim>\<open>%d\<close> reads from a text. \<open>None\<close>:
  a null pointer is closed.\<close>

definition fscanf_main :: "(string \<Rightarrow> int option) \<Rightarrow> string option \<Rightarrow> string option" where
  "fscanf_main scan_d file =
     (let u = -1;
          u = (case file of None \<Rightarrow> u | Some text \<Rightarrow> (case scan_d text of None \<Rightarrow> u | Some v \<Rightarrow> v))
      in if file = None then None else Some (''=> '' @ dec_int u @ newline))"

section \<open>The discipline of the buffer\<close>

text \<open>Nothing is lost: what was written and what is still in the buffer is what was printed.\<close>

lemma stdio_put_text:
  "stdio_put m buf s = (buf', as) \<Longrightarrow> stdout_of as @ buf' = buf @ s \<and> file_of as = []"
proof -
  assume put: "stdio_put m buf s = (buf', as)"
  let ?t = "buf @ s" and ?P = "\<lambda>c. c \<noteq> CHR 0x0A"
  have "rev (dropWhile ?P (rev ?t)) @ rev (takeWhile ?P (rev ?t)) = ?t"
    by (metis rev_append rev_rev_ident takeWhile_dropWhile_id)
  moreover from this have "take (length ?t - length (takeWhile ?P (rev ?t))) ?t = rev (dropWhile ?P (rev ?t))"
    by (metis append_eq_conv_conj length_append length_rev diff_add_inverse2)
  ultimately show ?thesis
    using put by (auto simp: stdio_put_def Let_def split: if_splits)
qed

text \<open>Without a line end the text stays in the buffer; with one at its end it is written out.\<close>

lemma stdio_put_keeps:
  assumes "m = Fully_buffered \<or> CHR 0x0A \<notin> set buf \<and> CHR 0x0A \<notin> set s"
  shows "stdio_put m buf s = (buf @ s, [])"
proof -
  have "takeWhile (\<lambda>c. c \<noteq> CHR 0x0A) (rev (buf @ s)) = rev (buf @ s)"
    if "CHR 0x0A \<notin> set buf" and "CHR 0x0A \<notin> set s"
    unfolding takeWhile_eq_all_conv using that by (metis UnE set_append set_rev)
  then show ?thesis
    using assms unfolding stdio_put_def Let_def by (metis rev_rev_ident)
qed

lemma stdio_put_line: "stdio_put Line_buffered buf (s @ newline) = ([], [Put (buf @ s @ newline)])"
  by (simp add: stdio_put_def newline_def Let_def)

lemma digit_no_newline: "k < 10 \<Longrightarrow> char_of (48 + k) \<noteq> CHR 0x0A" for k :: nat
proof
  assume "k < 10" and "char_of (48 + k) = CHR 0x0A"
  then have "of_char (char_of (48 + k) :: char) = (of_char (CHR 0x0A) :: nat)" by simp
  with \<open>k < 10\<close> show False by (simp add: of_char_of)
qed

lemma dec_no_newline: "CHR 0x0A \<notin> set (dec n)"
proof (induction n rule: dec.induct)
  case (1 n)
  then show ?case
    using digit_no_newline [of n] digit_no_newline [of "n mod 10"] by (subst dec.simps) (auto simp del: char_of_eq_iff)
qed

lemma dec_int_no_newline: "CHR 0x0A \<notin> set (dec_int i)"
  using dec_no_newline by (simp add: dec_int_def)

section \<open>What can be observed\<close>

lemma shuffles_single: "shuffles [x] [y] = {[x, y], [y, x]}"
  by auto

lemma shuffles_pair: "shuffles [f, x] [f, y] = {[f, x, f, y], [f, f, x, y], [f, f, y, x], [f, y, f, x]}"
  by auto

lemma no_newline [simp]:
  "CHR 0x0A \<notin> set (dec_int i)"
  by (rule dec_int_no_newline)

text \<open>The line of one process of \<^verbatim>\<open>printf_fork.c\<close>, with the text of before the fork.\<close>

definition fork_line :: "nat \<Rightarrow> int \<Rightarrow> nat \<Rightarrow> string" where
  "fork_line pid forked own = ''printf: Before fork, pid:'' @ dec_int (int pid) @ '' ...'' @
     ''fork:'' @ dec_int forked @ '' pid:'' @ dec_int (int own) @ '' '' @ newline"

lemma line_acts:
  assumes "CHR 0x0A \<notin> set buf" and "CHR 0x0A \<notin> set t"
  shows "(let (buf, as) = stdio_put m buf (t @ newline) in as @ exit_flush buf) = [Put (buf @ t @ newline)]"
  using stdio_put_line [of buf t] stdio_put_keeps [of m buf "t @ newline"]
  by (cases m) (simp_all add: exit_flush_def newline_def)

lemma printf_fork_acts:
  "printf_fork pid_first m p (Some c) =
     ([], [Put (fork_line p (int c) p)], Some [Put (fork_line p 0 (if pid_first then p else c))])"
proof -
  define first where "first = ''printf: Before fork, pid:'' @ dec_int (int p) @ '' ...''"
  define rest where "rest = (\<lambda>forked own. ''fork:'' @ dec_int forked @ '' pid:'' @ dec_int (int own) @ '' '')"
  have no: "CHR 0x0A \<notin> set first" "CHR 0x0A \<notin> set (rest f own)" for f own
    by (simp_all add: first_def rest_def)
  have "stdio_put m [] first = (first, [])"
    using no(1) by (simp add: stdio_put_keeps)
  moreover have "fork_line p f own = first @ rest f own @ newline" for f own
    by (simp add: fork_line_def first_def rest_def)
  moreover have "''fork:'' @ dec_int f @ '' pid:'' @ dec_int (int own) @ '' '' @ newline = rest f own @ newline" for f own
    by (simp add: rest_def)
  ultimately show ?thesis
    unfolding printf_fork_def first_def [symmetric] using line_acts [OF no]
    by (simp only: Let_def prod.case option.case option.map)
qed

text \<open>
  Property C34: what the programs that fork can print, over every interleaving of parent and child and for
  both ways of buffering. Text that was printed before the fork and not written out is in both processes
  and appears twice. The program that prints the process ids prints its two lines whole, in either order,
  with the first text in both; the child prints its parent's id if \<^verbatim>\<open>getpid()\<close> is evaluated before \<^verbatim>\<open>fork()\<close>. In
  \<^verbatim>\<open>fork_demo.c\<close> only the parent increments the value, and the file, which is not buffered, gets the text of before
  the fork once and the other one twice.
\<close>

theorem fork_output:
  "stdout_of ` observable (printf_fork_printf m (Some c)) = {''Hello... Bye!Hello... Bye!''} \<and>
   stdout_of ` observable (printf_fork_printf m None) = {''Hello... Bye!''} \<and>
   stdout_of ` observable (printf_fork pid_first m p (Some c)) =
     {fork_line p (int c) p @ fork_line p 0 (if pid_first then p else c),
      fork_line p 0 (if pid_first then p else c) @ fork_line p (int c) p} \<and>
   (\<exists>f. fork_demo True fd_ok m (Some (Suc c)) = Some f \<and>
     stdout_of ` observable f =
       {''Hello-10 World!-11 Hello-10 World!-10 '', ''Hello-10 World!-10 Hello-10 World!-11 ''} \<and>
     file_of ` observable f = {if fd_ok then ''HelloWorld!World!'' else ''''})"
proof (intro conjI)
  show "stdout_of ` observable (printf_fork_printf m (Some c)) = {''Hello... Bye!Hello... Bye!''}"
    and "stdout_of ` observable (printf_fork_printf m None) = {''Hello... Bye!''}"
    by (simp_all add: printf_fork_printf_def stdio_put_keeps exit_flush_def observable_def shuffles_single Let_def del: shuffles.simps)
next
  have "shuffles [Put (fork_line p (int c) p)] [Put (fork_line p 0 own)] =
      {[Put (fork_line p (int c) p), Put (fork_line p 0 own)], [Put (fork_line p 0 own), Put (fork_line p (int c) p)]}" for own
    by (rule shuffles_single)
  then show "stdout_of ` observable (printf_fork pid_first m p (Some c)) =
      {fork_line p (int c) p @ fork_line p 0 (if pid_first then p else c),
       fork_line p 0 (if pid_first then p else c) @ fork_line p (int c) p}"
    by (simp add: printf_fork_acts observable_def del: shuffles.simps)
next
  have "dec_int 10 = ''10''" "dec_int 11 = ''11''" by code_simp+
  then show "\<exists>f. fork_demo True fd_ok m (Some (Suc c)) = Some f \<and>
     stdout_of ` observable f =
       {''Hello-10 World!-11 Hello-10 World!-10 '', ''Hello-10 World!-10 Hello-10 World!-11 ''} \<and>
     file_of ` observable f = {if fd_ok then ''HelloWorld!World!'' else ''''}"
    by (cases fd_ok)
      (simp_all add: fork_demo_def stdio_put_keeps exit_flush_def observable_def shuffles_single shuffles_pair
        insert_commute Let_def del: shuffles.simps)
qed

end
