(* ===== verification/Signal_Threads.thy ===== *)
theory Signal_Threads
  imports Prelude
begin

text \<open>
  The signal example of \<^verbatim>\<open>c/signal_thrd\<close>: \<^verbatim>\<open>sig.c\<close> with the handler and its installation, \<^verbatim>\<open>signal_thrd.c\<close> with
  the threads that sleep. The dispositions belong to the process; the signals of the kernel, the
  scheduling of the threads and the results of \<^verbatim>\<open>pthread_create\<close> are the steps of a machine. The numbers are
  those of Linux on x86 and ARM.
\<close>

section \<open>Signals\<close>

definition SIGHUP :: nat where "SIGHUP = 1"
definition SIGINT :: nat where "SIGINT = 2"
definition SIGQUIT :: nat where "SIGQUIT = 3"
definition SIGILL :: nat where "SIGILL = 4"
definition SIGABRT :: nat where "SIGABRT = 6"
definition SIGBUS :: nat where "SIGBUS = 7"
definition SIGFPE :: nat where "SIGFPE = 8"
definition SIGKILL :: nat where "SIGKILL = 9"
definition SIGSEGV :: nat where "SIGSEGV = 11"
definition SIGPIPE :: nat where "SIGPIPE = 13"
definition SIGALRM :: nat where "SIGALRM = 14"
definition SIGTERM :: nat where "SIGTERM = 15"
definition SIGSTOP :: nat where "SIGSTOP = 19"
definition SIGSYS :: nat where "SIGSYS = 31"

lemmas sig_defs = SIGHUP_def SIGINT_def SIGQUIT_def SIGILL_def SIGABRT_def SIGBUS_def SIGFPE_def SIGKILL_def
  SIGSEGV_def SIGPIPE_def SIGALRM_def SIGTERM_def SIGSTOP_def SIGSYS_def

text \<open>What a signal does: the default action, nothing, or a call of \<^verbatim>\<open>signal_handler\<close>.\<close>

datatype disposition = Sig_default | Sig_ignore | Sig_handler

type_synonym dispositions = "nat \<Rightarrow> disposition"

text \<open>\<^verbatim>\<open>signal(2)\<close>: the two signals that cannot be caught are refused. Nothing looks at the result.\<close>

definition signal :: "nat \<Rightarrow> disposition \<Rightarrow> dispositions \<Rightarrow> dispositions" where
  "signal sig d disp = (if sig \<in> {SIGKILL, SIGSTOP} then disp else disp(sig := d))"

text \<open>The handler: the process ends with status 1, or the handler returns.\<close>

definition signal_handler :: "nat \<Rightarrow> int option" where
  "signal_handler sig =
     (if sig \<in> {SIGINT, SIGQUIT, SIGTERM} then Some 1
      else if sig = SIGABRT then Some 1
      else if sig \<in> {SIGBUS, SIGFPE, SIGILL, SIGSEGV, SIGSYS} then Some 1
      else None)"

definition signal_setup_listed :: "dispositions \<Rightarrow> dispositions" where
  "signal_setup_listed =
     fold (\<lambda>s. signal s Sig_handler)
       [SIGHUP, SIGINT, SIGQUIT, SIGILL, SIGABRT, SIGFPE, SIGPIPE, SIGPIPE, SIGBUS, SIGALRM, SIGTERM]"

definition signal_setup :: "dispositions \<Rightarrow> dispositions" where
  "signal_setup = fold (\<lambda>ch. signal ch Sig_handler) [1..<28]"

section \<open>The process\<close>

definition NUM_THRDS :: nat where "NUM_THRDS = 10"

datatype run_state = Running | Exited int | Terminated nat | Suspended

text \<open>
  \<open>sp_next\<close> is the loop variable of \<^verbatim>\<open>main\<close>, \<open>sp_creating\<close> whether the loop goes on; \<open>sp_started\<close> are the threads
  that have passed the start of \<^verbatim>\<open>thread_func\<close>; \<open>sp_woken\<close> counts for each thread the returns of the handler,
  which end its sleep, with \<^verbatim>\<open>main\<close> as 100, the number it gives itself.
\<close>

record sig_process =
  sp_disp :: dispositions
  sp_next :: nat
  sp_creating :: bool
  sp_started :: "nat set"
  sp_woken :: "nat \<Rightarrow> nat"
  sp_run :: run_state

definition sp_boot :: sig_process where
  "sp_boot = \<lparr>sp_disp = (\<lambda>_. Sig_default), sp_next = 0, sp_creating = True, sp_started = {}, sp_woken = (\<lambda>_. 0),
     sp_run = Running\<rparr>"

text \<open>\<^verbatim>\<open>main\<close> up to the loop, and one turn of the loop with the result of \<^verbatim>\<open>pthread_create\<close>.\<close>

definition main_setup :: "sig_process \<Rightarrow> sig_process" where
  "main_setup p = p\<lparr>sp_disp := signal_setup (sp_disp p)\<rparr>"

definition main_create :: "int \<Rightarrow> sig_process \<Rightarrow> sig_process option" where
  "main_create rc p =
     (if sp_creating p \<and> sp_next p < NUM_THRDS
      then Some (if rc \<noteq> 0 then p\<lparr>sp_creating := False\<rparr> else p\<lparr>sp_next := sp_next p + 1\<rparr>)
      else None)"

text \<open>A created thread runs; then it sleeps for ever.\<close>

definition thread_func :: "nat \<Rightarrow> sig_process \<Rightarrow> sig_process option" where
  "thread_func idx p =
     (if idx < sp_next p \<and> idx \<notin> sp_started p
      then (let p = p\<lparr>sp_started := insert idx (sp_started p)\<rparr>
            in Some (if idx = NUM_THRDS - 1 then p\<lparr>sp_disp := signal SIGHUP Sig_ignore (sp_disp p)\<rparr> else p))
      else None)"

text \<open>\<^verbatim>\<open>forever\<close>: the sleep returns early, is counted (the code logs it) and begins again.\<close>

definition forever :: "nat \<Rightarrow> sig_process \<Rightarrow> sig_process" where
  "forever idx p = p\<lparr>sp_woken := (sp_woken p)(idx := sp_woken p idx + 1)\<rparr>"

text \<open>A signal is delivered to a thread. \<open>dfl\<close> is the default action of the system for the signal.\<close>

definition deliver :: "(nat \<Rightarrow> run_state) \<Rightarrow> nat \<Rightarrow> nat \<Rightarrow> sig_process \<Rightarrow> sig_process option" where
  "deliver dfl sig idx p =
     (if idx \<in> insert 100 (sp_started p)
      then Some (case sp_disp p sig of
             Sig_ignore \<Rightarrow> p
           | Sig_default \<Rightarrow> p\<lparr>sp_run := dfl sig\<rparr>
           | Sig_handler \<Rightarrow>
               (case signal_handler sig of Some n \<Rightarrow> p\<lparr>sp_run := Exited n\<rparr> | None \<Rightarrow> forever idx p))
      else None)"

datatype sig_step = Create int | Start nat | Deliver nat nat

definition sig_step :: "(nat \<Rightarrow> run_state) \<Rightarrow> sig_step \<Rightarrow> sig_process \<Rightarrow> sig_process option" where
  "sig_step dfl a p =
     (if sp_run p \<noteq> Running then None
      else case a of
        Create rc \<Rightarrow> main_create rc p
      | Start idx \<Rightarrow> thread_func idx p
      | Deliver sig idx \<Rightarrow> deliver dfl sig idx p)"

inductive sig_reach :: "(nat \<Rightarrow> run_state) \<Rightarrow> sig_process \<Rightarrow> bool" for dfl where
  sig_start: "sig_reach dfl (main_setup sp_boot)"
| sig_step: "sig_reach dfl p \<Longrightarrow> sig_step dfl a p = Some p' \<Longrightarrow> sig_reach dfl p'"

section \<open>What the signals do\<close>

text \<open>The signals that \<^verbatim>\<open>signal_setup\<close> gives to the handler, and those for which the handler ends the process.\<close>

definition caught :: "nat set" where
  "caught = {1..<28} - {SIGKILL, SIGSTOP}"

definition fatal :: "nat set" where
  "fatal = {SIGINT, SIGQUIT, SIGILL, SIGABRT, SIGBUS, SIGFPE, SIGSEGV, SIGTERM}"

lemma fold_signal:
  "fold (\<lambda>ch. signal ch d) sigs disp s = (if s \<in> set sigs \<and> s \<notin> {SIGKILL, SIGSTOP} then d else disp s)"
  by (induction sigs arbitrary: disp) (auto simp: signal_def)

lemma signal_setup_caught: "signal_setup disp s = (if s \<in> caught then Sig_handler else disp s)"
  by (simp add: signal_setup_def fold_signal caught_def)

lemma signal_handler_caught: "s \<in> caught \<Longrightarrow> signal_handler s = (if s \<in> fatal then Some 1 else None)"
  by (auto simp: signal_handler_def caught_def fatal_def sig_defs)

text \<open>The dispositions in a reachable state, and which threads there are.\<close>

definition sig_inv :: "sig_process \<Rightarrow> bool" where
  "sig_inv p \<longleftrightarrow>
     (\<forall>s. sp_disp p s =
        (if s = SIGHUP \<and> NUM_THRDS - 1 \<in> sp_started p then Sig_ignore
         else if s \<in> caught then Sig_handler else Sig_default)) \<and>
     sp_started p \<subseteq> {..<sp_next p} \<and> sp_next p \<le> NUM_THRDS \<and> (\<not> sp_creating p \<longrightarrow> sp_next p < NUM_THRDS)"

lemma sig_inv_start: "sig_inv (main_setup sp_boot)"
  by (simp add: sig_inv_def main_setup_def sp_boot_def signal_setup_caught NUM_THRDS_def)

lemma sig_inv_step:
  assumes "sig_inv p" and "sig_step dfl a p = Some p'"
  shows "sig_inv p'"
proof (cases a)
  case (Create rc)
  then show ?thesis
    using assms by (auto simp: sig_step_def main_create_def sig_inv_def split: if_splits)
next
  case (Start idx)
  then show ?thesis
    using assms
    by (auto simp: sig_step_def thread_func_def sig_inv_def signal_def Let_def sig_defs caught_def split: if_splits)
next
  case (Deliver s idx)
  then show ?thesis
    using assms
    by (auto simp: sig_step_def deliver_def forever_def sig_inv_def split: if_splits disposition.splits option.splits)
qed

lemma sig_reach_inv: "sig_reach dfl p \<Longrightarrow> sig_inv p"
  by (induction rule: sig_reach.induct) (auto intro: sig_inv_start sig_inv_step)

text \<open>
  Property C35: what a signal does to the running process, whenever it comes and to whatever thread. Eight
  signals end the process with status 1. A hang-up does nothing at all once the last of the ten threads
  has run, in any thread, because the disposition belongs to the process; before, and for ever if a thread could not be
  created, it only ends the sleep of the thread that gets it, as every other signal from 1 to 27 that can be caught does.
  All other signals have the default action, also \<^verbatim>\<open>SIGSYS\<close>, for which the handler has a case that is never
  reached.
\<close>

theorem signal_effect:
  assumes "sig_reach dfl p" and "sp_run p = Running" and "idx \<in> insert 100 (sp_started p)"
  shows "sig_step dfl (Deliver sig idx) p = Some
      (if sig \<in> fatal then p\<lparr>sp_run := Exited 1\<rparr>
       else if sig = SIGHUP \<and> NUM_THRDS - 1 \<in> sp_started p then p
       else if sig \<in> caught then forever idx p
       else p\<lparr>sp_run := dfl sig\<rparr>) \<and>
    (\<not> sp_creating p \<longrightarrow> NUM_THRDS - 1 \<notin> sp_started p) \<and>
    signal_handler SIGSYS = Some 1 \<and> SIGSYS \<notin> caught"
proof -
  note inv = sig_reach_inv [OF assms(1)]
  have "SIGHUP \<notin> fatal" "SIGHUP \<in> caught" "fatal \<subseteq> caught"
    by (auto simp: fatal_def caught_def sig_defs)
  then have "sig_step dfl (Deliver sig idx) p = Some
      (if sig \<in> fatal then p\<lparr>sp_run := Exited 1\<rparr>
       else if sig = SIGHUP \<and> NUM_THRDS - 1 \<in> sp_started p then p
       else if sig \<in> caught then forever idx p
       else p\<lparr>sp_run := dfl sig\<rparr>)"
    using inv assms(2,3) signal_handler_caught [of sig]
    by (auto simp: sig_step_def deliver_def sig_inv_def)
  moreover have "NUM_THRDS - 1 \<notin> sp_started p" if "\<not> sp_creating p"
    using inv that by (auto simp: sig_inv_def)
  ultimately show ?thesis
    by (simp add: signal_handler_def caught_def sig_defs)
qed

text \<open>All ten threads are created and the last one runs first; then a hang-up comes to it.\<close>

lemma sig_run_reach:
  "sig_reach dfl p \<Longrightarrow> fold (\<lambda>a q. Option.bind q (sig_step dfl a)) as (Some p) = Some p' \<Longrightarrow> sig_reach dfl p'"
proof (induction as arbitrary: p' rule: rev_induct)
  case (snoc a as)
  then show ?case by (auto simp: bind_eq_Some_conv intro: sig_reach.sig_step)
qed simp

theorem signal_effect_witness:
  "\<exists>p. fold (\<lambda>a q. Option.bind q (sig_step Terminated a)) (replicate 10 (Create 0) @ [Start 9]) (Some (main_setup sp_boot)) =
     Some p \<and> sig_step Terminated (Deliver SIGHUP 9) p = Some p \<and>
     sig_step Terminated (Deliver SIGSYS 9) p = Some (p\<lparr>sp_run := Terminated 31\<rparr>)"
proof -
  let ?run = "fold (\<lambda>a q. Option.bind q (sig_step Terminated a)) (replicate 10 (Create 0) @ [Start 9]) (Some (main_setup sp_boot))"
  have "map_option (\<lambda>p. (sp_run p, 9 \<in> sp_started p)) ?run = Some (Running, True)"
    by (simp add: sig_step_def main_create_def thread_func_def main_setup_def sp_boot_def NUM_THRDS_def
        numeral_eq_Suc Let_def)
  then obtain p where p: "?run = Some p" "sp_run p = Running" "9 \<in> sp_started p"
    by auto
  have "sig_reach Terminated p"
    by (rule sig_run_reach [OF sig_reach.sig_start p(1)])
  from signal_effect [OF this p(2), of 9] p show ?thesis
    by (auto simp: NUM_THRDS_def fatal_def caught_def sig_defs)
qed

end
