(* ===== verification/Debug_Macros.thy ===== *)
theory Debug_Macros
  imports C_Macros
begin

text \<open>
  The debug headers: \<^verbatim>\<open>c/dbg.h\<close>, \<^verbatim>\<open>c/signal_thrd/dbg.h\<close> and \<^verbatim>\<open>trace.h\<close>, \<^verbatim>\<open>imx8mm/hello_world/dbg.h\<close> and the
  kernel's \<^verbatim>\<open>kdbg.h\<close> of the modules. Which messages a debug level lets through, what a message
  does to \<^verbatim>\<open>errno\<close> and to the program, and the macros that print words in binary. The level is an \<^verbatim>\<open>unsigned\<close>, in the
  kernel an \<^verbatim>\<open>int\<close>. A message is its kind; the format and the arguments are left out.
\<close>

section \<open>Levels\<close>

datatype dbg_kind = K_err | K_warn | K_error | K_warning | K_info | K_dbg | K_verb | K_trace | K_more | K_high

text \<open>What a message does: whether it is printed, \<^verbatim>\<open>errno\<close> afterwards, and the exit status if it ends the program.\<close>

type_synonym dbg_effect = "bool \<times> int \<times> int option"

text \<open>\<^verbatim>\<open>c/dbg.h\<close> and \<^verbatim>\<open>c/signal_thrd/dbg.h\<close>; a trace has a mask.\<close>

definition c_message :: "u32 \<Rightarrow> int \<Rightarrow> dbg_kind \<Rightarrow> dbg_effect" where
  "c_message dbg errno k =
     (case k of
        K_error \<Rightarrow> (True, errno, Some 1)
      | K_warning \<Rightarrow> (True, 0, None)
      | K_verb \<Rightarrow> (dbg > 1, errno, None)
      | K_dbg \<Rightarrow> (dbg \<noteq> 0, errno, None)
      | _ \<Rightarrow> (True, errno, None))"

definition sig_message :: "u32 \<Rightarrow> int \<Rightarrow> dbg_kind \<Rightarrow> dbg_effect" where
  "sig_message dbg_lvl errno k =
     (case k of
        K_error \<Rightarrow> (True, errno, Some 1)
      | K_warning \<Rightarrow> (True, 0, None)
      | K_verb \<Rightarrow> (dbg_lvl > 1, errno, None)
      | K_dbg \<Rightarrow> (dbg_lvl \<noteq> 0, errno, None)
      | _ \<Rightarrow> (True, errno, None))"

definition TRACESM :: "u32 \<Rightarrow> u32 \<Rightarrow> int \<Rightarrow> dbg_effect" where
  "TRACESM dbg_lvl m errno = (if dbg_lvl AND m \<noteq> 0 then (True, 0, None) else (False, errno, None))"

definition TRACE_SHIFT_MAX :: nat where "TRACE_SHIFT_MAX = 2"

definition trace_IS_TRACE :: "u32 \<Rightarrow> bool" where
  "trace_IS_TRACE dbg_lvl \<longleftrightarrow> dbg_lvl AND push_bit TRACE_SHIFT_MAX 1 \<noteq> 0"

text \<open>\<^verbatim>\<open>imx8mm/hello_world/dbg.h\<close>: one bit for each kind of message.\<close>

definition DBG_SHIFT_VERBOSE :: nat where "DBG_SHIFT_VERBOSE = 1"
definition DBG_SHIFT_TRACE :: nat where "DBG_SHIFT_TRACE = 2"
definition DBG_SHIFT_MORE :: nat where "DBG_SHIFT_MORE = 3"

definition DBG_LVL_INC :: "u32 \<Rightarrow> u32" where
  "DBG_LVL_INC dbg_lvl = push_bit 1 dbg_lvl OR 1"

definition IS_DBG :: "u32 \<Rightarrow> bool" where
  "IS_DBG dbg_lvl \<longleftrightarrow> dbg_lvl \<noteq> 0"

definition IS_TRACE_UNIT :: "u32 \<Rightarrow> nat \<Rightarrow> bool" where
  "IS_TRACE_UNIT dbg_lvl shift \<longleftrightarrow> dbg_lvl AND push_bit shift 1 \<noteq> 0"

definition IS_VERB :: "u32 \<Rightarrow> bool" where
  "IS_VERB dbg_lvl \<longleftrightarrow> dbg_lvl AND push_bit DBG_SHIFT_VERBOSE 1 \<noteq> 0"

definition IS_TRACE :: "u32 \<Rightarrow> bool" where
  "IS_TRACE dbg_lvl \<longleftrightarrow> dbg_lvl AND push_bit DBG_SHIFT_TRACE 1 \<noteq> 0"

text \<open>\<^verbatim>\<open>__builtin_ctz\<close>: the number of zero bits from the right; undefined for 0.\<close>

definition builtin_ctz :: "u32 \<Rightarrow> nat option" where
  "builtin_ctz w = (if w = 0 then None else Some (length (takeWhile (\<lambda>i. \<not> bit w i) [0..<32])))"

definition DBG_LVL :: "u32 \<Rightarrow> nat option" where
  "DBG_LVL dbg_lvl =
     (if IS_DBG dbg_lvl then builtin_ctz (NOT (dbg_lvl AND imx_BIT_MASK_RIGHT (DBG_SHIFT_MORE + 1))) else Some 0)"

definition TRACE_PRINT_MASK :: "u32 \<Rightarrow> u32 \<Rightarrow> int \<Rightarrow> dbg_effect" where
  "TRACE_PRINT_MASK dbg_lvl m errno = (if dbg_lvl AND m = m then (True, 0, None) else (False, errno, None))"

definition imx_message :: "u32 \<Rightarrow> int \<Rightarrow> dbg_kind \<Rightarrow> dbg_effect" where
  "imx_message dbg_lvl errno k =
     (case k of
        K_error \<Rightarrow> (True, errno, Some 1)
      | K_warning \<Rightarrow> (True, 0, None)
      | K_verb \<Rightarrow> (dbg_lvl AND push_bit DBG_SHIFT_VERBOSE 1 \<noteq> 0, errno, None)
      | K_dbg \<Rightarrow> (dbg_lvl \<noteq> 0, errno, None)
      | _ \<Rightarrow> (True, errno, None))"

text \<open>The traces; \<open>u\<close> is \<^verbatim>\<open>TRACE_SHIFT_UNIT\<close>, if it is defined before the header is included.\<close>

definition imx_trace :: "nat option \<Rightarrow> u32 \<Rightarrow> int \<Rightarrow> dbg_kind \<Rightarrow> dbg_effect" where
  "imx_trace u dbg_lvl errno k =
     (case u of
        Some s \<Rightarrow>
          TRACE_PRINT_MASK dbg_lvl
            (case k of K_more \<Rightarrow> push_bit s 1 OR push_bit DBG_SHIFT_TRACE 1
                     | K_high \<Rightarrow> push_bit s 1 OR push_bit DBG_SHIFT_MORE 1
                     | _ \<Rightarrow> push_bit s 1) errno
      | None \<Rightarrow>
          TRACE_PRINT_MASK dbg_lvl (case k of K_more \<Rightarrow> push_bit DBG_SHIFT_MORE 1 | K_high \<Rightarrow> push_bit DBG_SHIFT_MORE 1
                     | _ \<Rightarrow> push_bit DBG_SHIFT_TRACE 1) errno)"

text \<open>\<^verbatim>\<open>kdbg.h\<close> of the bit-banging UART, and of the other modules, which have no \<^verbatim>\<open>VERB\<close> and another level for traces:
  the level of the log and the text, if the message is printed. \<open>place\<close> is the file, the line and the function.\<close>

datatype printk_level = KERN_ERR | KERN_WARNING | KERN_INFO | KERN_DEBUG

type_synonym printk = "(printk_level \<times> string) option"

definition TRACE_LVL_MIN :: int where "TRACE_LVL_MIN = 3"

definition kdbg_printk :: "string \<Rightarrow> string \<Rightarrow> int \<Rightarrow> dbg_kind \<Rightarrow> string \<Rightarrow> printk" where
  "kdbg_printk device place lvl k msg =
     (case k of
        K_trace \<Rightarrow> if lvl \<ge> TRACE_LVL_MIN then Some (KERN_DEBUG, ''-T- '' @ device @ '' '' @ place @ '' '' @ msg @ [CHR 10]) else None
      | K_verb \<Rightarrow> if lvl > 1 then Some (KERN_DEBUG, ''-V- '' @ device @ '' '' @ msg @ [CHR 10]) else None
      | K_dbg \<Rightarrow> if lvl \<noteq> 0 then Some (KERN_DEBUG, ''-D- '' @ device @ '' '' @ msg @ [CHR 10]) else None
      | K_info \<Rightarrow> Some (KERN_INFO, ''-I- '' @ device @ '' '' @ msg @ [CHR 10])
      | K_warning \<Rightarrow> Some (KERN_WARNING, ''-W- '' @ device @ '' '' @ msg @ [CHR 10])
      | K_error \<Rightarrow> Some (KERN_ERR, ''-E- '' @ device @ '': '' @ msg @ [CHR 10])
      | _ \<Rightarrow> None)"

definition kdbg_old_printk :: "string \<Rightarrow> string \<Rightarrow> int \<Rightarrow> dbg_kind \<Rightarrow> string \<Rightarrow> printk" where
  "kdbg_old_printk device place lvl k msg =
     (case k of
        K_trace \<Rightarrow> if lvl > 1 then Some (KERN_DEBUG, ''-T- '' @ device @ '' '' @ place @ '' '' @ msg @ [CHR 10]) else None
      | K_dbg \<Rightarrow> if lvl \<noteq> 0 then Some (KERN_DEBUG, ''-D- '' @ device @ '' '' @ msg @ [CHR 10]) else None
      | K_info \<Rightarrow> Some (KERN_INFO, ''-I- '' @ device @ '' '' @ msg @ [CHR 10])
      | K_warning \<Rightarrow> Some (KERN_WARNING, ''-W- '' @ device @ '' '' @ msg @ [CHR 10])
      | K_error \<Rightarrow> Some (KERN_ERR, ''-E- '' @ device @ '': '' @ msg @ [CHR 10])
      | _ \<Rightarrow> None)"

text \<open>The copies in the other modules are word for word the same; that of \<^verbatim>\<open>dtmod\<close> has its level in the module.\<close>

definition kmod_printk :: "string \<Rightarrow> string \<Rightarrow> int \<Rightarrow> dbg_kind \<Rightarrow> string \<Rightarrow> printk" where "kmod_printk = kdbg_old_printk"
definition pdev_printk :: "string \<Rightarrow> string \<Rightarrow> int \<Rightarrow> dbg_kind \<Rightarrow> string \<Rightarrow> printk" where "pdev_printk = kdbg_old_printk"
definition testmod_printk :: "string \<Rightarrow> string \<Rightarrow> int \<Rightarrow> dbg_kind \<Rightarrow> string \<Rightarrow> printk" where "testmod_printk = kdbg_old_printk"
definition gpioirq_printk :: "string \<Rightarrow> string \<Rightarrow> int \<Rightarrow> dbg_kind \<Rightarrow> string \<Rightarrow> printk" where "gpioirq_printk = kdbg_old_printk"
definition regulator_printk :: "string \<Rightarrow> string \<Rightarrow> int \<Rightarrow> dbg_kind \<Rightarrow> string \<Rightarrow> printk" where "regulator_printk = kdbg_old_printk"
definition spi_printk :: "string \<Rightarrow> string \<Rightarrow> int \<Rightarrow> dbg_kind \<Rightarrow> string \<Rightarrow> printk" where "spi_printk = kdbg_old_printk"
definition dtmod_dbglvl :: int where "dtmod_dbglvl = 2"
definition dtmod_printk :: "string \<Rightarrow> string \<Rightarrow> dbg_kind \<Rightarrow> string \<Rightarrow> printk" where
  "dtmod_printk device place = kdbg_old_printk device place dtmod_dbglvl"

section \<open>Words in binary\<close>

definition flag_char :: "bool \<Rightarrow> char" where
  "flag_char b = (if b then CHR ''1'' else CHR ''0'')"

definition BYTE_TO_BINARY :: "u32 \<Rightarrow> string" where
  "BYTE_TO_BINARY byte = map (\<lambda>m. flag_char (byte AND m \<noteq> 0)) [0x80, 0x40, 0x20, 0x10, 0x08, 0x04, 0x02, 0x01]"

definition WORD_TO_BINARY :: "u32 \<Rightarrow> string" where
  "WORD_TO_BINARY w = map (\<lambda>m. flag_char (w AND m \<noteq> 0))
     [0x80000000, 0x40000000, 0x20000000, 0x10000000, 0x08000000, 0x04000000, 0x02000000, 0x01000000,
      0x800000, 0x400000, 0x200000, 0x100000, 0x080000, 0x040000, 0x020000, 0x010000,
      0x8000, 0x4000, 0x2000, 0x1000, 0x0800, 0x0400, 0x0200, 0x0100,
      0x80, 0x40, 0x20, 0x10, 0x08, 0x04, 0x02, 0x01]"

text \<open>The copies in \<^verbatim>\<open>c/signal_thrd/dbg.h\<close>.\<close>

definition sig_BYTE_TO_BINARY :: "u32 \<Rightarrow> string" where
  "sig_BYTE_TO_BINARY byte = map (\<lambda>m. flag_char (byte AND m \<noteq> 0)) [0x80, 0x40, 0x20, 0x10, 0x08, 0x04, 0x02, 0x01]"

definition sig_WORD_TO_BINARY :: "u32 \<Rightarrow> string" where
  "sig_WORD_TO_BINARY w = map (\<lambda>m. flag_char (w AND m \<noteq> 0))
     [0x80000000, 0x40000000, 0x20000000, 0x10000000, 0x08000000, 0x04000000, 0x02000000, 0x01000000,
      0x800000, 0x400000, 0x200000, 0x100000, 0x080000, 0x040000, 0x020000, 0x010000,
      0x8000, 0x4000, 0x2000, 0x1000, 0x0800, 0x0400, 0x0200, 0x0100,
      0x80, 0x40, 0x20, 0x10, 0x08, 0x04, 0x02, 0x01]"

text \<open>The later versions.\<close>

definition WTBSM :: "u32 \<Rightarrow> nat \<Rightarrow> char" where
  "WTBSM w shift = flag_char (w AND push_bit shift 1 \<noteq> 0)"

definition NIBBLE_TO_BINARY :: "u32 \<Rightarrow> string" where
  "NIBBLE_TO_BINARY w = [WTBSM w 3, WTBSM w 2, WTBSM w 1, WTBSM w 0]"

definition imx_BYTE_TO_BINARY :: "u32 \<Rightarrow> string" where
  "imx_BYTE_TO_BINARY byte = NIBBLE_TO_BINARY (drop_bit 4 byte) @ NIBBLE_TO_BINARY byte"

definition imx_WORD_TO_BINARY :: "u32 \<Rightarrow> string" where
  "imx_WORD_TO_BINARY w = imx_BYTE_TO_BINARY (drop_bit 24 w) @ imx_BYTE_TO_BINARY (drop_bit 16 w) @
     imx_BYTE_TO_BINARY (drop_bit 8 w) @ imx_BYTE_TO_BINARY w"

text \<open>The patterns, and what \<^verbatim>\<open>printf\<close> makes of one that has only \<^verbatim>\<open>%c\<close>.\<close>

definition BYTE_TO_BINARY_PATTERN :: string where
  "BYTE_TO_BINARY_PATTERN = ''%c%c%c%c %c%c%c%c''"

definition WORD_TO_BINARY_PATTERN :: string where
  "WORD_TO_BINARY_PATTERN = ''%c%c%c%c%c%c%c%c %c%c%c%c%c%c%c%c %c%c%c%c%c%c%c%c %c%c%c%c%c%c%c%c''"

fun printf_c :: "string \<Rightarrow> string \<Rightarrow> string option" where
  "printf_c [] cs = Some []"
| "printf_c (p # ps) cs =
     (if p = CHR ''%''
      then (case ps of
              [] \<Rightarrow> None
            | q # qs \<Rightarrow> if q = CHR ''c'' then (case cs of [] \<Rightarrow> None | c # cs' \<Rightarrow> map_option ((#) c) (printf_c qs cs')) else None)
      else map_option ((#) p) (printf_c ps cs))"

section \<open>Lemmas\<close>

lemma and_push_bit_one: "w AND push_bit n 1 \<noteq> 0 \<longleftrightarrow> bit w n" for w :: "'a::len word"
  by (simp add: bit_iff_and_push_bit_not_eq_0)

lemma shifts:
  "rev [0..<8] = [7, 6, 5, 4, 3, 2, 1, 0 :: nat]"
  "rev [0..<32] = [31, 30, 29, 28, 27, 26, 25, 24, 23, 22, 21, 20, 19, 18, 17, 16,
     15, 14, 13, 12, 11, 10, 9, 8, 7, 6, 5, 4, 3, 2, 1, 0 :: nat]"
  by code_simp+

text \<open>Both versions print the bits, the highest first.\<close>

lemma byte_masks:
  "[0x80, 0x40, 0x20, 0x10, 0x08, 0x04, 0x02, 0x01] = map (\<lambda>i. push_bit i 1 :: u32) (rev [0..<8])"
  by (simp add: shifts)

lemma word_masks:
  "[0x80000000, 0x40000000, 0x20000000, 0x10000000, 0x08000000, 0x04000000, 0x02000000, 0x01000000,
      0x800000, 0x400000, 0x200000, 0x100000, 0x080000, 0x040000, 0x020000, 0x010000,
      0x8000, 0x4000, 0x2000, 0x1000, 0x0800, 0x0400, 0x0200, 0x0100,
      0x80, 0x40, 0x20, 0x10, 0x08, 0x04, 0x02, 0x01] = map (\<lambda>i. push_bit i 1 :: u32) (rev [0..<32])"
  by (simp add: shifts)

lemma binary_bits:
  "BYTE_TO_BINARY w = map (\<lambda>i. flag_char (bit w i)) (rev [0..<8])"
  "WORD_TO_BINARY w = map (\<lambda>i. flag_char (bit w i)) (rev [0..<32])"
  by (simp_all only: BYTE_TO_BINARY_def byte_masks map_map comp_def and_push_bit_one)
     (simp_all only: WORD_TO_BINARY_def word_masks map_map comp_def and_push_bit_one)

lemma imx_binary_bits:
  "imx_BYTE_TO_BINARY w = map (\<lambda>i. flag_char (bit w i)) (rev [0..<8])"
  "imx_WORD_TO_BINARY w = map (\<lambda>i. flag_char (bit w i)) (rev [0..<32])"
  by (simp_all only: imx_BYTE_TO_BINARY_def imx_WORD_TO_BINARY_def NIBBLE_TO_BINARY_def WTBSM_def and_push_bit_one)
     (simp_all add: bit_drop_bit_eq shifts)

text \<open>Reading back: the digits as a number.\<close>

definition digits_value :: "string \<Rightarrow> nat" where
  "digits_value s = fold (\<lambda>c n. 2 * n + of_bool (c = CHR ''1'')) s 0"

lemma fold_digits: "fold (\<lambda>c n. 2 * n + of_bool (c = CHR ''1'')) (map (\<lambda>i. flag_char (f i)) is) n =
    fold (\<lambda>i n. 2 * n + of_bool (f i)) is n"
  by (induction "is" arbitrary: n) (simp_all add: flag_char_def)

lemma digits_bits: "digits_value (map (\<lambda>i. flag_char (bit (w :: u32) i)) (rev [0..<k])) = unat (take_bit k w)"
proof -
  have "fold (\<lambda>i n. 2 * n + of_bool (bit w i)) (rev [0..<k]) n = 2 ^ k * n + unat (take_bit k w)" for n
  proof (induction k arbitrary: n)
    case (Suc k)
    have "unat (take_bit (Suc k) w) = of_bool (bit w k) * 2 ^ k + unat (take_bit k w)"
      by (simp add: unsigned_take_bit_eq take_bit_Suc_from_most bit_unsigned_iff)
    with Suc show ?case by (simp add: algebra_simps)
  qed simp
  from this [of 0] show ?thesis unfolding digits_value_def fold_digits by simp
qed

text \<open>The pattern groups the characters and loses none.\<close>

lemma patterns_group:
  assumes "length cs = 8" and "length ds = 32"
  shows "printf_c BYTE_TO_BINARY_PATTERN cs = Some (take 4 cs @ '' '' @ drop 4 cs)"
    and "printf_c WORD_TO_BINARY_PATTERN ds = Some (take 8 ds @ '' '' @ take 8 (drop 8 ds) @ '' '' @ take 8 (drop 16 ds) @ '' '' @ drop 24 ds)"
proof -
  have "cs = map ((!) cs) [0..<8]" "ds = map ((!) ds) [0..<32]"
    using assms by (metis map_nth)+
  then have "cs = map ((!) cs) (rev (rev [0..<8]))" "ds = map ((!) ds) (rev (rev [0..<32]))" by simp_all
  then have c: "cs = [cs ! 0, cs ! 1, cs ! 2, cs ! 3, cs ! 4, cs ! 5, cs ! 6, cs ! 7]"
    and d: "ds = [ds ! 0, ds ! 1, ds ! 2, ds ! 3, ds ! 4, ds ! 5, ds ! 6, ds ! 7, ds ! 8, ds ! 9, ds ! 10, ds ! 11, ds ! 12, ds ! 13, ds ! 14, ds ! 15,
      ds ! 16, ds ! 17, ds ! 18, ds ! 19, ds ! 20, ds ! 21, ds ! 22, ds ! 23, ds ! 24, ds ! 25, ds ! 26, ds ! 27, ds ! 28, ds ! 29, ds ! 30, ds ! 31]"
    unfolding shifts by simp_all
  show "printf_c BYTE_TO_BINARY_PATTERN cs = Some (take 4 cs @ '' '' @ drop 4 cs)"
    by (subst (1 2 3) c) (simp add: BYTE_TO_BINARY_PATTERN_def)
  show "printf_c WORD_TO_BINARY_PATTERN ds = Some (take 8 ds @ '' '' @ take 8 (drop 8 ds) @ '' '' @ take 8 (drop 16 ds) @ '' '' @ drop 24 ds)"
    by (subst (1 2 3 4 5) d) (simp add: WORD_TO_BINARY_PATTERN_def)
qed

text \<open>The level that counting up gives, one more bit each time.\<close>

lemma bit_DBG_LVL_INC: "bit ((DBG_LVL_INC ^^ n) 0) i \<longleftrightarrow> i < n \<and> i < 32"
proof (induction n arbitrary: i)
  case (Suc n)
  have "bit (DBG_LVL_INC w) i \<longleftrightarrow> i < 32 \<and> (i = 0 \<or> bit w (i - 1))" for w
    by (simp only: DBG_LVL_INC_def bit_or_iff bit_push_bit_iff bit_1_iff possible_bit_word) (cases i; auto)
  with Suc [of "i - 1"] show ?case by (cases i) auto
qed simp

lemma takeWhile_cong_upt: "(\<And>i. i < n \<Longrightarrow> P i = Q i) \<Longrightarrow> takeWhile P [0..<n] = takeWhile Q [0..<n]"
  by (rule takeWhile_cong) auto

lemma takeWhile_stop: "\<not> P y \<Longrightarrow> takeWhile P (xs @ y # ys) = takeWhile P xs"
  by (induction xs) simp_all

lemma DBG_LVL_exact: "DBG_LVL v = Some (length (takeWhile (bit v) [0..<4]))"
proof (cases "v = 0")
  case False
  have n: "bit (NOT (v AND imx_BIT_MASK_RIGHT (DBG_SHIFT_MORE + 1))) i \<longleftrightarrow> i < 32 \<and> \<not> (i < 4 \<and> bit v i)" for i
  proof -
    have m: "imx_BIT_MASK_RIGHT (DBG_SHIFT_MORE + 1) = (mask 4 :: u32)"
      using drop_mask [of 4] by (simp add: imx_BIT_MASK_RIGHT_def DBG_SHIFT_MORE_def)
    show ?thesis unfolding m
      by (simp only: bit_not_iff bit_and_iff bit_mask_iff possible_bit_word) auto
  qed
  then have "NOT (v AND imx_BIT_MASK_RIGHT (DBG_SHIFT_MORE + 1)) \<noteq> 0"
    by (metis bit_0_eq bot_apply less_irrefl_nat numeral_less_iff semiring_norm(75,76,78))
  moreover have "takeWhile (\<lambda>i. \<not> (i < 32 \<and> \<not> (i < 4 \<and> bit v i))) [0..<32] = takeWhile (bit v) [0..<4]"
  proof -
    have u: "[0..<32] = [0..<4] @ 4 # [5..<32]"
      using upt_add_eq_append [of 0 4 28] upt_conv_Cons [of 4 32] by simp
    have "takeWhile (\<lambda>i. \<not> (i < 32 \<and> \<not> (i < 4 \<and> bit v i))) [0..<4] = takeWhile (bit v) [0..<4]"
      by (rule takeWhile_cong_upt) simp
    then show ?thesis unfolding u by (subst takeWhile_stop) simp_all
  qed
  ultimately show ?thesis
    using False by (simp only: DBG_LVL_def IS_DBG_def builtin_ctz_def n if_False if_True simp_thms)
qed (simp add: DBG_LVL_def IS_DBG_def upt_conv_Cons)

lemma DBG_LVL_counts: "DBG_LVL ((DBG_LVL_INC ^^ n) 0) = Some (min n 4)"
proof -
  have "takeWhile (\<lambda>i. i < n \<and> i < 32) [0..<4] = [0..<min n 4]"
    by (cases "n \<ge> 4") (auto simp: takeWhile_eq_all_conv min_def upt_rec numeral_eq_Suc less_Suc_eq)
  moreover have "bit ((DBG_LVL_INC ^^ n) 0) = (\<lambda>i. i < n \<and> i < 32)"
    by (simp add: fun_eq_iff bit_DBG_LVL_INC)
  ultimately show ?thesis by (simp add: DBG_LVL_exact)
qed

text \<open>What is printed is read back.\<close>

lemma no_spaces: "set xs \<subseteq> set (map (\<lambda>i. flag_char (f i)) is) \<Longrightarrow> filter (\<lambda>c. c \<noteq> CHR '' '') xs = xs"
  by (rule filter_True) (auto simp: flag_char_def)

lemma byte_read_back:
  "\<exists>s. printf_c BYTE_TO_BINARY_PATTERN (BYTE_TO_BINARY w) = Some s \<and>
    digits_value (filter (\<lambda>c. c \<noteq> CHR '' '') s) = unat (take_bit 8 w)"
proof -
  let ?B = "map (\<lambda>i. flag_char (bit w i)) (rev [0..<8])"
  have sub: "set (take 4 ?B) \<subseteq> set ?B" "set (drop 4 ?B) \<subseteq> set ?B"
    by (rule set_take_subset, rule set_drop_subset)
  have "filter (\<lambda>c. c \<noteq> CHR '' '') (take 4 ?B @ '' '' @ drop 4 ?B) = take 4 ?B @ drop 4 ?B"
    unfolding filter_append no_spaces [OF sub(1)] no_spaces [OF sub(2)] by simp
  moreover have "length ?B = 8" "length (replicate 32 CHR ''0'') = 32" by simp_all
  note patterns_group(1) [OF this]
  ultimately show ?thesis
    unfolding binary_bits using digits_bits [of w 8] by simp
qed

lemma word_read_back:
  "\<exists>s. printf_c WORD_TO_BINARY_PATTERN (WORD_TO_BINARY w) = Some s \<and>
    digits_value (filter (\<lambda>c. c \<noteq> CHR '' '') s) = unat w"
proof -
  let ?W = "map (\<lambda>i. flag_char (bit w i)) (rev [0..<32])"
  have sub: "set (take 8 (drop j ?W)) \<subseteq> set ?W" "set (take 8 ?W) \<subseteq> set ?W" "set (drop 24 ?W) \<subseteq> set ?W" for j
    by (meson set_drop_subset set_take_subset subset_trans)+
  have "filter (\<lambda>c. c \<noteq> CHR '' '') (take 8 ?W @ '' '' @ take 8 (drop 8 ?W) @ '' '' @ take 8 (drop 16 ?W) @ '' '' @ drop 24 ?W) =
      take 8 ?W @ take 8 (drop 8 ?W) @ take 8 (drop 16 ?W) @ drop 24 ?W"
    unfolding filter_append no_spaces [OF sub(1)] no_spaces [OF sub(2)] no_spaces [OF sub(3)] by simp
  also have "\<dots> = ?W"
  proof -
    have "take 8 (drop 16 ?W) @ drop 24 ?W = drop 16 ?W"
      using append_take_drop_id [of 8 "drop 16 ?W"] by (simp only: drop_drop) simp
    moreover have "take 8 (drop 8 ?W) @ drop 16 ?W = drop 8 ?W"
      using append_take_drop_id [of 8 "drop 8 ?W"] by (simp only: drop_drop) simp
    ultimately show ?thesis by (simp only: append_take_drop_id)
  qed
  finally have "filter (\<lambda>c. c \<noteq> CHR '' '') (take 8 ?W @ '' '' @ take 8 (drop 8 ?W) @ '' '' @ take 8 (drop 16 ?W) @ '' '' @ drop 24 ?W) = ?W" .
  moreover have "length (replicate 8 CHR ''0'') = 8" "length ?W = 32" by simp_all
  note patterns_group(2) [OF this]
  moreover have "digits_value ?W = unat w"
    using digits_bits [of w 32] by (simp add: take_bit_word_eq_self)
  ultimately show ?thesis unfolding binary_bits by simp
qed

lemma two_bit_masks:
  "w AND (push_bit 2 1 OR push_bit 3 1) = push_bit 2 1 OR push_bit 3 1 \<longleftrightarrow> bit w 2 \<and> bit w 3"
  "w AND (push_bit 2 1 OR push_bit 3 1) \<noteq> 0 \<longleftrightarrow> bit w 2 \<or> bit w 3" for w :: u32
proof -
  have two: "bit (push_bit 2 1 OR push_bit 3 1 :: u32) i \<longleftrightarrow> i = 2 \<or> i = 3" for i
    by (simp only: bit_or_iff bit_push_bit_iff bit_1_iff possible_bit_word) auto
  show "w AND (push_bit 2 1 OR push_bit 3 1) = push_bit 2 1 OR push_bit 3 1 \<longleftrightarrow> bit w 2 \<and> bit w 3"
    "w AND (push_bit 2 1 OR push_bit 3 1) \<noteq> 0 \<longleftrightarrow> bit w 2 \<or> bit w 3"
    by (simp_all only: bit_eq_iff [where 'a = u32] bit_and_iff two bit_0_eq bot_apply possible_bit_word)
      (auto dest: spec [of _ 2] spec [of _ 3] intro: exI [of _ 2] exI [of _ 3])
qed

lemma levels_count:
  "IS_DBG ((DBG_LVL_INC ^^ n) 0) \<longleftrightarrow> n \<ge> 1"
  "IS_VERB ((DBG_LVL_INC ^^ n) 0) \<longleftrightarrow> n \<ge> 2" "IS_TRACE ((DBG_LVL_INC ^^ n) 0) \<longleftrightarrow> n \<ge> 3"
  "IS_TRACE_UNIT ((DBG_LVL_INC ^^ n) 0) DBG_SHIFT_MORE \<longleftrightarrow> n \<ge> 4"
proof -
  show "IS_DBG ((DBG_LVL_INC ^^ n) 0) \<longleftrightarrow> n \<ge> 1"
  proof (cases n)
    case (Suc k)
    then have "bit ((DBG_LVL_INC ^^ n) 0) 0" by (subst bit_DBG_LVL_INC) simp
    then have "(DBG_LVL_INC ^^ n) 0 \<noteq> 0" by (cases "(DBG_LVL_INC ^^ n) 0 = 0") (simp_all only: bit_0_eq bot_apply bot_bool_def simp_thms)
    with Suc show ?thesis by (simp add: IS_DBG_def del: funpow.simps)
  qed (simp add: IS_DBG_def)
  show "IS_VERB ((DBG_LVL_INC ^^ n) 0) \<longleftrightarrow> n \<ge> 2" "IS_TRACE ((DBG_LVL_INC ^^ n) 0) \<longleftrightarrow> n \<ge> 3"
    "IS_TRACE_UNIT ((DBG_LVL_INC ^^ n) 0) DBG_SHIFT_MORE \<longleftrightarrow> n \<ge> 4"
    unfolding IS_VERB_def IS_TRACE_def IS_TRACE_UNIT_def and_push_bit_one bit_DBG_LVL_INC
    by (auto simp: DBG_SHIFT_VERBOSE_def DBG_SHIFT_TRACE_def DBG_SHIFT_MORE_def)
qed

text \<open>The kernel's log: the second character of a line is the kind of its message.\<close>

definition kdbg_letter :: "dbg_kind \<Rightarrow> char" where
  "kdbg_letter k = (case k of K_trace \<Rightarrow> CHR ''T'' | K_verb \<Rightarrow> CHR ''V'' | K_dbg \<Rightarrow> CHR ''D'' | K_info \<Rightarrow> CHR ''I''
     | K_warning \<Rightarrow> CHR ''W'' | K_error \<Rightarrow> CHR ''E'' | _ \<Rightarrow> CHR ''?'')"

lemma printk_letter:
  "kdbg_printk dev pl lvl k m = Some (l, s) \<Longrightarrow> s ! 1 = kdbg_letter k \<and> kdbg_letter k \<noteq> CHR ''?''"
  "kdbg_old_printk dev pl lvl k m = Some (l, s) \<Longrightarrow> s ! 1 = kdbg_letter k \<and> kdbg_letter k \<noteq> CHR ''?''"
  by (auto simp: kdbg_printk_def kdbg_old_printk_def kdbg_letter_def split: dbg_kind.splits if_splits)

lemma letter_inj: "kdbg_letter k = kdbg_letter k' \<Longrightarrow> kdbg_letter k \<noteq> CHR ''?'' \<Longrightarrow> k = k'"
  by (cases k; cases k') (simp_all add: kdbg_letter_def)

lemma printk_kind:
  "kdbg_printk dev pl lvl k m = Some (l, s) \<Longrightarrow> kdbg_old_printk dev' pl' lvl' k' m' = Some (l', s) \<Longrightarrow> k = k'"
  using printk_letter letter_inj by metis

lemma printk_copies:
  "\<forall>f \<in> {kmod_printk, pdev_printk, testmod_printk, gpioirq_printk, regulator_printk, spi_printk}.
      (f dev pl lvl K_trace m \<noteq> None \<and> kdbg_printk dev pl lvl K_trace m = None \<longleftrightarrow> lvl = 2) \<and>
      (k \<noteq> K_trace \<and> k \<noteq> K_verb \<longrightarrow> f dev pl lvl k m = kdbg_printk dev pl lvl k m) \<and>
      (\<forall>l l' s. f dev pl lvl k m = Some (l, s) \<and> kdbg_printk dev' pl' lvl' k' m' = Some (l', s) \<longrightarrow> k = k')"
proof (intro ballI conjI)
  fix f
  assume "f \<in> {kmod_printk, pdev_printk, testmod_printk, gpioirq_printk, regulator_printk, spi_printk}"
  then have f: "f = kdbg_old_printk"
    by (auto simp: kmod_printk_def pdev_printk_def testmod_printk_def gpioirq_printk_def regulator_printk_def spi_printk_def)
  show "f dev pl lvl K_trace m \<noteq> None \<and> kdbg_printk dev pl lvl K_trace m = None \<longleftrightarrow> lvl = 2"
    by (auto simp: f kdbg_old_printk_def kdbg_printk_def TRACE_LVL_MIN_def)
  show "k \<noteq> K_trace \<and> k \<noteq> K_verb \<longrightarrow> f dev pl lvl k m = kdbg_printk dev pl lvl k m"
    by (cases k) (simp_all add: f kdbg_old_printk_def kdbg_printk_def)
  show "\<forall>l l' s. f dev pl lvl k m = Some (l, s) \<and> kdbg_printk dev' pl' lvl' k' m' = Some (l', s) \<longrightarrow> k = k'"
    using printk_kind by (metis f)
qed

section \<open>Properties\<close>

text \<open>
  Property C37: the debug headers. Both versions of the binary macros, one with a mask for each bit and one that
  composes nibbles, print the bits with the highest first; the pattern groups the digits, and read back they give the
  number. The level of \<^verbatim>\<open>imx8mm\<close> is the number of its lowest bits set, at most four, so that counting up \<open>n\<close> times
  gives the level \<open>min n 4\<close> and is never undefined; the messages come on one at a time, the debug messages at 1, the verbose ones at 2, the
  traces at 3 and the rest at 4. A trace with a mask of two bits needs both, where the older header needs one. The kernel
  modules print a trace from level 2, the bit-banging UART from 3; apart from traces and verbose messages they print the same; and a line of the log
  tells the kind of its message, whichever header it comes from.
\<close>

theorem debug_macros:
  "BYTE_TO_BINARY w = imx_BYTE_TO_BINARY w \<and> WORD_TO_BINARY w = imx_WORD_TO_BINARY w \<and>
   (\<exists>s. printf_c WORD_TO_BINARY_PATTERN (WORD_TO_BINARY w) = Some s \<and> digits_value (filter (\<lambda>c. c \<noteq> CHR '' '') s) = unat w) \<and>
   (\<exists>s. printf_c BYTE_TO_BINARY_PATTERN (BYTE_TO_BINARY w) = Some s \<and>
      digits_value (filter (\<lambda>c. c \<noteq> CHR '' '') s) = unat (take_bit 8 w)) \<and>
   DBG_LVL w = Some (length (takeWhile (bit w) [0..<4])) \<and>
   (let lvl = (DBG_LVL_INC ^^ n) 0 in
      DBG_LVL lvl = Some (min n 4) \<and> (IS_DBG lvl \<longleftrightarrow> n \<ge> 1) \<and> (IS_VERB lvl \<longleftrightarrow> n \<ge> 2) \<and> (IS_TRACE lvl \<longleftrightarrow> n \<ge> 3) \<and>
      (IS_TRACE_UNIT lvl DBG_SHIFT_MORE \<longleftrightarrow> n \<ge> 4)) \<and>
   (fst (TRACE_PRINT_MASK w (push_bit 2 1 OR push_bit 3 1) e) \<longleftrightarrow> bit w 2 \<and> bit w 3) \<and>
   (fst (TRACESM w (push_bit 2 1 OR push_bit 3 1) e) \<longleftrightarrow> bit w 2 \<or> bit w 3) \<and>
   sig_BYTE_TO_BINARY w = BYTE_TO_BINARY w \<and> sig_WORD_TO_BINARY w = WORD_TO_BINARY w \<and>
   (\<forall>f \<in> {kmod_printk, pdev_printk, testmod_printk, gpioirq_printk, regulator_printk, spi_printk}.
      (f dev pl lvl K_trace m \<noteq> None \<and> kdbg_printk dev pl lvl K_trace m = None \<longleftrightarrow> lvl = 2) \<and>
      (k \<noteq> K_trace \<and> k \<noteq> K_verb \<longrightarrow> f dev pl lvl k m = kdbg_printk dev pl lvl k m) \<and>
      (\<forall>l l' s. f dev pl lvl k m = Some (l, s) \<and> kdbg_printk dev' pl' lvl' k' m' = Some (l', s) \<longrightarrow> k = k')) \<and>
   dtmod_printk dev pl = kdbg_old_printk dev pl 2"
proof (intro conjI)
  show "let lvl = (DBG_LVL_INC ^^ n) 0 in
      DBG_LVL lvl = Some (min n 4) \<and> (IS_DBG lvl \<longleftrightarrow> n \<ge> 1) \<and> (IS_VERB lvl \<longleftrightarrow> n \<ge> 2) \<and> (IS_TRACE lvl \<longleftrightarrow> n \<ge> 3) \<and>
      (IS_TRACE_UNIT lvl DBG_SHIFT_MORE \<longleftrightarrow> n \<ge> 4)"
    unfolding Let_def by (intro conjI DBG_LVL_counts levels_count)
  show "fst (TRACE_PRINT_MASK w (push_bit 2 1 OR push_bit 3 1) e) \<longleftrightarrow> bit w 2 \<and> bit w 3"
    "fst (TRACESM w (push_bit 2 1 OR push_bit 3 1) e) \<longleftrightarrow> bit w 2 \<or> bit w 3"
    unfolding TRACE_PRINT_MASK_def TRACESM_def two_bit_masks by simp_all
  show "\<forall>f \<in> {kmod_printk, pdev_printk, testmod_printk, gpioirq_printk, regulator_printk, spi_printk}.
      (f dev pl lvl K_trace m \<noteq> None \<and> kdbg_printk dev pl lvl K_trace m = None \<longleftrightarrow> lvl = 2) \<and>
      (k \<noteq> K_trace \<and> k \<noteq> K_verb \<longrightarrow> f dev pl lvl k m = kdbg_printk dev pl lvl k m) \<and>
      (\<forall>l l' s. f dev pl lvl k m = Some (l, s) \<and> kdbg_printk dev' pl' lvl' k' m' = Some (l', s) \<longrightarrow> k = k')"
    by (rule printk_copies)
  show "sig_BYTE_TO_BINARY w = BYTE_TO_BINARY w" "sig_WORD_TO_BINARY w = WORD_TO_BINARY w"
    by (simp_all only: sig_BYTE_TO_BINARY_def sig_WORD_TO_BINARY_def BYTE_TO_BINARY_def WORD_TO_BINARY_def)
  show "dtmod_printk dev pl = kdbg_old_printk dev pl 2"
    by (simp add: dtmod_printk_def dtmod_dbglvl_def)
qed (simp_all only: imx_binary_bits binary_bits DBG_LVL_exact byte_read_back [unfolded binary_bits] word_read_back [unfolded binary_bits])

theorem debug_macros_witness:
  "spi_printk ''spi'' [] 2 K_warning ''x'' = kdbg_printk ''spi'' [] 2 K_warning ''x'' \<and>
   spi_printk ''spi'' [] 2 K_trace ''x'' \<noteq> None \<and> kdbg_printk ''spi'' [] 2 K_trace ''x'' = None"
proof -
  note th = debug_macros [where w = 0 and n = 0 and e = 0 and lvl = 2 and k = K_warning and dev = "''spi''" and pl = "[]" and m = "''x''"
      and dev' = "[]" and pl' = "[]" and lvl' = 0 and k' = K_warning and m' = "[]"]
  have "spi_printk \<in> {kmod_printk, pdev_printk, testmod_printk, gpioirq_printk, regulator_printk, spi_printk}" by simp
  from th [THEN conjunct2, THEN conjunct2, THEN conjunct2, THEN conjunct2, THEN conjunct2, THEN conjunct2, THEN conjunct2,
      THEN conjunct2, THEN conjunct2, THEN conjunct2, THEN conjunct1, THEN bspec, OF this]
  show ?thesis by simp
qed

end
