(* ===== verification/Cpp_Objects.thy ===== *)
theory Cpp_Objects
  imports Main
begin

text \<open>
  The C++ examples under \<^verbatim>\<open>cpp/other\<close> that are about the life of objects: construction, copies, moves,
  destruction, exceptions from constructors, virtual calls and value categories. An object is the tree of
  its base classes and members; what a program prints is a trace of constructor and destructor calls
  with the description of the object, and of other lines. Addresses are left out. A moved-from string is what \<open>left\<close>
  leaves of it, for the standard does not say; a moved-from vector is empty. \<open>elide\<close> says whether the compiler
  makes use of the permission to construct a returned local in place.
\<close>

section \<open>Objects\<close>

datatype obj = Obj (ob_class: string) (ob_desc: string) (ob_vec: "int list") (ob_subs: "obj list")

datatype ctor_kind = Fresh | Copied | Moved

datatype cpp_event =
    Ctor ctor_kind string string
  | Ctor_throws ctor_kind string string
  | Dtor string string
  | Line string

text \<open>Destruction: the body of the destructor, then members and bases in the reverse of their order.\<close>

fun destroy :: "obj \<Rightarrow> cpp_event list" and destroy_all :: "obj list \<Rightarrow> cpp_event list" where
  "destroy (Obj c d v subs) = Dtor c d # destroy_all subs"
| "destroy_all [] = []"
| "destroy_all (x # xs) = destroy_all xs @ destroy x"

text \<open>Construction: bases and members in their order, then the body. \<open>T\<close> tells the classes whose constructor body
  throws. When something throws, what is complete is destroyed, and the result is true.\<close>

fun construct :: "(string \<Rightarrow> bool) \<Rightarrow> ctor_kind \<Rightarrow> obj \<Rightarrow> cpp_event list \<times> bool"
  and construct_all :: "(string \<Rightarrow> bool) \<Rightarrow> ctor_kind \<Rightarrow> obj list \<Rightarrow> cpp_event list \<times> bool" where
  "construct T k (Obj c d v subs) =
     (case construct_all T k subs of
        (es, True) \<Rightarrow> (es, True)
      | (es, False) \<Rightarrow>
          if T c then (es @ [Ctor_throws k c d] @ destroy_all subs, True) else (es @ [Ctor k c d], False))"
| "construct_all T k [] = ([], False)"
| "construct_all T k (x # xs) =
     (case construct T k x of
        (es, True) \<Rightarrow> (es, True)
      | (es, False) \<Rightarrow>
          (case construct_all T k xs of
             (fs, True) \<Rightarrow> (es @ fs @ destroy x, True)
           | (fs, False) \<Rightarrow> (es @ fs, False)))"

text \<open>The two objects after a move: the new one and what is left of the old one.\<close>

fun move_obj :: "(string \<Rightarrow> string) \<Rightarrow> obj \<Rightarrow> obj \<times> obj" and move_all :: "(string \<Rightarrow> string) \<Rightarrow> obj list \<Rightarrow> obj list \<times> obj list" where
  "move_obj left (Obj c d v subs) =
     (case move_all left subs of (new, old) \<Rightarrow> (Obj c d v new, Obj c (left d) [] old))"
| "move_all left [] = ([], [])"
| "move_all left (x # xs) =
     (case move_obj left x of (n, old) \<Rightarrow> (case move_all left xs of (ns, os) \<Rightarrow> (n # ns, old # os)))"

text \<open>A local variable: the object lives during the rest of the block, which may change it and may throw.\<close>

type_synonym block = "obj \<Rightarrow> cpp_event list \<times> bool \<times> obj"

definition scoped :: "(string \<Rightarrow> bool) \<Rightarrow> ctor_kind \<Rightarrow> obj \<Rightarrow> block \<Rightarrow> cpp_event list \<times> bool" where
  "scoped T k x rest =
     (case construct T k x of
        (es, True) \<Rightarrow> (es, True)
      | (es, False) \<Rightarrow> (case rest x of (fs, t, x') \<Rightarrow> (es @ fs @ destroy x', t)))"

definition nothrow :: "string \<Rightarrow> bool" where
  "nothrow c \<longleftrightarrow> False"

section \<open>Every object is destroyed once\<close>

text \<open>The classes of the objects that are alive, the last one first. A destructor must be that of the last one.\<close>

fun alive :: "cpp_event list \<Rightarrow> string list \<Rightarrow> string list option" where
  "alive [] st = Some st"
| "alive (Ctor k c d # es) st = alive es (c # st)"
| "alive (Dtor c d # es) st = (case st of [] \<Rightarrow> None | x # xs \<Rightarrow> if x = c then alive es xs else None)"
| "alive (e # es) st = alive es st"

definition neutral :: "cpp_event list \<Rightarrow> bool" where
  "neutral es \<longleftrightarrow> (\<forall>st. alive es st = Some st)"

lemma alive_append: "alive (es @ fs) st = Option.bind (alive es st) (alive fs)"
  by (induction es st rule: alive.induct) (auto split: list.split)

fun classes :: "obj \<Rightarrow> string list" and classes_all :: "obj list \<Rightarrow> string list" where
  "classes (Obj c d v subs) = c # classes_all subs"
| "classes_all [] = []"
| "classes_all (x # xs) = classes_all xs @ classes x"

lemma alive_destroy:
  "alive (destroy x) (classes x @ st) = Some st"
  "alive (destroy_all xs) (classes_all xs @ st) = Some st"
  by (induction x and xs arbitrary: st and st rule: destroy_destroy_all.induct) (simp_all add: alive_append)

lemma alive_construct:
  "alive (fst (construct T k x)) st = Some (if snd (construct T k x) then st else classes x @ st)"
  "alive (fst (construct_all T k xs)) st = Some (if snd (construct_all T k xs) then st else classes_all xs @ st)"
  by (induction T k x and T k xs arbitrary: st and st rule: construct_construct_all.induct)
     (auto simp: alive_append alive_destroy split: prod.splits bool.splits)

lemma neutral_Nil [simp]: "neutral []"
  by (simp add: neutral_def)

lemma neutral_append: "neutral es \<Longrightarrow> neutral fs \<Longrightarrow> neutral (es @ fs)"
  by (simp add: neutral_def alive_append)

lemma neutral_Line [simp]: "neutral (Line l # es) = neutral es"
  by (simp add: neutral_def)

lemma neutral_scoped:
  assumes "\<And>fs t x'. rest x = (fs, t, x') \<Longrightarrow> neutral fs \<and> classes x' = classes x"
  shows "neutral (fst (scoped T k x rest))"
proof -
  obtain es b where c: "construct T k x = (es, b)" by fastforce
  obtain fs t x' where r: "rest x = (fs, t, x')" by (metis surj_pair)
  have "alive es st = Some (if b then st else classes x @ st)" for st
    using alive_construct(1) [of T k x st] c by simp
  moreover have "alive (destroy x') (classes x @ st) = Some st" for st
    using alive_destroy(1) [of x' st] assms [OF r] by simp
  ultimately show ?thesis
    using assms [OF r] by (cases b) (simp_all add: scoped_def c r neutral_def alive_append)
qed

lemma move_classes:
  "move_obj left x = (n, old) \<Longrightarrow> classes n = classes x \<and> classes old = classes x"
  "move_all left xs = (ns, os) \<Longrightarrow> classes_all ns = classes_all xs \<and> classes_all os = classes_all xs"
  by (induction left x and left xs arbitrary: n old and ns os rule: move_obj_move_all.induct)
     (force split: prod.splits)+

text \<open>A move gives the new object what the old one had.\<close>

lemma move_takes:
  "fst (move_obj left x) = x" "fst (move_all left xs) = xs"
  by (induction left x and left xs rule: move_obj_move_all.induct) (auto split: prod.splits)

section \<open>class_ops.cpp\<close>

definition macro_obj :: obj where
  "macro_obj = Obj ''Macro'' ''Macro_default'' [] []"

definition primo :: "string \<Rightarrow> obj" where
  "primo d = Obj ''Primo'' d [1, 2, 3] []"

definition secundo :: "string \<Rightarrow> obj" where
  "secundo d = Obj ''Secundo'' d [] [primo ''Primo_default'']"

text \<open>The four blocks of \<^verbatim>\<open>main\<close>; only the last one is enabled.\<close>

definition class_ops_macro :: "string \<Rightarrow> cpp_event list \<times> bool" where
  "class_ops_macro typeid_name = scoped nothrow Fresh macro_obj (\<lambda>m. ([Line typeid_name], False, m))"

definition class_ops_copy :: "cpp_event list \<times> bool" where
  "class_ops_copy = scoped nothrow Fresh (primo ''Primo_default'') (\<lambda>p.
     case scoped nothrow Copied p (\<lambda>q. ([], False, q)) of (es, t) \<Rightarrow> (es, t, p))"

definition class_ops_copy_move :: "(string \<Rightarrow> string) \<Rightarrow> cpp_event list \<times> bool" where
  "class_ops_copy_move left = scoped nothrow Fresh (secundo ''Secundo_default'') (\<lambda>s.
     case move_obj left s of (moved, s') \<Rightarrow>
       (case scoped nothrow Copied s (\<lambda>seccopy.
               case scoped nothrow Moved moved (\<lambda>m. ([], False, m)) of (es, t) \<Rightarrow> (es, t, seccopy)) of
          (es, t) \<Rightarrow> (es, t, s')))"

definition class_ops_move :: "(string \<Rightarrow> string) \<Rightarrow> cpp_event list \<times> bool" where
  "class_ops_move left = scoped nothrow Fresh (secundo ''secundo'') (\<lambda>s.
     case move_obj left s of (moved, s') \<Rightarrow>
       (case scoped nothrow Moved moved (\<lambda>m. ([Line ''++++''], False, m)) of (es, t) \<Rightarrow> (es, t, s')))"

definition class_ops_main :: "(string \<Rightarrow> string) \<Rightarrow> cpp_event list \<times> bool" where
  "class_ops_main left = (case class_ops_move left of (es, t) \<Rightarrow> (Line ''===='' # es, t))"

section \<open>unique_ptr.cpp\<close>

text \<open>The temporary that \<^verbatim>\<open>create_class\<close> returns: what is printed until the caller has it, and the object.\<close>

definition create_class :: "bool \<Rightarrow> (string \<Rightarrow> string) \<Rightarrow> cpp_event list \<times> obj" where
  "create_class elide left =
     (let prm = primo ''Primo create_class()''
      in if elide then (fst (construct nothrow Fresh prm), prm)
         else (case move_obj left prm of (new, prm') \<Rightarrow>
           (fst (construct nothrow Fresh prm) @ fst (construct nothrow Moved new) @ destroy prm', new)))"

text \<open>The reference extends the life of the temporary to the end of the block.\<close>

definition unique_ptr_reference :: "bool \<Rightarrow> (string \<Rightarrow> string) \<Rightarrow> cpp_event list" where
  "unique_ptr_reference elide left =
     (case create_class elide left of (es, pr) \<Rightarrow> es @ [Line (ob_desc pr)] @ destroy pr)"

text \<open>A unique pointer is the object it owns, or null. A move leaves null; destruction destroys the object.\<close>

definition ptr_move :: "obj option \<Rightarrow> obj option \<times> obj option" where
  "ptr_move p = (p, None)"

definition ptr_destroy :: "obj option \<Rightarrow> cpp_event list" where
  "ptr_destroy p = (case p of None \<Rightarrow> [] | Some x \<Rightarrow> destroy x)"

definition unique_ptr_vector :: "cpp_event list" where
  "unique_ptr_vector =
     (let x = primo ''Primo_default'';
          (elem, p) = ptr_move (Some x);
          vec = [elem]
      in Line ''===='' # fst (construct nothrow Fresh x) @ ptr_destroy p @ concat (map ptr_destroy vec))"

definition unique_ptr_main :: "bool \<Rightarrow> (string \<Rightarrow> string) \<Rightarrow> cpp_event list" where
  "unique_ptr_main elide left = unique_ptr_reference elide left @ unique_ptr_vector"

section \<open>class_try_catch.cpp\<close>

definition throwing_derived :: obj where
  "throwing_derived = Obj ''Derived'' ''Derived exception'' [] [Obj ''Base'' ''Base_default'' [] []]"

definition derived_throws :: "string \<Rightarrow> bool" where
  "derived_throws c \<longleftrightarrow> c = ''Derived''"

definition class_try_catch_main :: "cpp_event list \<times> bool" where
  "class_try_catch_main =
     (case scoped derived_throws Fresh throwing_derived (\<lambda>d. ([], False, d)) of
        (es, t) \<Rightarrow> (if t then es @ [Line ''int main() catch: [error]''] else es, False))"

section \<open>class_operator.cpp\<close>

text \<open>The description of this \<^verbatim>\<open>Primo\<close> is its character, the vector its number. Its copies print nothing; they are \<open>Copied\<close> events.
  For operands that are not constant the member is the better match.\<close>

definition op_primo :: "int \<Rightarrow> char \<Rightarrow> obj" where
  "op_primo v t = Obj ''Primo'' [t] [v] []"

definition primo_v :: "obj \<Rightarrow> int" where
  "primo_v x = hd (ob_vec x)"

definition primo_plus :: "bool \<Rightarrow> obj \<Rightarrow> obj \<Rightarrow> cpp_event list \<times> obj" where
  "primo_plus elide a b =
     (let res = op_primo (primo_v a + primo_v b) CHR ''C''
      in (Line ''Primo::operator+'' # fst (construct nothrow Fresh res) @
            (if elide then [] else fst (construct nothrow Copied res) @ destroy res), res))"

definition class_operator_main :: "bool \<Rightarrow> cpp_event list \<times> bool" where
  "class_operator_main elide =
     (case scoped nothrow Fresh (op_primo 33 CHR ''A'') (\<lambda>a.
        let b = op_primo 1 CHR ''B'';
            (es, c) = primo_plus elide a b
        in (fst (construct nothrow Fresh b) @ es @ destroy c @ destroy b, False,
            Obj (ob_class a) (ob_desc c) (ob_vec c) [])) of
      (es, t) \<Rightarrow> (Line ''===='' # es, t))"

section \<open>Virtual functions\<close>

text \<open>A class is the list of the tables of its functions, its own first and then those of its bases. A virtual call
  looks in the tables of the dynamic class, a qualified or non-virtual one in those of the static class. A pure virtual
  function may have a body, which a qualified call reaches.\<close>

type_synonym 'm class_tables = "(string \<Rightarrow> 'm option) list"

fun call_in :: "'m class_tables \<Rightarrow> string \<Rightarrow> 'm option" where
  "call_in [] f = None"
| "call_in (t # ts) f = (case t f of Some m \<Rightarrow> Some m | None \<Rightarrow> call_in ts f)"

text \<open>\<^verbatim>\<open>virtual.cpp\<close>: \<^verbatim>\<open>f1\<close> is virtual, \<^verbatim>\<open>f2\<close> is not.\<close>

definition T1 :: "int class_tables" where
  "T1 = [\<lambda>f. if f = ''f1'' \<or> f = ''f2'' then Some 1 else None]"

definition T2 :: "int class_tables" where
  "T2 = (\<lambda>f. if f = ''f1'' \<or> f = ''f2'' then Some 2 else None) # T1"

definition virtual_f :: "int class_tables \<Rightarrow> (int \<times> int) option" where
  "virtual_f dyn = Option.bind (call_in dyn ''f1'') (\<lambda>a. map_option (Pair a) (call_in T1 ''f2''))"

text \<open>\<^verbatim>\<open>class_pure_virtual.cpp\<close>: a function gets the tables of the dynamic class and returns its lines.\<close>

definition pv_Base :: "string list class_tables" where
  "pv_Base = [\<lambda>f. if f = ''f'' then Some [''Pure virtual:virtual void Base::f()'']
               else if f = ''g'' then Some [''Pure virtual:virtual void Base::g()''] else None]"

definition pv_Derived :: "string list class_tables" where
  "pv_Derived = (\<lambda>f. if f = ''f'' then Some [''virtual void Derived::f()'']
               else if f = ''g'' then map_option (\<lambda>ls. ''virtual void Derived::g()CALLING:'' # ls) (call_in pv_Base ''f'') else None) # pv_Base"

definition derived_obj :: obj where
  "derived_obj = Obj ''Derived'' ''Derived_default'' [] [Obj ''Base'' ''Base_default'' [] []]"

definition lines_of_call :: "string list option \<Rightarrow> cpp_event list" where
  "lines_of_call r = (case r of None \<Rightarrow> [] | Some ls \<Rightarrow> map Line ls)"

definition class_pure_virtual_main :: "cpp_event list \<times> bool" where
  "class_pure_virtual_main = scoped nothrow Fresh derived_obj (\<lambda>d.
     (lines_of_call (call_in pv_Base ''f'') @ lines_of_call (call_in pv_Derived ''g''), False, d))"

text \<open>\<^verbatim>\<open>non_virtual_interface.cpp\<close>: the interface is a function of the base class that calls a virtual one.\<close>

definition nvi_Base :: "string list class_tables" where
  "nvi_Base = [\<lambda>f. if f = ''f'' then Some [''Pure virtual:virtual void Base::f()''] else None]"

definition nvi_Derived :: "string list class_tables" where
  "nvi_Derived = (\<lambda>f. if f = ''f'' then Some [''virtual void Derived::f()''] else None) # nvi_Base"

definition nvi_interface :: "string list class_tables \<Rightarrow> cpp_event list" where
  "nvi_interface dyn = [Line ''void Base::interface() start'', Line ''****''] @ lines_of_call (call_in dyn ''f'') @
     [Line ''****'', Line ''void Base::interface() end'']"

definition non_virtual_interface_main :: "cpp_event list \<times> bool" where
  "non_virtual_interface_main = scoped nothrow Fresh derived_obj (\<lambda>d. (nvi_interface nvi_Derived, False, d))"

text \<open>\<^verbatim>\<open>class_using.cpp\<close>: overloads are functions of different names in the tables. A name declared in the derived class hides
  those of the base class for the lookup, unless \<^verbatim>\<open>using\<close> brings them back.\<close>

definition cu_Base :: "string list class_tables" where
  "cu_Base = [\<lambda>f. if f = ''f()'' then Some [''virtual void Base::f():'']
               else if f = ''f(int)'' then Some [''virtual void Base::f(int):''] else None]"

definition cu_Derived :: "string list class_tables" where
  "cu_Derived = (\<lambda>f. if f = ''f()'' then Some [''virtual void Derived::f():''] else None) # cu_Base"

definition visible_in_Derived :: "bool \<Rightarrow> string \<Rightarrow> bool" where
  "visible_in_Derived using_Base f \<longleftrightarrow> f = ''f()'' \<or> using_Base \<and> f = ''f(int)''"

definition class_using_main :: "(cpp_event list \<times> bool) option" where
  "class_using_main =
     (if visible_in_Derived True ''f()'' \<and> visible_in_Derived True ''f(int)''
      then Some (scoped nothrow Fresh derived_obj (\<lambda>d.
        (lines_of_call (call_in cu_Derived ''f()'') @ lines_of_call (call_in cu_Derived ''f(int)''), False, d)))
      else None)"

section \<open>Value categories and moves\<close>

text \<open>\<^verbatim>\<open>std_forward_vs_move.cpp\<close>: the overloads of \<^verbatim>\<open>y\<close>, and three functions that pass their argument on. A named reference is an
  lvalue, whatever it was bound to.\<close>

datatype value_category = Lvalue | Rvalue

definition fwd_y :: "value_category \<Rightarrow> int" where
  "fwd_y c = (case c of Lvalue \<Rightarrow> 1 | Rvalue \<Rightarrow> 2)"

definition fwd_f :: "value_category \<Rightarrow> int" where
  "fwd_f arg = fwd_y Lvalue"

definition fwd_g :: "value_category \<Rightarrow> int" where
  "fwd_g arg = fwd_y Rvalue"

definition fwd_h :: "value_category \<Rightarrow> int" where
  "fwd_h arg = fwd_y arg"

definition forward_main :: "int list" where
  "forward_main = [fwd_f Lvalue, fwd_f Rvalue, fwd_g Lvalue, fwd_g Rvalue, fwd_h Lvalue, fwd_h Rvalue]"

text \<open>\<^verbatim>\<open>vector_move.cpp\<close> and \<^verbatim>\<open>string_move.cpp\<close>: the size and the elements printed, each time.\<close>

definition vec_move :: "'a list \<Rightarrow> 'a list \<times> 'a list" where
  "vec_move v = (v, [])"

definition vector_info :: "int list \<Rightarrow> nat \<times> int list" where
  "vector_info v = (length v, v)"

definition vector_move_main :: "(nat \<times> int list) list" where
  "vector_move_main =
     (let src = [4, 3, 2, 1];
          dst_copy = src;
          dst_constructed = src;
          (dst_move, src') = vec_move src;
          inside = [40, 30, 20, 10];
          returned = fst (vec_move inside)
      in [vector_info src, vector_info dst_copy, vector_info dst_constructed, vector_info dst_move,
          vector_info src', vector_info inside, vector_info returned])"

definition string_move_main :: "(string \<Rightarrow> string) \<Rightarrow> string \<Rightarrow> (string \<times> nat) list" where
  "string_move_main left src = map (\<lambda>s. (s, length s)) [src, src, left src]"

section \<open>Properties\<close>

lemma neutral_scoped_plain: "neutral es \<Longrightarrow> neutral (fst (scoped T k x (\<lambda>y. (es, t, y))))"
  by (rule neutral_scoped) auto

lemma neutral_lines [simp]: "neutral (lines_of_call r)"
proof -
  have "neutral (map Line ls)" for ls by (induction ls) simp_all
  then show ?thesis by (simp add: lines_of_call_def split: option.split)
qed

lemma nothrow_constructs: "\<not> snd (construct nothrow k x)" "\<not> snd (construct_all nothrow k xs)"
  by (induction x and xs rule: destroy_destroy_all.induct) (auto simp: nothrow_def split: prod.splits bool.splits)

text \<open>An object that is built, and later destroyed in whatever state it is then in.\<close>

lemma neutral_life:
  assumes "neutral es" and "classes x' = classes x"
  shows "neutral (fst (construct nothrow k x) @ es @ destroy x')"
  using assms alive_construct(1) [of nothrow k x] alive_destroy(1) [of x'] nothrow_constructs(1) [of k x]
  by (simp add: neutral_def alive_append)

lemma class_ops_neutral:
  "neutral (fst (class_ops_macro n))" "neutral (fst class_ops_copy)"
  "neutral (fst (class_ops_copy_move left))" "neutral (fst (class_ops_main left))"
proof -
  have inner: "neutral es" if "scoped T k x (\<lambda>m. ([], False, m)) = (es, t)" for T k x es t
    using neutral_scoped_plain [OF neutral_Nil, of T k x False] that by simp
  have inner': "neutral es" if "scoped T k x (\<lambda>m. ([Line l], False, m)) = (es, t)" for T k x l es t
    using neutral_scoped_plain [of "[Line l]" T k x False] that by simp
  show "neutral (fst (class_ops_macro n))" by (simp add: class_ops_macro_def neutral_scoped_plain)
  show "neutral (fst class_ops_copy)"
    unfolding class_ops_copy_def by (rule neutral_scoped) (auto split: prod.splits dest: inner)
  show "neutral (fst (class_ops_copy_move left))"
    unfolding class_ops_copy_move_def
  proof (rule neutral_scoped)
    fix fs t x'
    assume r: "(case move_obj left (secundo ''Secundo_default'') of (moved, s') \<Rightarrow>
       (case scoped nothrow Copied (secundo ''Secundo_default'') (\<lambda>seccopy.
               case scoped nothrow Moved moved (\<lambda>m. ([], False, m)) of (es, t) \<Rightarrow> (es, t, seccopy)) of
          (es, t) \<Rightarrow> (es, t, s'))) = (fs, t, x')"
    obtain moved s' where mv: "move_obj left (secundo ''Secundo_default'') = (moved, s')" by fastforce
    have "neutral (fst (scoped nothrow Copied (secundo ''Secundo_default'') (\<lambda>seccopy.
               case scoped nothrow Moved moved (\<lambda>m. ([], False, m)) of (es, t) \<Rightarrow> (es, t, seccopy))))"
      by (rule neutral_scoped) (auto split: prod.splits dest: inner)
    with r mv move_classes(1) [OF mv] show "neutral fs \<and> classes x' = classes (secundo ''Secundo_default'')"
      by (auto split: prod.splits)
  qed
  have "neutral (fst (class_ops_move left))"
    unfolding class_ops_move_def
    by (rule neutral_scoped) (auto split: prod.splits dest: inner' move_classes(1))
  then show "neutral (fst (class_ops_main left))" by (cases "class_ops_move left") (simp add: class_ops_main_def)
qed

lemma unique_ptr_neutral: "neutral (unique_ptr_main elide left)"
proof -
  have v: "neutral unique_ptr_vector"
    using neutral_life [OF neutral_Nil refl, of Fresh "primo ''Primo_default''"]
    by (simp add: unique_ptr_vector_def ptr_move_def ptr_destroy_def Let_def)
  have "neutral (unique_ptr_reference elide left)"
    by (simp add: unique_ptr_reference_def create_class_def primo_def Let_def neutral_def nothrow_def)
  with v show ?thesis by (simp add: unique_ptr_main_def neutral_append)
qed

text \<open>
  The C++ examples on object life. Whatever the class, and whichever of its constructors and those of its bases
  and members throw, a local variable leaves no object behind and destroys none twice, each destructor being that of the
  object constructed last; so do the example programs, with and without elision of copies and whatever a
  move leaves in a string. An exception in the constructor of a derived class destroys the base and never runs the destructor of the
  class. After a move the new object has what the old one had, and both are destroyed. A virtual call follows the object, another the
  pointer; a forwarded argument keeps its value category, a named one does not.
\<close>

theorem cpp_lifetimes:
  "neutral (fst (scoped T k x (\<lambda>y. ([], t, y)))) \<and>
   neutral (fst (class_ops_macro n)) \<and> neutral (fst class_ops_copy) \<and> neutral (fst (class_ops_copy_move left)) \<and>
   neutral (fst (class_ops_main left)) \<and> neutral (unique_ptr_main elide left) \<and> neutral (fst (class_operator_main elide)) \<and>
   neutral (fst class_pure_virtual_main) \<and> neutral (fst non_virtual_interface_main) \<and>
   class_try_catch_main =
     ([Ctor Fresh ''Base'' ''Base_default'', Ctor_throws Fresh ''Derived'' ''Derived exception'', Dtor ''Base'' ''Base_default'',
       Line ''int main() catch: [error]''], False) \<and>
   class_ops_main left =
     ([Line ''===='', Ctor Fresh ''Primo'' ''Primo_default'', Ctor Fresh ''Secundo'' ''secundo'',
       Ctor Moved ''Primo'' ''Primo_default'', Ctor Moved ''Secundo'' ''secundo'', Line ''++++'',
       Dtor ''Secundo'' ''secundo'', Dtor ''Primo'' ''Primo_default'',
       Dtor ''Secundo'' (left ''secundo''), Dtor ''Primo'' (left ''Primo_default'')], False) \<and>
   fst (move_obj left x) = x \<and>
   virtual_f T1 = Some (1, 1) \<and> virtual_f T2 = Some (2, 1) \<and>
   forward_main = [1, 1, 2, 2, 1, 2]"
proof (intro conjI)
  show "neutral (fst (class_operator_main elide))"
    by (simp add: class_operator_main_def scoped_def primo_plus_def op_primo_def nothrow_def neutral_def Let_def)
  show "neutral (fst class_pure_virtual_main)"
    unfolding class_pure_virtual_main_def by (rule neutral_scoped_plain) (simp add: neutral_append)
  show "neutral (fst non_virtual_interface_main)"
    unfolding non_virtual_interface_main_def nvi_interface_def
    by (rule neutral_scoped_plain) (simp add: neutral_append)
  show "fst (move_obj left x) = x" by (rule move_takes(1))
  show "class_try_catch_main =
     ([Ctor Fresh ''Base'' ''Base_default'', Ctor_throws Fresh ''Derived'' ''Derived exception'', Dtor ''Base'' ''Base_default'',
       Line ''int main() catch: [error]''], False)"
    by (simp add: class_try_catch_main_def scoped_def throwing_derived_def derived_throws_def)
  show "class_ops_main left =
     ([Line ''===='', Ctor Fresh ''Primo'' ''Primo_default'', Ctor Fresh ''Secundo'' ''secundo'',
       Ctor Moved ''Primo'' ''Primo_default'', Ctor Moved ''Secundo'' ''secundo'', Line ''++++'',
       Dtor ''Secundo'' ''secundo'', Dtor ''Primo'' ''Primo_default'',
       Dtor ''Secundo'' (left ''secundo''), Dtor ''Primo'' (left ''Primo_default'')], False)"
    by (simp add: class_ops_main_def class_ops_move_def scoped_def secundo_def primo_def nothrow_def)
  show "virtual_f T1 = Some (1, 1)" "virtual_f T2 = Some (2, 1)" "forward_main = [1, 1, 2, 2, 1, 2]"
    by (simp_all add: virtual_f_def T1_def T2_def forward_main_def fwd_f_def fwd_g_def fwd_h_def fwd_y_def)
qed (simp_all add: class_ops_neutral unique_ptr_neutral neutral_scoped_plain)

end
