(* ===== verification/Cpp_Calls.thy ===== *)
theory Cpp_Calls
  imports Cpp_Objects Prelude
begin

text \<open>
  The C++ examples under \<^verbatim>\<open>cpp/other\<close> on callable objects, function templates, references and output operators. The lines with the
  name of the program and the time of the compilation are left out.
\<close>

section \<open>function\_pointer.cpp, function\_template.cpp and constexpr.cpp\<close>

text \<open>The arithmetic of the templates, on the types they are used with: an \<^verbatim>\<open>int\<close> and a \<^verbatim>\<open>double\<close> that is a whole number, and
  two of type \<^verbatim>\<open>int\<close>. A sum that does not fit the result is undefined.\<close>

definition func_tmpl :: "int \<Rightarrow> int \<Rightarrow> int option" where
  "func_tmpl first final = (if - (2 ^ 31) \<le> first + final \<and> first + final < 2 ^ 31 then Some (first + final) else None)"

definition function_template_main :: "string option" where
  "function_template_main = map_option (\<lambda>v. ''['' @ dec_int v @ '']'') (func_tmpl 1 5)"

definition constexpr_func :: "int \<Rightarrow> int \<Rightarrow> int option" where
  "constexpr_func a b = (if - (2 ^ 31) \<le> a + b \<and> a + b < 2 ^ 31 then Some (a + b) else None)"

definition constexpr_main :: "string option" where
  "constexpr_main = map_option dec_int (constexpr_func 1 2)"

text \<open>The functor, whose copies and moves both copy the description, for its move constructor takes a constant.\<close>

definition functor_obj :: "string \<Rightarrow> obj" where
  "functor_obj d = Obj ''Functor'' d [] []"

definition functor_call :: "cpp_event list" where
  "functor_call = [Line ''void Functor::operator()():'']"

definition functor_call_int :: "int \<Rightarrow> cpp_event list" where
  "functor_call_int v = [Line (''virtual void Functor::operator()(int):'' @ dec_int v)]"

definition call_Functor :: "obj \<Rightarrow> cpp_event list" where
  "call_Functor f = [Line ''void call_Functor(Functor&)begin''] @ functor_call @ [Line ''void call_Functor(Functor&)end'']"

definition plain_function :: "cpp_event list" where
  "plain_function = [Line ''void function()'']"

definition call_function :: "cpp_event list \<Rightarrow> cpp_event list" where
  "call_function fp = [Line ''void call_function(void (*)())begin''] @ fp @ [Line ''void call_function(void (*)())end'']"

text \<open>The wrapper that the library makes of its argument for the duration of the call: a functor is copied, and
  the copy may be moved \<open>n\<close> times on its way; a pointer to a function has no constructor.\<close>

datatype callable = A_functor obj | A_function "cpp_event list"

fun functor_moves :: "nat \<Rightarrow> obj \<Rightarrow> cpp_event list" where
  "functor_moves 0 x = []"
| "functor_moves (Suc n) x = fst (construct nothrow Moved x) @ destroy x @ functor_moves n x"

definition call_template :: "nat \<Rightarrow> callable \<Rightarrow> cpp_event list" where
  "call_template n ft =
     (let body = (\<lambda>call. [Line ''void call_template(std::function<void()>&&)begin''] @ call @
                        [Line ''void call_template(std::function<void()>&&)end''])
      in case ft of
           A_functor x \<Rightarrow> fst (construct nothrow Copied x) @ functor_moves n x @ body functor_call @ destroy x
         | A_function call \<Rightarrow> body call)"

definition function_pointer_main :: "nat \<Rightarrow> cpp_event list \<times> bool" where
  "function_pointer_main n = scoped nothrow Fresh (functor_obj ''Functor_default'') (\<lambda>f.
     ([Line ''====''] @ functor_call @ [Line ''====''] @ functor_call_int 0 @ [Line ''++++''] @ call_Functor f @ [Line ''----''] @
      call_function plain_function @ [Line ''%%%''] @ call_template n (A_functor f) @ call_template n (A_function plain_function) @
      [Line ''%%%''] @ lines_of_call (map_option (\<lambda>v. [''['' @ dec_int v @ '']'']) (func_tmpl 1 5)), False, f))"

section \<open>The other sum of class\_operator.cpp\<close>

text \<open>The operator that is not a member, for operands of which the first is constant.\<close>

definition primo_plus_const :: "bool \<Rightarrow> obj \<Rightarrow> obj \<Rightarrow> cpp_event list \<times> obj" where
  "primo_plus_const elide a b =
     (let res = op_primo (primo_v a + primo_v b) CHR ''F''
      in (fst (construct nothrow Fresh res) @ (if elide then [] else fst (construct nothrow Copied res) @ destroy res), res))"

lemma primo_plus_const_same: "primo_v (snd (primo_plus_const elide a b)) = primo_v (snd (primo_plus elide a b))"
  by (simp add: primo_plus_const_def primo_plus_def primo_v_def op_primo_def Let_def)

section \<open>reference\_addr.cpp\<close>

definition vector_out :: "string list \<Rightarrow> string" where
  "vector_out vec = concat (map (\<lambda>el. el @ '' '') vec)"

text \<open>The names of \<^verbatim>\<open>main\<close>, the last one first: an object at an address, a reference to what another name denotes, or a pointer to
  it. The address of a reference is that of the object.\<close>

datatype declared = Object nat | Reference string | Pointer string

fun address_of :: "(string \<times> declared) list \<Rightarrow> string \<Rightarrow> nat option" where
  "address_of [] x = None"
| "address_of ((y, d) # env) x =
     (if x = y then (case d of Object a \<Rightarrow> Some a | Reference z \<Rightarrow> address_of env z | Pointer z \<Rightarrow> None) else address_of env x)"

fun pointer_value :: "(string \<times> declared) list \<Rightarrow> string \<Rightarrow> nat option" where
  "pointer_value [] x = None"
| "pointer_value ((y, d) # env) x =
     (if x = y then (case d of Pointer z \<Rightarrow> address_of env z | _ \<Rightarrow> None) else pointer_value env x)"

definition reference_names :: "nat \<Rightarrow> (string \<times> declared) list" where
  "reference_names a =
     [(''vecptr3'', Pointer ''vecrefref''), (''vecptr'', Pointer ''vec''), (''vecref3'', Reference ''vecrefref''),
      (''vecrefref'', Reference ''vecref''), (''vecref'', Reference ''vec''), (''vec'', Object a)]"

text \<open>What is printed: the vector, the addresses of four names, the values of two pointers.\<close>

definition reference_addr_main :: "string \<Rightarrow> nat \<Rightarrow> string \<times> nat option list \<times> nat option list" where
  "reference_addr_main version a =
     (let env = reference_names a
      in (vector_out [''Hello'', ''from'', ''GCC'', version, ''!''],
          map (address_of env) [''vec'', ''vecref'', ''vecrefref'', ''vecref3''],
          map (pointer_value env) [''vecptr'', ''vecptr3'']))"

section \<open>std\_pair\_ostream\_overload.cpp\<close>

record cpp_Rec =
  rec_a :: int
  rec_b :: int
  rec_c :: int

definition rec_out :: "cpp_Rec \<Rightarrow> string" where
  "rec_out r = dec_int (rec_a r) @ ''#'' @ dec_int (rec_b r)"

definition pair_out :: "int \<times> int \<Rightarrow> string" where
  "pair_out p = dec_int (fst p) @ ''%'' @ dec_int (snd p)"

definition pair2string :: "int \<times> int \<Rightarrow> string" where
  "pair2string p = dec_int (fst p) @ ''&'' @ dec_int (snd p)"

definition f92s :: "int \<times> int \<Rightarrow> string" where
  "f92s p = dec_int (fst p) @ ''#'' @ dec_int (snd p)"

text \<open>A copy to an output iterator writes the delimiter after every element. A record gets zeros where it has no initialiser.\<close>

definition ostream_copy :: "('a \<Rightarrow> string) \<Rightarrow> string \<Rightarrow> 'a list \<Rightarrow> string" where
  "ostream_copy out delim xs = concat (map (\<lambda>x. out x @ delim) xs)"

definition pair_ostream_main :: "string list" where
  "pair_ostream_main =
     (let recs = map (\<lambda>i. \<lparr>rec_a = i, rec_b = 0, rec_c = 0\<rparr>) [0, 1, 2, 3, 4, 5];
          pairs = [(0, 0), (1, -1), (2, -2), (3, -3), (4, -4), (5, -5)]
      in [ostream_copy rec_out '', '' recs, ostream_copy pair_out '', '' pairs, ostream_copy f92s '', '' pairs])"

section \<open>Properties\<close>

text \<open>Every functor is destroyed once, however often the library moves it, and what the calls print does not depend on it.\<close>

lemma functor_moves_neutral: "neutral (functor_moves n (functor_obj d))"
  by (induction n) (simp_all add: functor_obj_def nothrow_def neutral_def)

definition lines_only :: "cpp_event list \<Rightarrow> cpp_event list" where
  "lines_only es = filter (\<lambda>e. case e of Line l \<Rightarrow> True | _ \<Rightarrow> False) es"

definition constructions :: "cpp_event list \<Rightarrow> nat" where
  "constructions es = length (filter (\<lambda>e. case e of Ctor k c d \<Rightarrow> True | _ \<Rightarrow> False) es)"

lemma functor_moves_quiet: "lines_only (functor_moves n (functor_obj d)) = []" "constructions (functor_moves n (functor_obj d)) = n"
  by (induction n) (simp_all add: functor_obj_def nothrow_def lines_only_def constructions_def)

text \<open>Reading a pair back: the text up to the separator and the text after it.\<close>

definition read_int :: "string \<Rightarrow> int" where
  "read_int s = (case s of [] \<Rightarrow> 0 | c # cs \<Rightarrow> if c = CHR ''-'' then - int (dec_value cs) else int (dec_value s))"

definition read_pair :: "char \<Rightarrow> string \<Rightarrow> int \<times> int" where
  "read_pair sep s = (read_int (takeWhile (\<lambda>c. c \<noteq> sep) s), read_int (tl (dropWhile (\<lambda>c. c \<noteq> sep) s)))"

lemma dec_code_range: "c \<in> set (dec n) \<Longrightarrow> 48 \<le> (of_char c :: nat) \<and> (of_char c :: nat) \<le> 57"
proof (induction n rule: dec.induct)
  case (1 n)
  show ?case
  proof (cases "n < 10")
    case True
    with 1 show ?thesis by (simp add: dec.simps [of n])
  next
    case False
    with 1 have "c \<in> set (dec (n div 10)) \<or> c = char_of (48 + n mod 10)" by (auto simp: dec.simps [of n])
    moreover have "48 \<le> (of_char (char_of (48 + m mod 10)) :: nat) \<and> (of_char (char_of (48 + m mod 10)) :: nat) \<le> 57" for m :: nat
    proof -
      have "m mod 10 < 10" by simp
      then show ?thesis by simp
    qed
    ultimately show ?thesis using 1 False by blast
  qed
qed

lemma dec_nonempty: "dec n \<noteq> []"
  by (simp add: dec.simps [of n])

lemma dec_int_chars: "c \<in> set (dec_int i) \<Longrightarrow> c = CHR ''-'' \<or> 48 \<le> (of_char c :: nat)"
  using dec_code_range [of c "nat i"] dec_code_range [of c "nat (- i)"] by (cases "i < 0") (auto simp: dec_int_def)

lemma read_dec_int: "read_int (dec_int i) = i"
proof (cases "i < 0")
  case False
  obtain c cs where c: "dec (nat i) = c # cs" by (cases "dec (nat i)") (simp_all add: dec_nonempty)
  then have "48 \<le> (of_char c :: nat)" using dec_code_range [of c "nat i"] by simp
  then have "c \<noteq> CHR ''-''" by auto
  with False c dec_value_dec [of "nat i"] show ?thesis by (simp add: dec_int_def read_int_def)
qed (simp add: dec_int_def read_int_def dec_value_dec)

lemma split_at:
  assumes "sep \<notin> set xs"
  shows "takeWhile (\<lambda>c. c \<noteq> sep) (xs @ sep # ys) = xs" "dropWhile (\<lambda>c. c \<noteq> sep) (xs @ sep # ys) = sep # ys"
  using assms by (induction xs) auto

lemma read_pair_out:
  assumes "sep \<notin> set (dec_int a)"
  shows "read_pair sep (dec_int a @ sep # dec_int b) = (a, b)"
  unfolding read_pair_def split_at [OF assms] list.sel read_dec_int by (rule refl)

lemma separators: "CHR ''%'' \<notin> set (dec_int a)" "CHR ''&'' \<notin> set (dec_int a)" "CHR ''#'' \<notin> set (dec_int a)"
  using dec_int_chars [of "CHR ''%''" a] dec_int_chars [of "CHR ''&''" a] dec_int_chars [of "CHR ''#''" a] by auto

text \<open>
  The programs on calls and output. In \<^verbatim>\<open>function_pointer.cpp\<close> every functor is destroyed once; the library makes one copy
  and as many moves as it needs, which the lines of the calls do not show. All references and pointers of \<^verbatim>\<open>reference_addr.cpp\<close> give
  the address of the vector. A pair is read back from each of its three texts, and the text of a record is that of its
  first two members.
\<close>

theorem cpp_calls:
  "neutral (fst (function_pointer_main n)) \<and> constructions (fst (function_pointer_main n)) = n + 2 \<and>
   lines_only (fst (function_pointer_main n)) = lines_only (fst (function_pointer_main 0)) \<and>
   snd (reference_addr_main version a) = ([Some a, Some a, Some a, Some a], [Some a, Some a]) \<and>
   read_pair CHR ''%'' (pair_out p) = p \<and> read_pair CHR ''&'' (pair2string p) = p \<and> read_pair CHR ''#'' (f92s p) = p \<and>
   rec_out r = f92s (rec_a r, rec_b r)"
proof (intro conjI)
  let ?x = "functor_obj ''Functor_default''"
  have m: "neutral (functor_moves n ?x)" "lines_only (functor_moves n ?x) = []" "constructions (functor_moves n ?x) = n" for n
    by (rule functor_moves_neutral functor_moves_quiet)+
  have lines: "lines_only (es @ fs) = lines_only es @ lines_only fs"
    and cons: "constructions (es @ fs) = constructions es + constructions fs" for es fs
    by (simp_all add: lines_only_def constructions_def)
  have one: "lines_only (e # es) = (case e of Line l \<Rightarrow> e # lines_only es | _ \<Rightarrow> lines_only es)"
    "constructions (e # es) = (case e of Ctor k c d \<Rightarrow> Suc (constructions es) | _ \<Rightarrow> constructions es)"
    "lines_only [] = []" "constructions [] = 0" for e es
    by (simp_all add: lines_only_def constructions_def split: cpp_event.split)
  note defs = function_pointer_main_def scoped_def call_template_def call_Functor_def call_function_def functor_call_def functor_call_int_def
    plain_function_def lines_of_call_def Let_def
  have c: "construct nothrow k ?x = ([Ctor k ''Functor'' ''Functor_default''], False)" "destroy ?x = [Dtor ''Functor'' ''Functor_default'']" for k
    by (simp_all add: functor_obj_def nothrow_def)
  show "constructions (fst (function_pointer_main n)) = n + 2"
    by (simp add: defs c cons one m split: option.split)
  show "lines_only (fst (function_pointer_main n)) = lines_only (fst (function_pointer_main 0))"
    by (simp add: defs c lines one m split: option.split)
  have t: "neutral (call_template n (A_functor ?x))" "neutral (call_template n (A_function plain_function))"
    using m(1) by (simp_all add: call_template_def functor_call_def plain_function_def c Let_def neutral_def alive_append)
  show "neutral (fst (function_pointer_main n))"
    unfolding function_pointer_main_def
    by (rule neutral_scoped)
      (auto simp: functor_call_def functor_call_int_def call_Functor_def call_function_def plain_function_def
        intro!: neutral_append t [unfolded plain_function_def])
  show "snd (reference_addr_main version a) = ([Some a, Some a, Some a, Some a], [Some a, Some a])"
    by (simp add: reference_addr_main_def reference_names_def)
  show "read_pair CHR ''%'' (pair_out p) = p" "read_pair CHR ''&'' (pair2string p) = p" "read_pair CHR ''#'' (f92s p) = p"
    using read_pair_out [OF separators(1), of "fst p" "snd p"] read_pair_out [OF separators(2), of "fst p" "snd p"]
      read_pair_out [OF separators(3), of "fst p" "snd p"]
    by (simp_all add: pair_out_def pair2string_def f92s_def)
  show "rec_out r = f92s (rec_a r, rec_b r)" by (simp add: rec_out_def f92s_def)
qed

end
