(* ===== verification/Task_Options.thy ===== *)
theory Task_Options
  imports Main
begin

text \<open>
  The command line program of \<^verbatim>\<open>cpp/boost/program_options/boost-main.cpp\<close>. Boost is not part of the repository: parsing the
  command line with a description of options and storing the result, which the program always does together, is an
  argument \<open>PS\<close>; it gets the flag \<^verbatim>\<open>allow_unregistered\<close>, the options, the arguments and the map so far, and returns
  the new map, or \<open>None\<close> for an exception.
\<close>

datatype po_type = No_value | One_string | String_list

datatype po_value = P_flag | P_string string | P_strings "string list"

record po_opt =
  po_long :: string
  po_short :: char
  po_type :: po_type

type_synonym po_map = "string \<Rightarrow> po_value option"

type_synonym po_api = "bool \<Rightarrow> po_opt list \<Rightarrow> string list \<Rightarrow> po_map \<Rightarrow> po_map option"

datatype po_out = Text string | Help "po_opt list"

definition general_desc :: "po_opt list" where
  "general_desc = [\<lparr>po_long = ''help'', po_short = CHR ''h'', po_type = No_value\<rparr>,
     \<lparr>po_long = ''type'', po_short = CHR ''t'', po_type = One_string\<rparr>]"

definition train_desc :: "po_opt list" where
  "train_desc = [\<lparr>po_long = ''input'', po_short = CHR ''I'', po_type = One_string\<rparr>,
     \<lparr>po_long = ''info'', po_short = CHR ''i'', po_type = One_string\<rparr>,
     \<lparr>po_long = ''output'', po_short = CHR ''O'', po_type = One_string\<rparr>]"

definition recognize_desc :: "po_opt list" where
  "recognize_desc = [\<lparr>po_long = ''input'', po_short = CHR ''I'', po_type = String_list\<rparr>,
     \<lparr>po_long = ''params'', po_short = CHR ''p'', po_type = One_string\<rparr>,
     \<lparr>po_long = ''output'', po_short = CHR ''O'', po_type = One_string\<rparr>]"

definition score_desc :: "po_opt list" where
  "score_desc = [\<lparr>po_long = ''ethanol'', po_short = CHR ''e'', po_type = One_string\<rparr>,
     \<lparr>po_long = ''test'', po_short = CHR ''t'', po_type = One_string\<rparr>,
     \<lparr>po_long = ''output'', po_short = CHR ''O'', po_type = One_string\<rparr>]"

text \<open>\<^verbatim>\<open>count\<close> and \<^verbatim>\<open>as\<close>; a value of another type is an exception.\<close>

definition as_string :: "po_map \<Rightarrow> string \<Rightarrow> string option" where
  "as_string vm nm = (case vm nm of None \<Rightarrow> Some [] | Some (P_string s) \<Rightarrow> Some s | Some _ \<Rightarrow> None)"

definition as_strings :: "po_map \<Rightarrow> string \<Rightarrow> string list option" where
  "as_strings vm nm = (case vm nm of None \<Rightarrow> Some [] | Some (P_strings ss) \<Rightarrow> Some ss | Some _ \<Rightarrow> None)"

fun join :: "string list \<Rightarrow> string" where
  "join [] = []"
| "join [s] = s"
| "join (s # t # ss) = s @ '' '' @ join (t # ss)"

definition train :: "po_map \<Rightarrow> po_out option" where
  "train vm =
     Option.bind (as_string vm ''input'') (\<lambda>input_path.
     Option.bind (as_string vm ''info'') (\<lambda>info_path.
     Option.bind (as_string vm ''output'') (\<lambda>output_path.
     Some (Text (''train: '' @ input_path @ '' '' @ info_path @ '' '' @ output_path)))))"

definition recognize :: "po_map \<Rightarrow> po_out option" where
  "recognize vm =
     Option.bind (as_strings vm ''input'') (\<lambda>input_files.
     Option.bind (as_string vm ''params'') (\<lambda>params_path.
     Option.bind (as_string vm ''output'') (\<lambda>output_path.
     Some (Text (''recognize: '' @ join input_files @ '' '' @ params_path @ '' '' @ output_path)))))"

definition score :: "po_map \<Rightarrow> po_out option" where
  "score vm =
     Option.bind (as_string vm ''ethanol'') (\<lambda>ethanol_files.
     Option.bind (as_string vm ''test'') (\<lambda>test_path.
     Option.bind (as_string vm ''output'') (\<lambda>output_path.
     Some (Text (''test: '' @ ethanol_files @ '' '' @ test_path @ '' '' @ output_path)))))"

text \<open>One task: its options are added, and shown when something throws.\<close>

definition run_task :: "po_api \<Rightarrow> po_opt list \<Rightarrow> string list \<Rightarrow> po_map \<Rightarrow> (po_map \<Rightarrow> po_out option) \<Rightarrow> po_out" where
  "run_task PS desc args vm task =
     (case Option.bind (PS False (general_desc @ desc) args vm) task of
        None \<Rightarrow> Help (general_desc @ desc)
      | Some out \<Rightarrow> out)"

definition boost_main :: "po_api \<Rightarrow> string list \<Rightarrow> po_out" where
  "boost_main PS args =
     (case PS True general_desc args (\<lambda>_. None) of
        None \<Rightarrow> Help general_desc
      | Some vm \<Rightarrow>
          (let task_type = (case vm ''type'' of Some (P_string s) \<Rightarrow> s | _ \<Rightarrow> '''')
           in if task_type = ''train'' then run_task PS train_desc args vm train
              else if task_type = ''recognize'' then run_task PS recognize_desc args vm recognize
              else if task_type = ''score'' then run_task PS score_desc args vm score
              else Help (general_desc @ train_desc @ recognize_desc @ score_desc)))"

section \<open>Documented behaviour of the library\<close>

text \<open>An argument that two options match by their short names is ambiguous, which is an exception. Stored values have the type
  that the description gives, and values stored before keep theirs.\<close>

definition po_ambiguous :: "po_api \<Rightarrow> bool" where
  "po_ambiguous PS \<longleftrightarrow> (\<forall>b opts args vm o1 o2. o1 \<in> set opts \<and> o2 \<in> set opts \<and> o1 \<noteq> o2 \<and> po_short o1 = po_short o2 \<and>
     [CHR ''-'', po_short o1] \<in> set args \<longrightarrow> PS b opts args vm = None)"

definition has_type :: "po_value \<Rightarrow> po_type \<Rightarrow> bool" where
  "has_type v t \<longleftrightarrow> (case v of P_flag \<Rightarrow> t = No_value | P_string _ \<Rightarrow> t = One_string | P_strings _ \<Rightarrow> t = String_list)"

definition po_typed :: "po_api \<Rightarrow> bool" where
  "po_typed PS \<longleftrightarrow> (\<forall>b opts args vm vm' nm v. PS b opts args vm = Some vm' \<and> vm' nm = Some v \<longrightarrow>
     vm nm = Some v \<or> (\<exists>opt \<in> set opts. po_long opt = nm \<and> has_type v (po_type opt)))"

lemma as_string_typed:
  assumes "po_typed PS" and "PS b opts args vm = Some vm'" and "vm nm = None"
    and "\<forall>opt \<in> set opts. po_long opt = nm \<longrightarrow> po_type opt = One_string"
  shows "as_string vm' nm \<noteq> None"
proof (cases "vm' nm")
  case (Some v)
  with assms have "has_type v One_string" unfolding po_typed_def by (metis option.distinct(1))
  with Some show ?thesis by (auto simp: as_string_def has_type_def split: po_value.splits)
qed (simp add: as_string_def)

lemma as_strings_typed:
  assumes "po_typed PS" and "PS b opts args vm = Some vm'" and "vm nm = None"
    and "\<forall>opt \<in> set opts. po_long opt = nm \<longrightarrow> po_type opt = String_list"
  shows "as_strings vm' nm \<noteq> None"
proof (cases "vm' nm")
  case (Some v)
  with assms have "has_type v String_list" unfolding po_typed_def by (metis option.distinct(1))
  with Some show ?thesis by (auto simp: as_strings_def has_type_def split: po_value.splits)
qed (simp add: as_strings_def)

lemma first_pass_names:
  assumes "po_typed PS" and "PS True general_desc args (\<lambda>_. None) = Some vm"
  shows "nm \<notin> {''help'', ''type''} \<Longrightarrow> vm nm = None"
  using assms by (cases "vm nm") (force simp: po_typed_def general_desc_def)+

lemma tasks_typed:
  assumes typed: "po_typed PS" and first: "PS True general_desc args (\<lambda>_. None) = Some vm"
  shows "PS False (general_desc @ train_desc) args vm = Some vm' \<Longrightarrow> train vm' \<noteq> None"
    and "PS False (general_desc @ recognize_desc) args vm = Some vm' \<Longrightarrow> recognize vm' \<noteq> None"
    and "PS False (general_desc @ score_desc) args vm = Some vm' \<Longrightarrow> score vm' \<noteq> None"
proof -
  note none = first_pass_names [OF typed first]
  show "train vm' \<noteq> None" if p: "PS False (general_desc @ train_desc) args vm = Some vm'"
    using as_string_typed [OF typed p none [of "''input''"]] as_string_typed [OF typed p none [of "''info''"]]
      as_string_typed [OF typed p none [of "''output''"]]
    by (auto simp: train_def general_desc_def train_desc_def)
  show "recognize vm' \<noteq> None" if p: "PS False (general_desc @ recognize_desc) args vm = Some vm'"
    using as_strings_typed [OF typed p none [of "''input''"]] as_string_typed [OF typed p none [of "''params''"]]
      as_string_typed [OF typed p none [of "''output''"]]
    by (auto simp: recognize_def general_desc_def recognize_desc_def)
  show "score vm' \<noteq> None" if p: "PS False (general_desc @ score_desc) args vm = Some vm'"
    using as_string_typed [OF typed p none [of "''ethanol''"]] as_string_typed [OF typed p none [of "''test''"]]
      as_string_typed [OF typed p none [of "''output''"]]
    by (auto simp: score_def general_desc_def score_desc_def)
qed

text \<open>
  A task that has been selected runs exactly if the second pass over the command line succeeds: the values always have the types
  with which they are read. For the task \<^verbatim>\<open>score\<close> the option \<^verbatim>\<open>-t\<close> is both the task and the test file, so that with it the program only shows
  its options.
\<close>

theorem boost_main_tasks:
  assumes "po_typed PS" and "po_ambiguous PS" and "PS True general_desc args (\<lambda>_. None) = Some vm" and "vm ''type'' = Some (P_string t)"
  shows "t = ''train'' \<Longrightarrow> (\<exists>s. boost_main PS args = Text s) \<longleftrightarrow> PS False (general_desc @ train_desc) args vm \<noteq> None"
    and "t = ''recognize'' \<Longrightarrow> (\<exists>s. boost_main PS args = Text s) \<longleftrightarrow> PS False (general_desc @ recognize_desc) args vm \<noteq> None"
    and "t = ''score'' \<Longrightarrow> (\<exists>s. boost_main PS args = Text s) \<longleftrightarrow> PS False (general_desc @ score_desc) args vm \<noteq> None"
    and "t = ''score'' \<Longrightarrow> ''-t'' \<in> set args \<Longrightarrow> boost_main PS args = Help (general_desc @ score_desc)"
    and "t \<notin> {''train'', ''recognize'', ''score''} \<Longrightarrow> boost_main PS args = Help (general_desc @ train_desc @ recognize_desc @ score_desc)"
proof -
  have out: "\<exists>s. r = Text s" if "train m = Some r \<or> recognize m = Some r \<or> score m = Some r" for m r
    using that by (auto simp: train_def recognize_def score_def bind_eq_Some_conv)
  note typed = tasks_typed [OF assms(1,3)]
  show "(\<exists>s. boost_main PS args = Text s) \<longleftrightarrow> PS False (general_desc @ train_desc) args vm \<noteq> None" if "t = ''train''"
    using assms(3,4) that typed(1) out
    by (cases "PS False (general_desc @ train_desc) args vm") (auto simp: boost_main_def run_task_def split: option.split)
  show "(\<exists>s. boost_main PS args = Text s) \<longleftrightarrow> PS False (general_desc @ recognize_desc) args vm \<noteq> None" if "t = ''recognize''"
    using assms(3,4) that typed(2) out
    by (cases "PS False (general_desc @ recognize_desc) args vm") (auto simp: boost_main_def run_task_def split: option.split)
  show "(\<exists>s. boost_main PS args = Text s) \<longleftrightarrow> PS False (general_desc @ score_desc) args vm \<noteq> None" if "t = ''score''"
    using assms(3,4) that typed(3) out
    by (cases "PS False (general_desc @ score_desc) args vm") (auto simp: boost_main_def run_task_def split: option.split)
  show "boost_main PS args = Help (general_desc @ score_desc)" if "t = ''score''" "''-t'' \<in> set args"
  proof -
    let ?type = "\<lparr>po_long = ''type'', po_short = CHR ''t'', po_type = One_string\<rparr>"
    let ?test = "\<lparr>po_long = ''test'', po_short = CHR ''t'', po_type = One_string\<rparr>"
    have "?type \<in> set (general_desc @ score_desc)" "?test \<in> set (general_desc @ score_desc)" "?type \<noteq> ?test"
      by (simp_all add: general_desc_def score_desc_def)
    with that(2) assms(2) have "PS False (general_desc @ score_desc) args vm = None"
      unfolding po_ambiguous_def by (metis po_opt.select_convs(2))
    then show ?thesis
      using assms(3,4) that(1) by (simp add: boost_main_def run_task_def)
  qed
  show "boost_main PS args = Help (general_desc @ train_desc @ recognize_desc @ score_desc)" if "t \<notin> {''train'', ''recognize'', ''score''}"
    using assms(3,4) that by (simp add: boost_main_def)
qed

end
