(* ===== verification/Enum_Names.thy ===== *)
theory Enum_Names
  imports Main
begin

text \<open>
  The enumerations of \<^verbatim>\<open>qt/EnumMapTemplateTest/Cam.h\<close> and \<^verbatim>\<open>qt/EnumMapTest/CamCommands.h\<close>. One macro list of names gives
  the enumerators, the table of their strings and the array to iterate over. A macro list is the list of its names, a
  value of an enumeration with the base type \<^verbatim>\<open>int\<close> an integer.
\<close>

section \<open>What the macros make of a list of names\<close>

text \<open>\<^verbatim>\<open>DECL_ENUM\<close> numbers the names from 0 and adds \<^verbatim>\<open>Count\<close>.\<close>

definition decl_enum :: "string list \<Rightarrow> (string \<times> int) list" where
  "decl_enum names = zip (names @ [''Count'']) (map int [0..<Suc (length names)])"

definition decl_enum_iterator :: "string list \<Rightarrow> int list" where
  "decl_enum_iterator names = map (\<lambda>nm. the (map_of (decl_enum names) nm)) names"

definition enumToString :: "int \<Rightarrow> string list \<Rightarrow> string" where
  "enumToString value strings =
     (if value < 0 \<or> value \<ge> int (length strings) then ''Unknown'' else strings ! nat value)"

section \<open>Cam.h and Cam.cpp\<close>

definition cam_params :: "string list" where
  "cam_params = [''URL_H'', ''URL_L'', ''HOST'', ''LOGIN'', ''PASSWORD'', ''SSH_PORT'', ''HTTP_LOGIN'', ''HTTP_PASSWORD'', ''HTTP_PORT'']"

definition cam_commands :: "string list" where
  "cam_commands = [''NIGHT_ON'', ''NIGHT_OFF'', ''BITRATE1'', ''BITRATE2'']"

definition cam_args :: "string list" where
  "cam_args = [''TYPE'', ''EXECUTABLE'', ''ARG'', ''METHOD'', ''PATH'']"

text \<open>What the constructor prints, line by line.\<close>

definition cam_value :: "string list \<Rightarrow> string \<Rightarrow> int" where
  "cam_value names nm = the (map_of (decl_enum names) nm)"

definition cam_new :: "string list list" where
  "cam_new =
     [[enumToString (cam_value cam_params ''HOST'') cam_params, enumToString (cam_value cam_commands ''NIGHT_ON'') cam_commands,
       enumToString (cam_value cam_args ''TYPE'') cam_args],
      map (\<lambda>c. enumToString c cam_params) (decl_enum_iterator cam_params),
      map (\<lambda>c. enumToString c cam_commands) (decl_enum_iterator cam_commands),
      map (\<lambda>c. enumToString c cam_args) (decl_enum_iterator cam_args)]"

section \<open>CamCommands.h\<close>

definition cam_commands_list :: "string list" where
  "cam_commands_list = [''URL_H'', ''CMD_NIGHT_ON'', ''CMD_NIGHT_OFF'']"

definition camcommands_toString :: "int \<Rightarrow> string" where
  "camcommands_toString cmd =
     (if cmd < 0 \<or> cmd \<ge> cam_value cam_commands_list ''Count'' then ''Unknown'' else cam_commands_list ! nat cmd)"

definition camcommands_main :: "string list" where
  "camcommands_main = [camcommands_toString (cam_value cam_commands_list ''CMD_NIGHT_ON''),
     camcommands_toString (cam_value cam_commands_list ''URL_H'')]"

section \<open>Lemmas\<close>

lemma enum_value_nth:
  assumes "distinct names" and "''Count'' \<notin> set names" and "i < length names"
  shows "map_of (decl_enum names) (names ! i) = Some (int i)"
proof -
  have "distinct (map fst (decl_enum names))"
    using assms(1,2) by (simp add: decl_enum_def del: upt_Suc)
  moreover have "(names ! i, int i) = decl_enum names ! i" and "i < length (decl_enum names)"
    using assms(3) by (simp_all add: decl_enum_def nth_append del: upt_Suc)
  then have "(names ! i, int i) \<in> set (decl_enum names)" by (metis nth_mem)
  ultimately show ?thesis by (simp add: map_of_eq_Some_iff)
qed

text \<open>The iteration visits every value once, in order; every value has its name, and every other integer none.\<close>

lemma enum_iterates:
  assumes "distinct names" and "''Count'' \<notin> set names"
  shows "decl_enum_iterator names = map int [0..<length names]"
  using assms by (intro nth_equalityI) (simp_all add: decl_enum_iterator_def enum_value_nth)

lemma enum_names_exact:
  assumes "distinct names" and "''Count'' \<notin> set names"
  shows "map (\<lambda>c. enumToString c names) (decl_enum_iterator names) = names"
    and "nm \<in> set names \<Longrightarrow> enumToString (cam_value names nm) names = nm"
    and "inj_on (\<lambda>c. enumToString c names) (set (decl_enum_iterator names))"
proof -
  show *: "map (\<lambda>c. enumToString c names) (decl_enum_iterator names) = names"
    by (intro nth_equalityI) (simp_all add: enum_iterates [OF assms] enumToString_def)
  show "enumToString (cam_value names nm) names = nm" if "nm \<in> set names"
    using that enum_value_nth [OF assms] by (auto simp: in_set_conv_nth cam_value_def enumToString_def)
  show "inj_on (\<lambda>c. enumToString c names) (set (decl_enum_iterator names))"
    using assms(1) * by (metis distinct_map)
qed

theorem cam_prints:
  "cam_new = [[''HOST'', ''NIGHT_ON'', ''TYPE''], cam_params, cam_commands, cam_args] \<and>
   camcommands_main = [''CMD_NIGHT_ON'', ''URL_H''] \<and>
   camcommands_toString = (\<lambda>cmd. enumToString cmd cam_commands_list)"
proof -
  have "distinct names \<and> ''Count'' \<notin> set names" if "names \<in> {cam_params, cam_commands, cam_args, cam_commands_list}" for names
    using that by (auto simp: cam_params_def cam_commands_def cam_args_def cam_commands_list_def)
  then have "distinct cam_params" "''Count'' \<notin> set cam_params" "distinct cam_commands" "''Count'' \<notin> set cam_commands"
      "distinct cam_args" "''Count'' \<notin> set cam_args" "distinct cam_commands_list" "''Count'' \<notin> set cam_commands_list"
    by blast+
  note names = enum_names_exact(1,2) [OF this(1,2)] enum_names_exact(1,2) [OF this(3,4)] enum_names_exact(1,2) [OF this(5,6)]
  have "''HOST'' \<in> set cam_params" "''NIGHT_ON'' \<in> set cam_commands" "''TYPE'' \<in> set cam_args"
    by (simp_all add: cam_params_def cam_commands_def cam_args_def)
  then have "cam_new = [[''HOST'', ''NIGHT_ON'', ''TYPE''], cam_params, cam_commands, cam_args]"
    by (simp add: cam_new_def names)
  moreover have "cam_value cam_commands_list ''Count'' = int (length cam_commands_list)"
    by (simp add: cam_value_def decl_enum_def cam_commands_list_def upt_rec)
  then have "camcommands_toString = (\<lambda>cmd. enumToString cmd cam_commands_list)"
    by (simp add: fun_eq_iff camcommands_toString_def enumToString_def)
  moreover have "camcommands_main = [''CMD_NIGHT_ON'', ''URL_H'']"
    by (simp add: camcommands_main_def camcommands_toString_def cam_value_def decl_enum_def cam_commands_list_def upt_rec)
  ultimately show ?thesis by blast
qed

end
