(* ===== verification/Qt_Audio.thy ===== *)
theory Qt_Audio
  imports Main
begin

text \<open>
  The programs \<^verbatim>\<open>qt/qsound\<close>, which plays a file with one of three players of the Qt library, and \<^verbatim>\<open>qt/qaudiocap\<close>, which records to a file.
  What they ask of the library is a trace of calls; what the library answers is an argument: the parsed command line, the value of a
  text as a number, the formats a device supports, the files that can be opened. The log is left out.
\<close>

section \<open>The library\<close>

datatype sample_format = UInt8 | Int16

record audio_format =
  af_rate :: nat
  af_channels :: nat
  af_sample :: sample_format

text \<open>\<open>arg_file\<close> and \<open>arg_engine\<close>: the values of the options that are set. \<open>to_uint\<close> is 0 for a text that is not a number.\<close>

record qt_audio =
  arg_file :: "string option"
  arg_engine :: "string option"
  to_uint :: "string \<Rightarrow> nat"
  app_dir :: string
  output_supports :: "audio_format \<Rightarrow> bool"
  input_supports :: "audio_format \<Rightarrow> bool"
  readable :: "string \<Rightarrow> bool"
  writable :: "string \<Rightarrow> bool"

datatype audio_act =
    Connect_signal string string
  | Set_source string
  | Set_loop_count "nat option"
  | Set_volume nat
  | Set_audio_output
  | Set_audio_input
  | Play
  | Open_source string bool
  | Open_destination string bool
  | Start_sink audio_format string
  | Start_source audio_format string
  | Set_media_format string
  | Set_output_location string
  | Set_recorder
  | Record

text \<open>A program ends with a status or runs its event loop.\<close>

datatype outcome = Exits int | Event_loop

section \<open>The players of qsound\<close>

definition playQSoundEffect :: "string \<Rightarrow> audio_act list" where
  "playQSoundEffect fname =
     [Connect_signal ''loadedChanged'' ''onLoadedChanged'', Connect_signal ''playingChanged'' ''onPlayingChanged'',
      Connect_signal ''loopsRemainingChanged'' ''onLoopsRemainingChanged'',
      Set_source fname, Set_loop_count (Some 3), Set_volume 1, Play]"

text \<open>\<open>None\<close>: infinitely often.\<close>

definition playQMediaPlayer :: "string \<Rightarrow> audio_act list" where
  "playQMediaPlayer fname =
     [Connect_signal ''mediaStatusChanged'' ''onMediaStatusChanged'', Set_audio_output, Set_source fname,
      Set_loop_count None, Play]"

definition sink_format :: audio_format where
  "sink_format = \<lparr>af_rate = 8000, af_channels = 1, af_sample = Int16\<rparr>"

definition playQAudioSink :: "qt_audio \<Rightarrow> string \<Rightarrow> audio_act list" where
  "playQAudioSink Q fname =
     Open_source fname (readable Q fname) #
     (if \<not> output_supports Q sink_format then []
      else [Connect_signal ''stateChanged'' ''handleStateChanged'', Start_sink sink_format fname])"

definition default_sound :: "qt_audio \<Rightarrow> string" where
  "default_sound Q = app_dir Q @ ''/'' @ ''audio8k16S.wav''"

definition qsound_main :: "qt_audio \<Rightarrow> audio_act list \<times> outcome" where
  "qsound_main Q =
     (let fname = (case arg_file Q of Some f \<Rightarrow> f | None \<Rightarrow> default_sound Q);
          engine = (case arg_engine Q of Some e \<Rightarrow> to_uint Q e | None \<Rightarrow> 0)
      in if engine = 1 then (playQSoundEffect fname, Event_loop)
         else if engine = 2 then (playQMediaPlayer fname, Event_loop)
         else if engine = 3 then (playQAudioSink Q fname, Event_loop)
         else ([], Exits 1))"

section \<open>The recorders of qaudiocap\<close>

text \<open>The first is not used by \<^verbatim>\<open>main\<close>.\<close>

definition AudioCapture :: "string \<Rightarrow> audio_act list" where
  "AudioCapture fname =
     [Set_audio_input, Set_media_format ''Wave'', Set_output_location fname, Set_recorder, Record]"

definition source_format :: audio_format where
  "source_format = \<lparr>af_rate = 8000, af_channels = 1, af_sample = Int16\<rparr>"

text \<open>A format that is not supported is only mentioned in the log.\<close>

definition InputQAudioSource :: "qt_audio \<Rightarrow> string \<Rightarrow> audio_act list \<times> int option" where
  "InputQAudioSource Q fname =
     (if \<not> writable Q fname then ([Open_destination fname False], Some 1)
      else ([Open_destination fname True, Connect_signal ''stateChanged'' ''handleStateChanged'',
             Start_source source_format fname], None))"

definition default_recording :: string where
  "default_recording = ''/mnt/nfs/input.raw''"

definition qaudiocap_main :: "qt_audio \<Rightarrow> audio_act list \<times> outcome" where
  "qaudiocap_main Q =
     (let fname = (case arg_file Q of Some f \<Rightarrow> f | None \<Rightarrow> default_recording)
      in case InputQAudioSource Q fname of
           (as, Some status) \<Rightarrow> (as, Exits status)
         | (as, None) \<Rightarrow> (as, Event_loop))"

section \<open>What they do\<close>

text \<open>Whether something was started that plays or records.\<close>

definition starts :: "audio_act \<Rightarrow> bool" where
  "starts a \<longleftrightarrow> (case a of Play \<Rightarrow> True | Start_sink f n \<Rightarrow> True | Start_source f n \<Rightarrow> True | Record \<Rightarrow> True | _ \<Rightarrow> False)"

definition busy :: "audio_act list \<times> outcome \<Rightarrow> bool" where
  "busy r \<longleftrightarrow> snd r = Event_loop \<and> list_ex starts (fst r)"

definition idle_forever :: "audio_act list \<times> outcome \<Rightarrow> bool" where
  "idle_forever r \<longleftrightarrow> snd r = Event_loop \<and> \<not> list_ex starts (fst r)"

text \<open>
  The sound program ends with status 1 exactly if the engine is not a number from 1 to 3, and it then has started nothing. With the third
  engine on a device that does not support the one format it knows, the program runs on without playing anything; with a file
  that cannot be opened it starts the sink all the same. The recorder ends with status 1 exactly if the file cannot be written,
  and otherwise records in its one format, whether the device supports it or not.
\<close>

theorem qt_audio_programs:
  "(snd (qsound_main Q) = Exits 1 \<longleftrightarrow> (case arg_engine Q of None \<Rightarrow> True | Some e \<Rightarrow> to_uint Q e \<notin> {1, 2, 3})) \<and>
   (snd (qsound_main Q) \<noteq> Event_loop \<longrightarrow> qsound_main Q = ([], Exits 1)) \<and>
   (idle_forever (qsound_main Q) \<longleftrightarrow>
      (\<exists>e. arg_engine Q = Some e \<and> to_uint Q e = 3) \<and> \<not> output_supports Q sink_format) \<and>
   (arg_engine Q = Some e \<and> to_uint Q e = 3 \<and> output_supports Q sink_format \<and> \<not> readable Q (default_sound Q) \<and> arg_file Q = None \<longrightarrow>
      Start_sink sink_format (default_sound Q) \<in> set (fst (qsound_main Q))) \<and>
   (snd (qaudiocap_main Q) = Exits 1 \<longleftrightarrow> \<not> writable Q (case arg_file Q of Some f \<Rightarrow> f | None \<Rightarrow> default_recording)) \<and>
   (busy (qaudiocap_main Q) \<longleftrightarrow> snd (qaudiocap_main Q) = Event_loop) \<and>
   (busy (qaudiocap_main Q) \<longrightarrow> qaudiocap_main Q = qaudiocap_main (Q\<lparr>input_supports := (\<lambda>f. True)\<rparr>))"
  by (auto simp: qsound_main_def qaudiocap_main_def InputQAudioSource_def playQSoundEffect_def playQMediaPlayer_def playQAudioSink_def
      idle_forever_def busy_def starts_def Let_def split: option.splits)

end
