(* ===== verification/Qwt_Sysinfo.thy ===== *)
theory Qwt_Sysinfo
  imports Main
begin

text \<open>
  The program \<^verbatim>\<open>qt/cmake/imx-qwt-sysinfo/main.cpp\<close>, which shows fixed figures in gauges of the Qwt library: the tree of widgets that its
  classes build, with what they set. Widgets are values; what the library does with them is not modelled.
\<close>

section \<open>Widgets\<close>

datatype orientation = Horizontal | Vertical

datatype direction = TopToBottom | LeftToRight

datatype alignment = AlignLeft | AlignCenter | AlignRight | AlignHCenter

datatype scale_position = LeadingScale | TrailingScale

record gauge =
  ga_scale :: "int \<times> int"
  ga_font :: "string \<times> nat"
  ga_pipe_width :: nat
  ga_max_major :: nat
  ga_max_minor :: nat
  ga_fill :: string
  ga_value :: int
  ga_orientation :: orientation
  ga_position :: scale_position

record box_style =
  bs_margins :: "nat \<times> nat \<times> nat \<times> nat"
  bs_spacing :: "nat option"
  bs_direction :: direction

text \<open>An item of a layout is a widget with its stretch and its alignment.\<close>

datatype ui_widget =
    Label string "string \<times> nat" alignment
  | Thermo gauge
  | Empty_widget
  | Panel string box_style "(ui_widget \<times> nat \<times> alignment option) list"

section \<open>The classes\<close>

definition Gauge :: "int \<Rightarrow> orientation \<Rightarrow> scale_position \<Rightarrow> gauge" where
  "Gauge v orient position =
     \<lparr>ga_scale = (0, 100), ga_font = (''Helvetica'', 8), ga_pipe_width = 6, ga_max_major = 6, ga_max_minor = 5,
      ga_fill = ''darkMagenta'', ga_value = v, ga_orientation = orient, ga_position = position\<rparr>"

definition ValueBar :: "orientation \<Rightarrow> string \<Rightarrow> int \<Rightarrow> ui_widget" where
  "ValueBar orient name v =
     Panel [] \<lparr>bs_margins = (0, 0, 0, 0), bs_spacing = Some 0, bs_direction = TopToBottom\<rparr>
       (if orient = Horizontal
        then [(Label name (''Helvetica'', 10) AlignCenter, 0, None), (Thermo (Gauge v orient LeadingScale), 0, None)]
        else [(Thermo (Gauge v orient TrailingScale), 10, Some AlignHCenter), (Label name (''Helvetica'', 10) AlignRight, 0, None)])"

definition InfoBox :: "orientation \<Rightarrow> string \<Rightarrow> (ui_widget \<times> nat \<times> alignment option) list \<Rightarrow> ui_widget" where
  "InfoBox orient title items =
     (let margin = 15; spacing = 5; dir = (if orient = Vertical then TopToBottom else LeftToRight)
      in Panel title \<lparr>bs_margins = (margin, margin, margin, margin), bs_spacing = Some spacing, bs_direction = dir\<rparr> items)"

definition MemoryBox :: ui_widget where
  "MemoryBox = InfoBox Vertical ''Memory Usage''
     [(ValueBar Horizontal ''Used'' 57, 0, None), (ValueBar Horizontal ''Shared'' 17, 0, None),
      (ValueBar Horizontal ''Cache'' 30, 0, None), (ValueBar Horizontal ''Buffers'' 22, 0, None),
      (ValueBar Horizontal ''Swap Used'' 57, 0, None), (Empty_widget, 10, None)]"

definition CpuBox :: ui_widget where
  "CpuBox = InfoBox Horizontal ''Cpu Usage''
     [(ValueBar Vertical ''User'' 57, 0, None), (ValueBar Vertical ''Total'' 73, 0, None),
      (ValueBar Vertical ''System'' 16, 0, None), (ValueBar Vertical ''Idle'' 27, 0, None)]"

definition SystemBox :: ui_widget where
  "SystemBox = Panel [] \<lparr>bs_margins = (10, 10, 10, 10), bs_spacing = None, bs_direction = LeftToRight\<rparr>
     [(MemoryBox, 10, None), (CpuBox, 0, None)]"

text \<open>The size of the window from the size the library proposes.\<close>

definition sysinfo_size :: "nat \<times> nat \<Rightarrow> nat \<times> nat" where
  "sysinfo_size hint = (max (fst hint) 600, max (snd hint) 400)"

section \<open>What is shown\<close>

text \<open>The gauges of a tree, each with the text of the label in its panel.\<close>

fun labels_of :: "(ui_widget \<times> nat \<times> alignment option) list \<Rightarrow> string list" where
  "labels_of [] = []"
| "labels_of ((Label t f a, s, al) # xs) = t # labels_of xs"
| "labels_of (x # xs) = labels_of xs"

fun gauges :: "ui_widget \<Rightarrow> (string list \<times> gauge) list"
  and gauges_in :: "string list \<Rightarrow> (ui_widget \<times> nat \<times> alignment option) list \<Rightarrow> (string list \<times> gauge) list" where
  "gauges (Panel t st items) = gauges_in (labels_of items) items"
| "gauges (Thermo g) = [([], g)]"
| "gauges (Label t f a) = []"
| "gauges Empty_widget = []"
| "gauges_in ls [] = []"
| "gauges_in ls ((w, s, al) # xs) = (case w of Thermo g \<Rightarrow> [(ls, g)] | _ \<Rightarrow> gauges w) @ gauges_in ls xs"

definition shown :: "ui_widget \<Rightarrow> string \<Rightarrow> int option" where
  "shown w name = map_of (map (\<lambda>(ls, g). (hd ls, ga_value g)) (gauges w)) name"

text \<open>
  Every gauge stands next to one label and shows a value of its scale; the scales of the gauges of the memory lie along them and those of
  the processor too. The shares of the processor add up: user and system are the total, and with the idle share 100. The window is
  never smaller than 600 by 400.
\<close>

theorem sysinfo_shown:
  "length (gauges SystemBox) = 9 \<and>
   (\<forall>(ls, g) \<in> set (gauges SystemBox). length ls = 1 \<and> fst (ga_scale g) \<le> ga_value g \<and> ga_value g \<le> snd (ga_scale g) \<and>
      (ga_position g = LeadingScale \<longleftrightarrow> ga_orientation g = Horizontal)) \<and>
   shown CpuBox ''Total'' =
     Option.bind (shown CpuBox ''User'') (\<lambda>u. map_option ((+) u) (shown CpuBox ''System'')) \<and>
   Option.bind (shown CpuBox ''Total'') (\<lambda>t. map_option ((+) t) (shown CpuBox ''Idle'')) = Some 100 \<and>
   600 \<le> fst (sysinfo_size hint) \<and> 400 \<le> snd (sysinfo_size hint) \<and>
   sysinfo_size (sysinfo_size hint) = sysinfo_size hint"
proof (intro conjI)
  have g: "gauges SystemBox = gauges MemoryBox @ gauges CpuBox"
    by (simp add: SystemBox_def MemoryBox_def CpuBox_def InfoBox_def Let_def)
  have m: "gauges MemoryBox = map (\<lambda>(n, v). ([n], Gauge v Horizontal LeadingScale))
      [(''Used'', 57), (''Shared'', 17), (''Cache'', 30), (''Buffers'', 22), (''Swap Used'', 57)]"
    by (simp add: MemoryBox_def InfoBox_def ValueBar_def Let_def)
  have c: "gauges CpuBox = map (\<lambda>(n, v). ([n], Gauge v Vertical TrailingScale))
      [(''User'', 57), (''Total'', 73), (''System'', 16), (''Idle'', 27)]"
    by (simp add: CpuBox_def InfoBox_def ValueBar_def Let_def)
  show "length (gauges SystemBox) = 9" by (simp add: g m c)
  show "\<forall>(ls, g) \<in> set (gauges SystemBox). length ls = 1 \<and> fst (ga_scale g) \<le> ga_value g \<and> ga_value g \<le> snd (ga_scale g) \<and>
      (ga_position g = LeadingScale \<longleftrightarrow> ga_orientation g = Horizontal)"
    by (simp add: g m c Gauge_def)
  show "shown CpuBox ''Total'' =
     Option.bind (shown CpuBox ''User'') (\<lambda>u. map_option ((+) u) (shown CpuBox ''System''))"
    "Option.bind (shown CpuBox ''Total'') (\<lambda>t. map_option ((+) t) (shown CpuBox ''Idle'')) = Some 100"
    by (simp_all add: shown_def c Gauge_def)
qed (simp_all add: sysinfo_size_def)

end
