(* ===== verification/Spec2Isabelle.thy ===== *)
theory Spec2Isabelle
  imports Tx_Ring Bitbang_Uart Bitbang_Machine Bitbang_Driver Gpio_Drivers Gpio_Uart_Tty
    Gpio_Uart_Machine Gpio_Uart_Gpiod Gpio_Uart_Gpiod_Machine Kfifo_Waiters Kfifo_Machine Spi_Slave Udp_Proxy Simple_Races Tty_Loopback
    Panel_Drivers Test_Modules C_Macros Keys_Manager Ini_Config
    Keypad_Window Virtual_Keyboard Fork_Stdio Signal_Threads Debug_Macros Cpp_Calls Task_Options Enum_Names
    Qt_Audio Qwt_Sysinfo
begin

text \<open>
  Kernel drivers and tools: verification development.

  The repository is a collection of independent programs. This development models its C and C++ code with
  a state of its own: the Linux kernel drivers under \<^verbatim>\<open>openwrt/kernel\<close> and \<^verbatim>\<open>linux/kernel\<close>, the UDP proxies
  under \<^verbatim>\<open>python/udp_xor_proxy\<close>, the arithmetic and debug macros, the Qt programs that hold logic (the
  keypad input with its windows, the virtual keyboard, the INI configuration), and the smaller C and C++
  examples. A driver consists of handlers that run in
  interrupt, timer or process context on a shared device structure, and of set-up and tear-down code; the
  handlers of a driver interact through the structure, a fifo, timers and wait queues.

  Conventions. A structure is a record, a function of the code the function of the same name on it; where
  two files use one name, the name has a prefix for the file. A function returns its return value (an
  \<open>int\<close>: a negative errno or a count), the new state and the actions on the outside world (pins, timers,
  wake-ups, work items, characters delivered) in order. Statistics counters and registers are words that
  wrap. Undefined behaviour of C is \<open>None\<close>. A wait is a list of the outcomes of its wake-ups. Logging is
  left out. Code that is not in the repository is an argument: the kfifo functions, the time conversions,
  the buffer functions of the kernel, the registers of a device, the answers of kernel calls; where a
  property depends on their documented behaviour this is a named hypothesis.

  Theories and what they model:

  \<^item> \<open>Prelude\<close>: C types, errno values, actions, decimal text, ring indices, lemmas on lists and words.
  \<^item> \<open>Byte_Fifo\<close>: the contracts of queues as locales; the kernel's kfifo as a record of functions, its
    documented laws, and their consequences for the drivers.
  \<^item> \<open>Tx_Ring\<close>: \<^verbatim>\<open>soft_uart/gpt/tx_ring.c\<close>, an instance of the queue contract.
  \<^item> \<open>Kernel_Trace\<close>: set-up and tear-down code as a monad over the trace of kernel calls, the resources
    held, a small Hoare logic and the life-cycle contract (locale \<open>driver_lifecycle\<close>), which the theories of
    the drivers interpret.
  \<^item> \<open>Bitbang_Uart\<close>, \<open>Bitbang_Machine\<close>, \<open>Bitbang_Driver\<close>: \<^verbatim>\<open>soft_uart/bitbang\<close>. The first has
    \<^verbatim>\<open>uart.c\<close>: reading, writing, the interrupt handler and the two timer callbacks, with the frames they
    send and sample. The second is the machine in which processes, timers and interrupts interleave, with its
    invariant and the liveness of the transmitter. The third has \<^verbatim>\<open>bitbang-main.c\<close>, \<^verbatim>\<open>bitbang-sysfs.c\<close> and
    \<^verbatim>\<open>bitbang-proc.c\<close>.
  \<^item> \<open>Gpio_Uart_Tty\<close>, \<open>Gpio_Uart_Machine\<close>: \<^verbatim>\<open>soft_uart/gpt/gpio_uart_tty.c\<close>, its functions
    and the machine in which its timer, writes and changes of the configuration interleave.
    \<open>Gpio_Uart_Gpiod\<close>, \<open>Gpio_Uart_Gpiod_Machine\<close>: the same for its variant for GPIO descriptors.
  \<^item> \<open>Kfifo_Device\<close>: \<^verbatim>\<open>gpt/kfifo.c\<close> and \<^verbatim>\<open>gpt/kfifo_rxtx.c\<close>. \<open>Kfifo_Waiters\<close>: the first as a
    machine of the interrupt and of blocking calls. \<open>Kfifo_Machine\<close>: the second as a machine of
    interrupts, readers, writers, the work item, opens and closes.
  \<^item> \<open>Gpio_Drivers\<close>, \<open>Simple_Pdrv\<close>, \<open>Panel_Drivers\<close>, \<open>Tty_Loopback\<close>: the GPIO interrupt drivers, the
    drivers with a buffer, the regulator and GPIO interrupt drivers of \<^verbatim>\<open>linux/kernel\<close>, the TTY drivers
    without hardware. \<open>Simple_Races\<close>: the calls of the drivers with a buffer when they overlap.
    \<open>Test_Modules\<close>: the kernel test modules, with what they read of the device tree.
  \<^item> \<open>Spi_Ring\<close>, \<open>Spi_Hw\<close>, \<open>Spi_Slave\<close>: \<^verbatim>\<open>linux/kernel/slave-spi-driver\<close>: the ring of packet numbers;
    the registers, the packetiser and the polling loop; the driver and its concurrency.
  \<^item> \<open>Udp_Proxy\<close>: the three programs of \<^verbatim>\<open>python/udp_xor_proxy\<close>.
  \<^item> \<open>C_Macros\<close>: the division, alignment and mask macros of the headers.
  \<^item> \<open>Keys_Manager\<close>, \<open>Keypad_Window\<close>: \<^verbatim>\<open>qt/qkeywin\<close>: text input with a telephone keypad on the Qt
    library (\<^verbatim>\<open>KeysManager.cpp\<close>), and the window and dialog around it with the machine of their events.
  \<^item> \<open>Virtual_Keyboard\<close>: \<^verbatim>\<open>qt/vkbd\<close>, an input method with a panel.
  \<^item> \<open>Ini_Config\<close>: \<^verbatim>\<open>qt/inistream/IniStreamConfig.cpp\<close>, a table of settings that is updated by chunks of INI
    text.
  \<^item> \<open>Fork_Stdio\<close>, \<open>Signal_Threads\<close>: the programs of \<^verbatim>\<open>c\<close> that fork, with the buffers of the standard
    library; the signal handling of \<^verbatim>\<open>c/signal_thrd\<close>.

  \<^item> \<open>Debug_Macros\<close>: the debug headers. \<open>Cpp_Objects\<close>, \<open>Cpp_Calls\<close>, \<open>Task_Options\<close>, \<open>Enum_Names\<close>: the C++
    examples on object life and on calls and output, the command line program on the Boost library, the enumerations with names of \<^verbatim>\<open>qt/EnumMapTemplateTest\<close>.
  \<^item> \<open>Qt_Audio\<close>, \<open>Qwt_Sysinfo\<close>: the programs that play and record sound, with the calls they make of the Qt
    library, and the gauges of \<^verbatim>\<open>qt/cmake/imx-qwt-sysinfo\<close>.

  What the lemmas show. For data paths, that the bytes that go in come out: end to end over the line for the
  bit-banging UART, for every kfifo implementation; as a refinement of a byte list or packet queue for the
  kfifo device, the ring and the SPI driver; as a round trip for the other drivers and the proxies. For the
  state machines, invariants of every interleaving and of every sequence of key events, and for the
  kfifo device that no wake-up is lost; for the INI
  table, that the last assignment decides and that written text is read back. For loops, termination: the
  transmitter stops, the polling loop of the SPI driver returns with the first packet of the stream. For set-up and tear-down, the
  exact resources left behind. For errors, which statistics go up and what is returned. Where the code
  does not do what it should, the property says what it does, for example the lost wake-up of the
  transmitter, the receiver that samples half a bit early, and the leaks.

  Bounds and fuel. Loops whose end depends on the environment are partial functions with \<open>None\<close> for no
  end (\<open>rx_drain\<close>, \<open>rx_poll\<close>, \<open>mx51_ecspi_reset\<close>), and the properties prove that they return. The runs of a
  timer take the number of calls as an argument; \<open>tx_timer_drains\<close> states how many are enough. Readers of a
  file get fuel one above the length of what is there. Rings have the sizes of the code: 512 bytes, 16384
  packets.

  Not modelled. The C programs that only print a line or compile a pointer; the copies of \<^verbatim>\<open>macro.h\<close> under \<^verbatim>\<open>qt\<close> and \<^verbatim>\<open>cmake\<close>; the other windows of the
  Qt programs and the scripts in other languages. Slots that call back into the keypad
  manager while it emits a signal. Memory ordering between processors: steps of the machines are atomic where
  the code holds a lock or runs in one context. The binding of callbacks to the kernel (tables of
  operations, module parameters) is not modelled beyond the functions themselves. A write of the
  GPIO UART is one step of its machine: a change of the configuration in the middle of a frame is not
  modelled.
\<close>

section \<open>Properties across the drivers\<close>

text \<open>
  Property C33: the drivers give back what they take. Set-up and tear-down of the GPIO drivers, of the
  two kfifo devices, of the drivers with a buffer and of their modules are balanced whichever kernel call fails,
  the character device driver that ignores one result if that call succeeds. The regulator driver may leave
  the regulators enabled, and does when a GPIO pin is missing; the GPIO interrupt driver leaves nothing; and
  the modules of these two and of the test modules report success when their registration fails, so that unloading
  them unregisters a driver that is not registered; otherwise the test modules are balanced too.
\<close>

theorem driver_lifecycles:
  "balanced (\<lambda>_. True) (mygpio_single_probe g) (mygpio_single_remove g) \<and>
   balanced (\<lambda>_. True) mygpio_single_init mygpio_single_exit \<and>
   balanced (\<lambda>_. True) (pdrv_gpio_probe g) (pdrv_gpio_remove g) \<and>
   balanced (\<lambda>_. True) (mygpio_full_probe g) (mygpio_full_remove g) \<and>
   balanced (\<lambda>_. True) mygpio_full_init mygpio_full_exit \<and>
   balanced (\<lambda>_. True) kf_init kf_exit \<and> balanced (\<lambda>_. True) (rxtx_init f0) rxtx_exit \<and>
   balanced (\<lambda>_. True) simple_probe simple_remove \<and>
   balanced (\<lambda>_. True) simple_init simple_exit \<and>
   balanced value_created cdev_probe cdev_remove \<and>
   balanced (\<lambda>_. True) full_probe full_remove \<and>
   leaves enable_answers (regulator_probe of_id) regulator_remove {{#}, {#R_regulators#}} {#} \<and>
   held (snd (run_state (regulator_probe True
     (\<lambda>tr c. if c = Devm_gpiod_get_optional ''reset'' then -1 else 0)) [])) = Some {#R_regulators#} \<and>
   leaves (\<lambda>_. True) (gpioirq_probe of_id) gpioirq_remove {{#}} {#} \<and>
   fst (run_state (regulator_init_module (\<lambda>_ _. -1)) []) = (0, ()) \<and>
   held (snd (run_state (regulator_exit_module (\<lambda>_ _. -1) ())
     (snd (run_state (regulator_init_module (\<lambda>_ _. -1)) [])))) = None \<and>
   balanced registers dtmod_init dtmod_exit \<and> balanced registers platform_init platform_exit \<and>
   balanced (\<lambda>_. True) platform_probe platform_remove \<and>
   balanced (\<lambda>_. True) pdrv_sysfs_probe pdrv_sysfs_remove \<and>
   fst (run_state (dtmod_init (\<lambda>_ _. -1)) []) = (0, ()) \<and>
   held (snd (run_state (dtmod_exit (\<lambda>_ _. -1) ()) (snd (run_state (dtmod_init (\<lambda>_ _. -1)) [])))) = None"
  by (intro conjI single.balanced single_mod.balanced pdrv_gpio.balanced full.balanced full_mod.balanced
      kf_life.balanced rxtx_life.balanced spd.balanced spd_mod.balanced spd_cdev.balanced spd_full.balanced
      regulator_leaves gpioirq_leaves regulator_leak regulator_module_unregistered [THEN conjunct1]
      regulator_module_unregistered [THEN conjunct2] dt_mod.balanced platform_mod.balanced platform_dev.balanced
      pdrv_sysfs.balanced test_modules_unregistered [THEN conjunct1]
      test_modules_unregistered [THEN conjunct2, THEN conjunct1])

end
